theory Spec2Isabelle
  imports Main "HOL-Library.Multiset"
begin

section \<open>Errors\<close>

text \<open>
  Every exception the modelled code can raise is a value of \<open>error\<close>; a function that
  may raise returns \<open>error + 'a\<close>, with \<open>Inl\<close> for the exception.
\<close>

datatype error =
    IndexError
  | ValueError
  | KeyError
  | RecursionError
  | ProviderUnavailable
  | ZeroRowsException
  | DestinationException

section \<open>Source selector (pipeline/beam\_tables.py)\<close>

subsection \<open>Calendar dates\<close>

text \<open>
  \<open>datetime.date\<close>: a year, a month and a day, compared as the triple
  (year, month, day).
\<close>

record date =
  year :: nat
  month :: nat
  day :: nat

definition date_le :: "date \<Rightarrow> date \<Rightarrow> bool" where
  "date_le a b =
     (year a < year b \<or>
      (year a = year b \<and> (month a < month b \<or> (month a = month b \<and> day a \<le> day b))))"

definition is_leap :: "nat \<Rightarrow> bool" where
  "is_leap y = (y mod 4 = 0 \<and> (y mod 100 \<noteq> 0 \<or> y mod 400 = 0))"

definition days_in_month :: "nat \<Rightarrow> nat \<Rightarrow> nat" where
  "days_in_month y m =
     (if m = 2 then (if is_leap y then 29 else 28)
      else if m = 4 \<or> m = 6 \<or> m = 9 \<or> m = 11 then 30
      else 31)"

definition is_digit :: "char \<Rightarrow> bool" where
  "is_digit c = (c \<in> set ''0123456789'')"

definition digit_val :: "char \<Rightarrow> nat" where
  "digit_val c = of_char c - 48"

fun digits_val :: "nat \<Rightarrow> string \<Rightarrow> nat" where
  "digits_val acc [] = acc"
| "digits_val acc (c # cs) = digits_val (10 * acc + digit_val c) cs"

text \<open>
  The regular expression \<open>\d\d\d\d-\d\d-\d\d\<close> anchored at the head of a string:
  four digits, a dash, two digits, a dash, two digits. A string is a list of characters,
  and a character stands for a code point of the \<open>str\<close>. On a \<open>str\<close>, \<open>\d\<close> matches every
  character that Unicode classes as a decimal digit, not only the ASCII digits \<open>0\<close> to
  \<open>9\<close>; which characters these are is the argument \<open>dec\<close>. The ASCII digits are those of
  \<open>is_digit\<close>.
\<close>

fun date_pattern_at :: "(char \<Rightarrow> bool) \<Rightarrow> string \<Rightarrow> bool" where
  "date_pattern_at dec (y1 # y2 # y3 # y4 # s1 # m1 # m2 # s2 # d1 # d2 # rest) =
     (dec y1 \<and> dec y2 \<and> dec y3 \<and> dec y4 \<and> s1 = CHR ''-'' \<and>
      dec m1 \<and> dec m2 \<and> s2 = CHR ''-'' \<and> dec d1 \<and> dec d2)"
| "date_pattern_at dec _ = False"

text \<open>
  \<open>re.findall(r'\d\d\d\d-\d\d-\d\d', filename)\<close>: the non-overlapping matches, scanning
  from the left; after a match the scan resumes behind it.
\<close>

function findall_dates :: "(char \<Rightarrow> bool) \<Rightarrow> string \<Rightarrow> string list" where
  "findall_dates dec [] = []"
| "findall_dates dec (c # cs) =
     (if date_pattern_at dec (c # cs)
      then take 10 (c # cs) # findall_dates dec (drop 10 (c # cs))
      else findall_dates dec cs)"
  by pat_completeness auto
termination
  by (relation "measure (\<lambda>(dec, s). length s)") auto

text \<open>
  \<open>datetime.date.fromisoformat\<close> (as in Python 3.7 to 3.10): the string must be exactly
  \<open>YYYY-MM-DD\<close> in ASCII digits and name a day that exists (year 1 to 9999, month 1 to
  12, day within the month); anything else raises \<open>ValueError\<close>.
\<close>

definition fromisoformat :: "string \<Rightarrow> error + date" where
  "fromisoformat s =
     (if length s = 10 \<and> date_pattern_at is_digit s then
        (let y = digits_val 0 (take 4 s);
             m = digits_val 0 (take 2 (drop 5 s));
             d = digits_val 0 (take 2 (drop 8 s))
         in if 1 \<le> y \<and> 1 \<le> m \<and> m \<le> 12 \<and> 1 \<le> d \<and> d \<le> days_in_month y m
            then Inr \<lparr>year = y, month = m, day = d\<rparr>
            else Inl ValueError)
      else Inl ValueError)"

subsection \<open>\<open>_between_dates\<close>\<close>

text \<open>
  The date of a path is the first match of the pattern; \<open>[0]\<close> on an empty match list
  raises \<open>IndexError\<close>, and \<open>fromisoformat\<close> may raise \<open>ValueError\<close>.
\<close>

definition filename_date :: "(char \<Rightarrow> bool) \<Rightarrow> string \<Rightarrow> error + date" where
  "filename_date dec filename =
     (case findall_dates dec filename of
        [] \<Rightarrow> Inl IndexError
      | m # _ \<Rightarrow> fromisoformat m)"

definition between_dates :: "(char \<Rightarrow> bool) \<Rightarrow> string \<Rightarrow> date option \<Rightarrow> date option \<Rightarrow>
    error + bool" where
  "between_dates dec filename start_date end_date =
     (case filename_date dec filename of
        Inl e \<Rightarrow> Inl e
      | Inr d \<Rightarrow>
          (case (start_date, end_date) of
             (Some s, Some e) \<Rightarrow> Inr (date_le s d \<and> date_le d e)
           | (Some s, None) \<Rightarrow> Inr (date_le s d)
           | (None, Some e) \<Rightarrow> Inr (date_le d e)
           | (None, None) \<Rightarrow> Inr True))"

subsection \<open>\<open>_filename_matches\<close>\<close>

text \<open>\<open>str.split(sep)\<close> for a one-character separator.\<close>

fun split_on :: "char \<Rightarrow> string \<Rightarrow> string list" where
  "split_on sep [] = [[]]"
| "split_on sep (c # cs) =
     (if c = sep then [] # split_on sep cs
      else (case split_on sep cs of
              [] \<Rightarrow> [[c]]
            | w # ws \<Rightarrow> (c # w) # ws))"

text \<open>
  \<open>pathlib.PurePosixPath(p).name\<close>: the last component of the path, where empty
  components and \<open>.\<close> components are dropped; the empty string when none is left.
\<close>

definition path_name :: "string \<Rightarrow> string" where
  "path_name p =
     (case filter (\<lambda>x. x \<noteq> [] \<and> x \<noteq> ''.'') (split_on CHR ''/'' p) of
        [] \<Rightarrow> []
      | xs \<Rightarrow> last xs)"

text \<open>
  \<open>PurePosixPath(name).suffixes\<close>: none when the name ends with a dot; otherwise the
  leading dots are stripped and every dot-separated piece after the first is a suffix.
\<close>

definition path_suffixes :: "string \<Rightarrow> string list" where
  "path_suffixes name =
     (if name \<noteq> [] \<and> last name = CHR ''.'' then []
      else map (\<lambda>s. CHR ''.'' # s) (tl (split_on CHR ''.'' (dropWhile (\<lambda>c. c = CHR ''.'') name))))"

text \<open>\<open>str.rfind('.')\<close>: the index of the last dot, \<open>None\<close> for Python's \<open>-1\<close>.\<close>

fun rfind_dot :: "string \<Rightarrow> nat option" where
  "rfind_dot [] = None"
| "rfind_dot (c # cs) =
     (case rfind_dot cs of
        Some i \<Rightarrow> Some (Suc i)
      | None \<Rightarrow> (if c = CHR ''.'' then Some 0 else None))"

text \<open>
  \<open>PurePosixPath(name).stem\<close>: the name up to its last dot, when that dot is neither
  the first nor the last character.
\<close>

definition path_stem :: "string \<Rightarrow> string" where
  "path_stem name =
     (case rfind_dot name of
        Some i \<Rightarrow> (if 0 < i \<and> i + 1 < length name then take i name else name)
      | None \<Rightarrow> name)"

definition filename_matches :: "string \<Rightarrow> string list \<Rightarrow> bool" where
  "filename_matches filepath allowed_filenames =
     (let filename = path_name filepath;
          filename = (if ''.gz'' \<in> set (path_suffixes filename) then path_stem filename
                      else filename)
      in filename \<in> set allowed_filenames)"

subsection \<open>\<open>_data_to_load\<close>\<close>

definition SCAN_FILES :: "string list" where
  "SCAN_FILES = [''results.json'']"

definition EMPTY_GZIPPED_FILE_SIZE :: nat where
  "EMPTY_GZIPPED_FILE_SIZE = 33"

text \<open>
  The runner object and what it reaches outside the program: the listing of the bucket
  (\<open>gcs.match\<close>, a path and a size in bytes per object), the query for the sources
  already at the destination (\<open>_get_existing_datasources\<close>), the characters that Unicode
  classes as decimal digits (\<open>unicode_decimal\<close>, what \<open>\d\<close> matches), and the parts of the
  repository that \<open>_data_to_load\<close> only refers to (\<open>schema.SCAN_TYPE_SATELLITE\<close>,
  \<open>satellite.SATELLITE_FILES\<close>, \<open>flatten_base.source_from_filename\<close>).
\<close>

record runner =
  project :: string
  bucket :: string
  gcs_match :: "string \<Rightarrow> (string \<times> nat) list"
  get_existing_datasources :: "string \<Rightarrow> string \<Rightarrow> string list"
  unicode_decimal :: "char \<Rightarrow> bool"
  SCAN_TYPE_SATELLITE :: string
  SATELLITE_FILES :: "string list"
  source_from_filename :: "string \<Rightarrow> string"

definition startswith :: "string \<Rightarrow> string \<Rightarrow> bool" where
  "startswith s pre = (take (length pre) s = pre)"

definition get_full_table_name :: "'z runner_scheme \<Rightarrow> string \<Rightarrow> string" where
  "get_full_table_name self table_name = project self @ '':'' @ table_name"

definition existing_sources_of :: "'z runner_scheme \<Rightarrow> bool \<Rightarrow> string \<Rightarrow> string list" where
  "existing_sources_of self incremental_load destination =
     (if incremental_load then
        (let destination = (if \<not> startswith destination ''gs://''
                            then get_full_table_name self destination else destination)
         in get_existing_datasources self destination (project self))
      else [])"

definition files_to_load_of :: "'z runner_scheme \<Rightarrow> string \<Rightarrow> string list" where
  "files_to_load_of self scan_type =
     (if scan_type = SCAN_TYPE_SATELLITE self then SATELLITE_FILES self else SCAN_FILES)"

text \<open>
  The condition of the list comprehension for one object. \<open>and\<close> evaluates from the
  left, so \<open>_between_dates\<close> runs (and may raise) for every object.
\<close>

definition selected :: "'z runner_scheme \<Rightarrow> string list \<Rightarrow> string list \<Rightarrow> date option \<Rightarrow> date option \<Rightarrow>
    string \<times> nat \<Rightarrow> error + bool" where
  "selected self files_to_load existing_sources start_date end_date entry =
     (case entry of (filepath, file_size) \<Rightarrow>
        (case between_dates (unicode_decimal self) filepath start_date end_date of
           Inl e \<Rightarrow> Inl e
         | Inr b \<Rightarrow>
             Inr (b \<and> filename_matches filepath files_to_load \<and>
                  source_from_filename self filepath \<notin> set existing_sources \<and>
                  file_size > EMPTY_GZIPPED_FILE_SIZE)))"

text \<open>The list comprehension: the first exception ends it.\<close>

fun filter_paths :: "(string \<times> nat \<Rightarrow> error + bool) \<Rightarrow> (string \<times> nat) list \<Rightarrow> error + string list" where
  "filter_paths cond [] = Inr []"
| "filter_paths cond (entry # rest) =
     (case cond entry of
        Inl e \<Rightarrow> Inl e
      | Inr b \<Rightarrow>
          (case filter_paths cond rest of
             Inl e \<Rightarrow> Inl e
           | Inr fs \<Rightarrow> Inr (if b then fst entry # fs else fs)))"

definition data_to_load :: "'z runner_scheme \<Rightarrow> string \<Rightarrow> bool \<Rightarrow> string \<Rightarrow> date option \<Rightarrow> date option \<Rightarrow>
    error + string list" where
  "data_to_load self scan_type incremental_load destination start_date end_date =
     (let existing_sources = existing_sources_of self incremental_load destination;
          files_to_load = files_to_load_of self scan_type;
          files_regex = bucket self @ scan_type @ ''/**/*'';
          file_metadata = gcs_match self files_regex
      in filter_paths (selected self files_to_load existing_sources start_date end_date)
           file_metadata)"

text \<open>
  The notions in which the statements about the selector are put. Of the functions above
  they use \<open>is_digit\<close> only. A date stamp is at position \<open>i\<close> of a path when the ten
  characters from \<open>i\<close> on are four digits, a dash, two digits, a dash and two digits; its
  date is the triple (year, month, day) of the numbers its digits write; triples are
  compared year first, then month, then day.
\<close>

definition stamp_at :: "(char \<Rightarrow> bool) \<Rightarrow> string \<Rightarrow> nat \<Rightarrow> bool" where
  "stamp_at dec p i =
     (i + 10 \<le> length p \<and>
      list_all (\<lambda>k. dec (p ! (i + k))) [0, 1, 2, 3, 5, 6, 8, 9] \<and>
      p ! (i + 4) = CHR ''-'' \<and> p ! (i + 7) = CHR ''-'')"

definition digit_at :: "string \<Rightarrow> nat \<Rightarrow> nat" where
  "digit_at p i = of_char (p ! i) - 48"

definition stamp_date :: "string \<Rightarrow> nat \<Rightarrow> nat \<times> nat \<times> nat" where
  "stamp_date p i =
     (1000 * digit_at p i + 100 * digit_at p (i + 1) + 10 * digit_at p (i + 2) + digit_at p (i + 3),
      10 * digit_at p (i + 5) + digit_at p (i + 6),
      10 * digit_at p (i + 8) + digit_at p (i + 9))"

definition on_or_before :: "nat \<times> nat \<times> nat \<Rightarrow> nat \<times> nat \<times> nat \<Rightarrow> bool" where
  "on_or_before a b =
     (case (a, b) of ((y, m, d), (y', m', d')) \<Rightarrow>
        y < y' \<or> (y = y' \<and> (m < m' \<or> (m = m' \<and> d \<le> d'))))"

definition ymd :: "date \<Rightarrow> nat \<times> nat \<times> nat" where
  "ymd d = (year d, month d, day d)"

text \<open>
  The first date stamp of a path is the one with no date stamp at a position before it.
  A path has no stamp when there is none at any position. A path has a bad stamp when
  its first date stamp is not written in ASCII digits or is not a day of the calendar.
\<close>

definition first_stamp :: "(char \<Rightarrow> bool) \<Rightarrow> string \<Rightarrow> nat \<Rightarrow> bool" where
  "first_stamp dec p i = (stamp_at dec p i \<and> list_all (\<lambda>j. \<not> stamp_at dec p j) [0..<i])"

definition calendar_date :: "nat \<times> nat \<times> nat \<Rightarrow> bool" where
  "calendar_date t =
     (case t of (y, m, d) \<Rightarrow>
        1 \<le> y \<and> y \<le> 9999 \<and> 1 \<le> m \<and> m \<le> 12 \<and> 1 \<le> d \<and>
        d \<le> (if m \<in> {4, 6, 9, 11} then 30
             else if m \<noteq> 2 then 31
             else if y mod 400 = 0 \<or> (y mod 4 = 0 \<and> y mod 100 \<noteq> 0) then 29
             else 28))"

definition no_stamp :: "(char \<Rightarrow> bool) \<Rightarrow> string \<Rightarrow> bool" where
  "no_stamp dec p = list_all (\<lambda>i. \<not> stamp_at dec p i) [0..<length p]"

definition bad_stamp :: "(char \<Rightarrow> bool) \<Rightarrow> string \<Rightarrow> bool" where
  "bad_stamp dec p =
     list_ex (\<lambda>i. first_stamp dec p i \<and>
                  \<not> (stamp_at is_digit p i \<and> calendar_date (stamp_date p i)))
       [0..<length p]"

text \<open>The window, on triples: a bound that is absent does not constrain.\<close>

definition within :: "date option \<Rightarrow> date option \<Rightarrow> nat \<times> nat \<times> nat \<Rightarrow> bool" where
  "within start_date end_date t =
     ((case start_date of None \<Rightarrow> True | Some s \<Rightarrow> on_or_before (ymd s) t) \<and>
      (case end_date of None \<Rightarrow> True | Some e \<Rightarrow> on_or_before t (ymd e)))"

text \<open>
  Two helpers of the proofs: a path has a date stamp somewhere, and a date respects each
  bound of the window that is given.
\<close>

fun has_date_stamp :: "(char \<Rightarrow> bool) \<Rightarrow> string \<Rightarrow> bool" where
  "has_date_stamp dec [] = False"
| "has_date_stamp dec (c # cs) = (date_pattern_at dec (c # cs) \<or> has_date_stamp dec cs)"

definition in_window :: "date option \<Rightarrow> date option \<Rightarrow> date \<Rightarrow> bool" where
  "in_window start_date end_date d =
     ((case start_date of None \<Rightarrow> True | Some s \<Rightarrow> date_le s d) \<and>
      (case end_date of None \<Rightarrow> True | Some e \<Rightarrow> date_le d e))"

section \<open>Metadata join (pipeline/beam\_tables.py)\<close>

subsection \<open>The Beam transforms the join is built from\<close>

text \<open>
  A \<open>PCollection\<close> is modelled by the list of its elements in one order of enumeration;
  Beam fixes no order, and no statement below depends on one. \<open>Distinct\<close> keeps one copy
  of each element, \<open>GroupByKey\<close> yields one pair per distinct key with all the values of
  that key, and \<open>CoGroupByKey\<close> yields one entry per key of either input with the values
  of each input under that key.
\<close>

definition Keys :: "('k \<times> 'v) list \<Rightarrow> 'k list" where
  "Keys kvs = map fst kvs"

definition Distinct :: "'a list \<Rightarrow> 'a list" where
  "Distinct xs = remdups xs"

definition values_of :: "'k \<Rightarrow> ('k \<times> 'v) list \<Rightarrow> 'v list" where
  "values_of k kvs = map snd (filter (\<lambda>kv. fst kv = k) kvs)"

definition GroupByKey :: "('k \<times> 'v) list \<Rightarrow> ('k \<times> 'v list) list" where
  "GroupByKey kvs = map (\<lambda>k. (k, values_of k kvs)) (remdups (map fst kvs))"

definition CoGroupByKey :: "('k \<times> 'a) list \<Rightarrow> ('k \<times> 'b) list \<Rightarrow> ('k \<times> 'a list \<times> 'b list) list" where
  "CoGroupByKey xs ys =
     map (\<lambda>k. (k, values_of k xs, values_of k ys)) (remdups (map fst xs @ map fst ys))"

subsection \<open>Calls on the metadata provider\<close>

text \<open>
  The join reaches the provider through two calls: \<open>make_chooser(date)\<close> on the factory
  and \<open>get_metadata(ip)\<close> on a chooser. The model records each call, in the order made;
  a \<open>GetMetadata\<close> entry names the date whose chooser received the call.
\<close>

datatype call = MakeChooser date | GetMetadata date string

fun is_MakeChooser :: "call \<Rightarrow> bool" where
  "is_MakeChooser (MakeChooser _) = True"
| "is_MakeChooser (GetMetadata _ _) = False"

fun is_GetMetadata :: "call \<Rightarrow> bool" where
  "is_GetMetadata (MakeChooser _) = False"
| "is_GetMetadata (GetMetadata _ _) = True"

text \<open>
  A chooser as \<open>_add_ip_metadata\<close> uses it: an object with a \<open>get_metadata\<close> method.
  The factory is the function \<open>make_chooser\<close>, which may fail to open the date's data.
\<close>

record 'm ip_metadata_chooser =
  get_metadata :: "string \<Rightarrow> 'm"

type_synonym 'm ip_metadata_chooser_factory = "date \<Rightarrow> error + 'm ip_metadata_chooser"

type_synonym date_ip_key = "string \<times> string"

subsection \<open>\<open>_add_ip_metadata\<close>\<close>

text \<open>
  The generator parses the date key, asks the factory for one chooser, then looks up
  every ip of the group on that chooser. Either failure ends it before any lookup.
\<close>

definition add_ip_metadata :: "'m ip_metadata_chooser_factory \<Rightarrow> string \<Rightarrow> string list \<Rightarrow>
    call list \<times> (error + (date_ip_key \<times> 'm) list)" where
  "add_ip_metadata make_chooser date_key ips =
     (case fromisoformat date_key of
        Inl e \<Rightarrow> ([], Inl e)
      | Inr d \<Rightarrow>
          (case make_chooser d of
             Inl e \<Rightarrow> ([MakeChooser d], Inl e)
           | Inr ip_metadata_chooser \<Rightarrow>
               (MakeChooser d # map (GetMetadata d) ips,
                Inr (map (\<lambda>ip. ((date_key, ip), get_metadata ip_metadata_chooser ip)) ips))))"

text \<open>
  \<open>beam.FlatMapTuple\<close> over a function that makes calls and may raise: the outputs are
  concatenated, the calls accumulate, and the first exception fails the stage.
\<close>

fun FlatMapTuple :: "('k \<Rightarrow> 'v \<Rightarrow> call list \<times> (error + 'b list)) \<Rightarrow> ('k \<times> 'v) list \<Rightarrow>
    call list \<times> (error + 'b list)" where
  "FlatMapTuple f [] = ([], Inr [])"
| "FlatMapTuple f ((k, v) # rest) =
     (case f k v of
        (calls, Inl e) \<Rightarrow> (calls, Inl e)
      | (calls, Inr out) \<Rightarrow>
          (case FlatMapTuple f rest of
             (calls', Inl e) \<Rightarrow> (calls @ calls', Inl e)
           | (calls', Inr out') \<Rightarrow> (calls @ calls', Inr (out @ out'))))"

subsection \<open>\<open>_add_metadata\<close>\<close>

text \<open>
  The join, stage by stage as in the source. \<open>make_date_ip_key\<close> and
  \<open>merge_metadata_with_rows\<close> (pipeline/metadata/beam\_metadata.py) are arguments here.
\<close>

definition add_metadata :: "('r \<Rightarrow> date_ip_key) \<Rightarrow> 'm ip_metadata_chooser_factory \<Rightarrow>
    (date_ip_key \<Rightarrow> 'm list \<times> 'r list \<Rightarrow> 'r list) \<Rightarrow> 'r list \<Rightarrow> call list \<times> (error + 'r list)" where
  "add_metadata make_date_ip_key make_chooser merge_metadata_with_rows rows =
     (let rows_keyed_by_ip_and_date = map (\<lambda>row. (make_date_ip_key row, row)) rows;
          ips_and_dates = Keys rows_keyed_by_ip_and_date;
          deduped_ips_and_dates = Distinct ips_and_dates;
          grouped_ips_by_dates = GroupByKey deduped_ips_and_dates
      in case FlatMapTuple (add_ip_metadata make_chooser) grouped_ips_by_dates of
           (calls, Inl e) \<Rightarrow> (calls, Inl e)
         | (calls, Inr ips_with_metadata) \<Rightarrow>
             (let grouped_metadata_and_rows =
                    CoGroupByKey ips_with_metadata rows_keyed_by_ip_and_date;
                  rows_with_metadata =
                    concat (map (\<lambda>(k, v). merge_metadata_with_rows k v) grouped_metadata_and_rows)
              in (calls, Inr rows_with_metadata)))"

text \<open>
  The chooser that serves a date key, when the key parses and the factory opens it, and
  the metadata one lookup under that chooser returns. The join succeeds exactly when a
  chooser is available for the date of every row (\<open>providers_open\<close>).
\<close>

definition chooser_for :: "'m ip_metadata_chooser_factory \<Rightarrow> string \<Rightarrow> error + 'm ip_metadata_chooser" where
  "chooser_for make_chooser date_key =
     (case fromisoformat date_key of
        Inl e \<Rightarrow> Inl e
      | Inr d \<Rightarrow> make_chooser d)"

definition metadata_for :: "'m ip_metadata_chooser_factory \<Rightarrow> date_ip_key \<Rightarrow> error + 'm" where
  "metadata_for make_chooser k =
     (case chooser_for make_chooser (fst k) of
        Inl e \<Rightarrow> Inl e
      | Inr ip_metadata_chooser \<Rightarrow> Inr (get_metadata ip_metadata_chooser (snd k)))"

definition providers_open :: "'m ip_metadata_chooser_factory \<Rightarrow> date_ip_key list \<Rightarrow> bool" where
  "providers_open make_chooser keys = list_all (\<lambda>k. \<not> isl (chooser_for make_chooser (fst k))) keys"

text \<open>
  Every \<open>get_metadata\<close> call goes to a chooser that an earlier \<open>make_chooser\<close> call
  of the same date created: \<open>scoped seen calls\<close> checks it along a call list, \<open>seen\<close>
  being the dates opened so far.
\<close>

fun scoped :: "date list \<Rightarrow> call list \<Rightarrow> bool" where
  "scoped seen [] = True"
| "scoped seen (MakeChooser d # calls) = scoped (d # seen) calls"
| "scoped seen (GetMetadata d ip # calls) = (d \<in> set seen \<and> scoped seen calls)"

subsection \<open>Rows, metadata records and the merge\<close>

text \<open>
  A row with the common fields of the row model; the fields of a scan family extend the
  record. The six metadata fields are unset (\<open>None\<close>) until the join fills them.
\<close>

record bigquery_row =
  date :: string
  source :: string
  domain :: string
  ip :: string
  measurement_id :: string
  netblock :: "string option"
  asn :: "int option"
  as_name :: "string option"
  as_full_name :: "string option"
  as_type :: "string option"
  country :: "string option"

record metadata_record =
  md_netblock :: "string option"
  md_asn :: "int option"
  md_as_name :: "string option"
  md_as_full_name :: "string option"
  md_as_type :: "string option"
  md_country :: "string option"

definition no_metadata :: metadata_record where
  "no_metadata = \<lparr>md_netblock = None, md_asn = None, md_as_name = None,
     md_as_full_name = None, md_as_type = None, md_country = None\<rparr>"

text \<open>The metadata a row carries, and the row with its metadata fields cleared.\<close>

definition row_metadata :: "'a bigquery_row_scheme \<Rightarrow> metadata_record" where
  "row_metadata row = \<lparr>md_netblock = netblock row, md_asn = asn row, md_as_name = as_name row,
     md_as_full_name = as_full_name row, md_as_type = as_type row, md_country = country row\<rparr>"

definition merge_ip_metadata :: "metadata_record \<Rightarrow> 'a bigquery_row_scheme \<Rightarrow> 'a bigquery_row_scheme" where
  "merge_ip_metadata m row = row\<lparr>netblock := md_netblock m, asn := md_asn m,
     as_name := md_as_name m, as_full_name := md_as_full_name m, as_type := md_as_type m,
     country := md_country m\<rparr>"

definition without_metadata :: "'a bigquery_row_scheme \<Rightarrow> 'a bigquery_row_scheme" where
  "without_metadata row = merge_ip_metadata no_metadata row"

text \<open>
  Modelled from the spec: \<open>make_date_ip_key\<close> (pipeline/metadata/beam\_metadata.py) is
  not among the sources. The row model: the JoinKey of a row is its \<open>(date, ip)\<close> pair.
\<close>

definition make_date_ip_key :: "'a bigquery_row_scheme \<Rightarrow> date_ip_key" where
  "make_date_ip_key row = (date row, ip row)"

text \<open>
  Modelled from the spec: \<open>merge_metadata_with_rows\<close>
  (pipeline/metadata/beam\_metadata.py) is not among the sources. The join's re-join step:
  each metadata record is merged onto every original row sharing its JoinKey; rows whose
  key produced no metadata pass through with the metadata fields as they are.
\<close>

definition merge_metadata_with_rows :: "date_ip_key \<Rightarrow>
    metadata_record list \<times> 'a bigquery_row_scheme list \<Rightarrow> 'a bigquery_row_scheme list" where
  "merge_metadata_with_rows k v =
     (case v of (ip_metadata, rows) \<Rightarrow>
        (case ip_metadata of
           [] \<Rightarrow> rows
         | m # _ \<Rightarrow> map (merge_ip_metadata m) rows))"

text \<open>
  The tuple a provider's \<open>lookup\<close> returns: (netblock, asn, as\_name, as\_full\_name,
  as\_type, country).
\<close>

type_synonym lookup_result =
  "string option \<times> int \<times> string option \<times> string option \<times> string option \<times> string option"

text \<open>
  Modelled from the spec: the chooser's \<open>get_metadata\<close>
  (pipeline/metadata/ip\_metadata\_chooser.py) is not among the sources. The join's lookup
  step: the chooser invokes the provider's \<open>lookup(ip)\<close>, which returns the tuple
  (netblock, asn, as\_name, as\_full\_name, as\_type, country); a lookup failure for one ip
  is recorded as no metadata for that key and is not passed on.
\<close>

definition ip_metadata_chooser_of :: "(string \<Rightarrow> error + lookup_result) \<Rightarrow>
    metadata_record ip_metadata_chooser" where
  "ip_metadata_chooser_of provider_lookup =
     \<lparr>get_metadata = (\<lambda>ip.
        (case provider_lookup ip of
           Inl e \<Rightarrow> no_metadata
         | Inr (nb, an, nm, fnm, ty, cc) \<Rightarrow>
             \<lparr>md_netblock = nb, md_asn = Some an, md_as_name = nm,
              md_as_full_name = fnm, md_as_type = ty, md_country = cc\<rparr>))\<rparr>"

section \<open>Measurement flattener (pipeline/metadata/flatten.py)\<close>

text \<open>
  What a worker carries through a stage: the log written so far and the number of
  random identifiers drawn so far. \<open>logging.warning\<close> appends a record with the
  formatted message.
\<close>

datatype log_record = Warning string | Info string

record worker_state =
  log :: "log_record list"
  uuid_draws :: nat

definition newline :: char where
  "newline = CHR 0x0A"

definition logging_warning :: "string \<Rightarrow> worker_state \<Rightarrow> worker_state" where
  "logging_warning msg st = st\<lparr>log := log st @ [Warning msg]\<rparr>"

text \<open>\<open>pat in s\<close> on strings.\<close>

fun contains :: "string \<Rightarrow> string \<Rightarrow> bool" where
  "contains pat [] = (pat = [])"
| "contains pat (c # cs) = (startswith (c # cs) pat \<or> contains pat cs)"

text \<open>
  The file-name test of the selector in the words of the design: the terminal file name,
  after stripping a compression suffix if present, is one of the expected names. It is
  compared with \<open>_filename_matches\<close> on expected names that are plain: not empty, not
  starting with a dot, and without \<open>.gz\<close> inside.
\<close>

definition endswith :: "string \<Rightarrow> string \<Rightarrow> bool" where
  "endswith s suf = (length suf \<le> length s \<and> drop (length s - length suf) s = suf)"

definition strip_compression_suffix :: "string \<Rightarrow> string" where
  "strip_compression_suffix name =
     (if endswith name ''.gz'' then take (length name - 3) name else name)"

definition filename_matches_stripped :: "string \<Rightarrow> string list \<Rightarrow> bool" where
  "filename_matches_stripped filepath allowed_filenames =
     (strip_compression_suffix (path_name filepath) \<in> set allowed_filenames)"

definition plain_name :: "string \<Rightarrow> bool" where
  "plain_name a = (a \<noteq> [] \<and> hd a \<noteq> CHR ''.'' \<and> \<not> contains ''.gz'' a)"

text \<open>
  What \<open>json.loads\<close> does on a line: it returns the parsed value, or raises
  \<open>JSONDecodeError\<close> (with its text), or raises another exception, as it does with
  \<open>RecursionError\<close> on input nested too deep.
\<close>

datatype 's loaded = Parsed 's | JSONDecodeError string | Raised error

text \<open>
  The \<open>DoFn\<close> and what it uses from outside: \<open>json.loads\<close>, \<open>uuid.uuid4().hex\<close> (the
  identifier of the n-th draw), the constant \<open>SATELLITE_PATH_COMPONENT\<close> and the two
  extractors of the mixins. The \<open>except\<close> clause of \<open>process\<close> catches \<open>JSONDecodeError\<close>
  only; any other exception of \<open>json.loads\<close> leaves \<open>process\<close> as it is.
\<close>

record ('s, 'r) flatten_measurement =
  json_loads :: "string \<Rightarrow> 's loaded"
  uuid4_hex :: "nat \<Rightarrow> string"
  SATELLITE_PATH_COMPONENT :: string
  process_satellite :: "string \<Rightarrow> 's \<Rightarrow> string \<Rightarrow> error + 'r list"
  process_hyperquack :: "string \<Rightarrow> 's \<Rightarrow> string \<Rightarrow> error + 'r list"

definition json_decode_warning :: "string \<Rightarrow> string \<Rightarrow> string \<Rightarrow> string" where
  "json_decode_warning e filename line =
     ''JSONDecodeError: '' @ e @ [newline] @ ''Filename: '' @ filename @ [newline] @ line @ [newline]"

definition process :: "('s, 'r) flatten_measurement \<Rightarrow> worker_state \<Rightarrow> string \<times> string \<Rightarrow>
    (error + 'r list) \<times> worker_state" where
  "process self st element =
     (case element of (filename, line) \<Rightarrow>
        (case json_loads self line of
           JSONDecodeError e \<Rightarrow>
             (Inr [], logging_warning (json_decode_warning e filename line) st)
         | Raised e \<Rightarrow> (Inl e, st)
         | Parsed scan \<Rightarrow>
             (let random_measurement_id = uuid4_hex self (uuid_draws st);
                  st = st\<lparr>uuid_draws := Suc (uuid_draws st)\<rparr>
              in if contains (SATELLITE_PATH_COMPONENT self) filename
                 then (process_satellite self filename scan random_measurement_id, st)
                 else (process_hyperquack self filename scan random_measurement_id, st))))"

text \<open>
  \<open>beam.ParDo\<close> on one worker: the elements are processed one after the other, the
  outputs are concatenated, and an exception fails the stage.
\<close>

fun ParDo :: "('st \<Rightarrow> 'a \<Rightarrow> (error + 'b list) \<times> 'st) \<Rightarrow> 'st \<Rightarrow> 'a list \<Rightarrow> (error + 'b list) \<times> 'st" where
  "ParDo f st [] = (Inr [], st)"
| "ParDo f st (x # xs) =
     (case f st x of
        (Inl e, st') \<Rightarrow> (Inl e, st')
      | (Inr out, st') \<Rightarrow>
          (case ParDo f st' xs of
             (Inl e, st'') \<Rightarrow> (Inl e, st'')
           | (Inr out', st'') \<Rightarrow> (Inr (out @ out'), st'')))"

text \<open>
  Modelled from the spec: \<open>_process_hyperquack\<close> (pipeline/metadata/flatten\_hyperquack.py)
  and \<open>_process_satellite\<close> (pipeline/metadata/flatten\_satellite.py) are not among the
  sources. Each extractor is a pure function of the file path, the parsed record and the
  measurement id to a sequence of rows; one record may expand into several rows (one per
  protocol attempt, or one per DNS answer), and all of them share the measurement id. The
  argument \<open>variant_rows\<close> stands for the extraction of the other fields.
\<close>

definition extractor_of :: "(string \<Rightarrow> 's \<Rightarrow> 'a bigquery_row_scheme list) \<Rightarrow>
    string \<Rightarrow> 's \<Rightarrow> string \<Rightarrow> error + 'a bigquery_row_scheme list" where
  "extractor_of variant_rows filepath scan random_measurement_id =
     Inr (map (\<lambda>row. row\<lparr>measurement_id := random_measurement_id\<rparr>) (variant_rows filepath scan))"

text \<open>A flattener whose two extractors are of that form.\<close>

definition with_spec_extractors :: "('s, 'a bigquery_row_scheme) flatten_measurement \<Rightarrow>
    (string \<Rightarrow> 's \<Rightarrow> 'a bigquery_row_scheme list) \<Rightarrow> (string \<Rightarrow> 's \<Rightarrow> 'a bigquery_row_scheme list) \<Rightarrow>
    ('s, 'a bigquery_row_scheme) flatten_measurement" where
  "with_spec_extractors self satellite_rows hyperquack_rows =
     self\<lparr>process_satellite := extractor_of satellite_rows,
          process_hyperquack := extractor_of hyperquack_rows\<rparr>"

text \<open>
  Two notions for the statement on identifiers. \<open>redraw fl i a j b\<close> is the flattener
  whose generator returns \<open>a\<close> at draw \<open>i\<close> and \<open>b\<close> at draw \<open>j\<close> and is otherwise that of
  \<open>fl\<close>. \<open>ids_collide\<close> says that, with one line processed, then the lines between, then
  a second line, some row of the first line and some row of the second carry the same
  measurement id.
\<close>

definition redraw :: "('s, 'r) flatten_measurement \<Rightarrow> nat \<Rightarrow> string \<Rightarrow> nat \<Rightarrow> string \<Rightarrow>
    ('s, 'r) flatten_measurement" where
  "redraw fl i a j b = fl\<lparr>uuid4_hex := (uuid4_hex fl)(i := a, j := b)\<rparr>"

definition ids_collide :: "('s, 'a bigquery_row_scheme) flatten_measurement \<Rightarrow> worker_state \<Rightarrow>
    string \<times> string \<Rightarrow> (string \<times> string) list \<Rightarrow> string \<times> string \<Rightarrow> bool" where
  "ids_collide fl st element1 between element2 =
     (case process fl st element1 of (out1, st1) \<Rightarrow>
        (case process fl (snd (ParDo (process fl) st1 between)) element2 of (out2, st3) \<Rightarrow>
           (case (out1, out2) of
              (Inr rows1, Inr rows2) \<Rightarrow>
                (\<exists>r1 \<in> set rows1. \<exists>r2 \<in> set rows2. measurement_id r1 = measurement_id r2)
            | _ \<Rightarrow> False)))"

section \<open>Maxmind provider (pipeline/metadata/maxmind.py)\<close>

text \<open>
  The two database readers are outside the program. A reader call returns the response
  or raises one of the two exceptions the code handles; the fields of a response are
  optional, as in the \<open>geoip2\<close> models.
\<close>

datatype geoip2_error = ReaderValueError string | AddressNotFoundError string

fun error_text :: "geoip2_error \<Rightarrow> string" where
  "error_text (ReaderValueError msg) = msg"
| "error_text (AddressNotFoundError msg) = msg"

record city_response =
  iso_code :: "string option"

record asn_response =
  autonomous_system_number :: "int option"
  autonomous_system_organization :: "string option"
  network :: "string option"

record maxmind_ip_metadata =
  maxmind_city :: "string \<Rightarrow> geoip2_error + city_response"
  maxmind_asn :: "string \<Rightarrow> geoip2_error + asn_response"

definition maxmind_warning :: "geoip2_error \<Rightarrow> log_record" where
  "maxmind_warning e = Warning (''Maxmind: '' @ error_text e @ [newline])"

definition get_country_code :: "maxmind_ip_metadata \<Rightarrow> string \<Rightarrow> string option \<times> log_record list" where
  "get_country_code self vp_ip =
     (case maxmind_city self vp_ip of
        Inr vp_info \<Rightarrow> (iso_code vp_info, [])
      | Inl e \<Rightarrow> (None, [maxmind_warning e]))"

definition get_maxmind_asn :: "maxmind_ip_metadata \<Rightarrow> string \<Rightarrow>
    (int option \<times> string option \<times> string option) \<times> log_record list" where
  "get_maxmind_asn self vp_ip =
     (case maxmind_asn self vp_ip of
        Inr vp_info \<Rightarrow>
          ((autonomous_system_number vp_info, autonomous_system_organization vp_info,
            network vp_info), [])
      | Inl e \<Rightarrow> ((None, None, None), [maxmind_warning e]))"

text \<open>
  \<open>lookup\<close>: both readers are asked, then \<open>if not asn\<close> raises \<open>KeyError\<close>. Python's
  \<open>not\<close> holds of \<open>None\<close> and of the integer 0.
\<close>

definition lookup :: "maxmind_ip_metadata \<Rightarrow> string \<Rightarrow> (error + lookup_result) \<times> log_record list" where
  "lookup self ip_addr =
     (case get_maxmind_asn self ip_addr of ((asn_opt, as_name_opt, netblock_opt), log1) \<Rightarrow>
        (case get_country_code self ip_addr of (country_opt, log2) \<Rightarrow>
           ((case asn_opt of
               None \<Rightarrow> Inl KeyError
             | Some n \<Rightarrow>
                 (if n = 0 then Inl KeyError
                  else Inr (netblock_opt, n, as_name_opt, None, None, country_opt))),
            log1 @ log2)))"

section \<open>The run (pipeline/beam\_tables.py)\<close>

definition raise_exception_if_zero :: "int \<Rightarrow> error + unit" where
  "raise_exception_if_zero num = (if num = 0 then Inl ZeroRowsException else Inr ())"

text \<open>
  \<open>Count.Globally\<close> yields one element, the number of rows (0 for an empty
  collection), and \<open>beam.Map\<close> applies the check to it.
\<close>

definition raise_error_if_collection_empty :: "'r list \<Rightarrow> error + unit list" where
  "raise_error_if_collection_empty rows =
     (case raise_exception_if_zero (int (length rows)) of
        Inl e \<Rightarrow> Inl e
      | Inr u \<Rightarrow> Inr [u])"

text \<open>
  The runner with the collaborators of a run: the chooser factory, the reading of the
  selected files into (filename, line) pairs, the flattening \<open>DoFn\<close>, the Satellite
  line processing, and the two functions of beam\_metadata.py the join uses.
\<close>

record ('s, 'r, 'm) pipeline_runner = runner +
  metadata_chooser_factory :: "'m ip_metadata_chooser_factory"
  read_scan_text :: "string list \<Rightarrow> (string \<times> string) list"
  flatten :: "('s, 'r) flatten_measurement"
  process_satellite_lines :: "(string \<times> string) list \<Rightarrow> error + 'r list"
  date_ip_key_of :: "'r \<Rightarrow> date_ip_key"
  merge_with_rows :: "date_ip_key \<Rightarrow> 'm list \<times> 'r list \<Rightarrow> 'r list"

text \<open>
  \<open>_get_pipeline_options\<close> reads the zone of the scan type from \<open>SCAN_TYPES_TO_ZONES\<close>;
  a scan type that is not a key of the dictionary raises \<open>KeyError\<close>.
\<close>

definition SCAN_TYPES_TO_ZONES :: "(string \<times> string) list" where
  "SCAN_TYPES_TO_ZONES =
     [(''https'', ''us-east1''), (''http'', ''us-east4''), (''echo'', ''us-west1''),
      (''discard'', ''us-west2''), (''satellite'', ''us-central1'')]"

definition ALL_SCAN_TYPES :: "string list" where
  "ALL_SCAN_TYPES = map fst SCAN_TYPES_TO_ZONES"

record pipeline_options =
  region :: string
  job_name_option :: string

definition get_pipeline_options :: "string \<Rightarrow> string \<Rightarrow> error + pipeline_options" where
  "get_pipeline_options scan_type job_name =
     (case map_of SCAN_TYPES_TO_ZONES scan_type of
        None \<Rightarrow> Inl KeyError
      | Some zone \<Rightarrow> Inr \<lparr>region = zone, job_name_option = job_name\<rparr>)"

text \<open>What a run that does not raise has done.\<close>

datatype 'r run_result =
    NoNewFiles
  | WriteToGcs string string "'r list"
  | WriteToBigquery string string bool "'r list"

definition run_rows :: "('s, 'r, 'm) pipeline_runner \<Rightarrow> worker_state \<Rightarrow> string \<Rightarrow> string list \<Rightarrow> error + 'r list" where
  "run_rows self st scan_type new_filenames =
     (let lines = read_scan_text self new_filenames
      in if scan_type = SCAN_TYPE_SATELLITE self then process_satellite_lines self lines
         else fst (ParDo (process (flatten self)) st lines))"

definition run_beam_pipeline :: "('s, 'r, 'm) pipeline_runner \<Rightarrow> worker_state \<Rightarrow> string \<Rightarrow> bool \<Rightarrow>
    string \<Rightarrow> string \<Rightarrow> date option \<Rightarrow> date option \<Rightarrow> bool \<Rightarrow> error + 'r run_result" where
  "run_beam_pipeline self st scan_type incremental_load job_name destination start_date end_date
       export_gcs =
     (let is_gcs_destination = startswith destination ''gs://''
      in if export_gcs \<and> \<not> is_gcs_destination then Inl DestinationException
         else if \<not> export_gcs \<and> is_gcs_destination then Inl DestinationException
         else
           (case get_pipeline_options scan_type job_name of
              Inl e \<Rightarrow> Inl e
            | Inr pipeline_options \<Rightarrow>
           (case data_to_load self scan_type incremental_load destination start_date end_date of
              Inl e \<Rightarrow> Inl e
            | Inr new_filenames \<Rightarrow>
                (if new_filenames = [] then Inr NoNewFiles
                 else
                   (case run_rows self st scan_type new_filenames of
                      Inl e \<Rightarrow> Inl e
                    | Inr rows \<Rightarrow>
                        (case snd (add_metadata (date_ip_key_of self)
                                     (metadata_chooser_factory self) (merge_with_rows self) rows) of
                           Inl e \<Rightarrow> Inl e
                         | Inr rows_with_metadata \<Rightarrow>
                             (case raise_error_if_collection_empty rows_with_metadata of
                                Inl e \<Rightarrow> Inl e
                              | Inr _ \<Rightarrow>
                                  Inr (if export_gcs
                                       then WriteToGcs scan_type destination rows_with_metadata
                                       else WriteToBigquery scan_type destination
                                              incremental_load rows_with_metadata))))))))"

section \<open>Example inputs\<close>

text \<open>
  Concrete inputs on which the theorems below are instantiated. \<open>example_runner\<close> is a
  runner whose bucket listing and already-ingested sources are the given lists; its
  source identifier of a path is the directory that holds the file.
\<close>

definition example_source :: "string \<Rightarrow> string" where
  "example_source p = (case rev (split_on CHR ''/'' p) of _ # s # _ \<Rightarrow> s | _ \<Rightarrow> [])"

definition example_runner :: "(string \<times> nat) list \<Rightarrow> string list \<Rightarrow> runner" where
  "example_runner listing existing =
     \<lparr>project = ''firehook-censoredplanet'', bucket = ''gs://firehook-scans/'',
      gcs_match = (\<lambda>_. listing), get_existing_datasources = (\<lambda>_ _. existing),
      unicode_decimal = is_digit, SCAN_TYPE_SATELLITE = ''satellite'', SATELLITE_FILES = [''resolvers.json''],
      source_from_filename = example_source\<rparr>"

text \<open>
  A listing in which one object is to be selected and each of the others fails one
  condition only: the source is ingested already, the size is 33, the name is not an
  expected one, the date is before the window, the date is after the window.
\<close>

definition example_listing :: "(string \<times> nat) list" where
  "example_listing =
     [(''gs://firehook-scans/echo/CP_Quack-echo-2020-08-23-06-01-02/results.json'', 1000),
      (''gs://firehook-scans/echo/CP_Quack-echo-2020-08-22-06-08-03/results.json'', 2000),
      (''gs://firehook-scans/echo/CP_Quack-echo-2020-08-24-06-01-02/results.json.gz'', 33),
      (''gs://firehook-scans/echo/CP_Quack-echo-2020-08-23-06-01-02/resolvers.json'', 500),
      (''gs://firehook-scans/echo/CP_Quack-echo-2020-08-21-06-01-02/results.json'', 1000),
      (''gs://firehook-scans/echo/CP_Quack-echo-2020-08-25-06-01-02/results.json.gz'', 1000)]"

definition example_start :: date where
  "example_start = \<lparr>year = 2020, month = 8, day = 22\<rparr>"

definition example_end :: date where
  "example_end = \<lparr>year = 2020, month = 8, day = 24\<rparr>"

text \<open>
  Two listings with a path that has no date stamp and a path whose stamp is no calendar
  date, in either order.
\<close>

definition example_listing_bad_date :: "(string \<times> nat) list" where
  "example_listing_bad_date =
     [(''gs://firehook-scans/echo/CP_Quack-echo-2020-13-01-06-01-02/results.json'', 1000),
      (''gs://firehook-scans/echo/results.json'', 1000)]"

definition example_listing_no_date :: "(string \<times> nat) list" where
  "example_listing_no_date =
     [(''gs://firehook-scans/echo/CP_Quack-echo-2020-08-23-06-01-02/results.json'', 1000),
      (''gs://firehook-scans/echo/results.json'', 1000),
      (''gs://firehook-scans/echo/CP_Quack-echo-2020-13-01-06-01-02/results.json'', 1000)]"

text \<open>
  Rows for the join: two rows of one (date, ip) pair and a third row of another, a
  provider that knows one address, and a provider whose every lookup misses.
\<close>

definition example_row :: "string \<Rightarrow> string \<Rightarrow> string \<Rightarrow> bigquery_row" where
  "example_row d a nm =
     \<lparr>date = d, source = ''CP_Quack-echo-2020-08-23-06-01-02'', domain = nm, ip = a,
      measurement_id = ''81e2a76dafe04131bc38fc6ec7bbddca'', netblock = None, asn = None,
      as_name = None, as_full_name = None, as_type = None, country = None\<rparr>"

definition example_rows :: "bigquery_row list" where
  "example_rows =
     [example_row ''2020-08-23'' ''1.1.1.1'' ''a.com'',
      example_row ''2020-08-23'' ''1.1.1.1'' ''b.com'',
      example_row ''2020-08-24'' ''9.9.9.9'' ''a.com'']"

definition example_lookup :: "string \<Rightarrow> error + lookup_result" where
  "example_lookup a =
     (if a = ''1.1.1.1''
      then Inr (Some ''1.0.0.1/24'', 13335, Some ''CLOUDFLARENET'', None, None, Some ''AU'')
      else Inl KeyError)"

definition example_factory :: "metadata_record ip_metadata_chooser_factory" where
  "example_factory d = Inr (ip_metadata_chooser_of example_lookup)"

definition missing_factory :: "metadata_record ip_metadata_chooser_factory" where
  "missing_factory d = Inr (ip_metadata_chooser_of (\<lambda>a. Inl KeyError))"

text \<open>Rows with two addresses under one date and a third address under another.\<close>

definition example_rows_two_ips :: "bigquery_row list" where
  "example_rows_two_ips =
     [example_row ''2020-08-23'' ''1.1.1.1'' ''a.com'',
      example_row ''2020-08-23'' ''8.8.8.8'' ''a.com'',
      example_row ''2020-08-23'' ''1.1.1.1'' ''b.com'',
      example_row ''2020-08-24'' ''9.9.9.9'' ''a.com'']"

definition cloudflare_metadata :: metadata_record where
  "cloudflare_metadata =
     \<lparr>md_netblock = Some ''1.0.0.1/24'', md_asn = Some 13335, md_as_name = Some ''CLOUDFLARENET'',
      md_as_full_name = None, md_as_type = None, md_country = Some ''AU''\<rparr>"

text \<open>
  A flattener for the examples: a line parses when it is enclosed in braces, a line of
  1100 opening brackets is nested too deep, the n-th identifier drawn is a run of n + 1
  letters, and a probe-style record has two attempts.
\<close>

definition deeply_nested :: string where
  "deeply_nested = replicate 1100 CHR ''[''"

definition example_json_loads :: "string \<Rightarrow> string loaded" where
  "example_json_loads line =
     (if line = deeply_nested then Raised RecursionError
      else if line \<noteq> [] \<and> hd line = CHR ''{'' \<and> last line = CHR ''}'' then Parsed line
      else JSONDecodeError ''Expecting value: line 1 column 1 (char 0)'')"

definition example_uuid4_hex :: "nat \<Rightarrow> string" where
  "example_uuid4_hex n = replicate (Suc n) CHR ''a''"

definition example_attempts :: "string \<Rightarrow> string \<Rightarrow> bigquery_row list" where
  "example_attempts filepath scan =
     [example_row ''2020-08-23'' ''1.1.1.1'' ''a.com'', example_row ''2020-08-23'' ''1.1.1.1'' ''a.com'']"

definition example_flatten_base :: "(string, bigquery_row) flatten_measurement" where
  "example_flatten_base =
     \<lparr>json_loads = example_json_loads, uuid4_hex = example_uuid4_hex,
      SATELLITE_PATH_COMPONENT = ''Satellite-'',
      process_satellite = (\<lambda>_ _ _. Inr []), process_hyperquack = (\<lambda>_ _ _. Inr [])\<rparr>"

definition example_flatten :: "(string, bigquery_row) flatten_measurement" where
  "example_flatten = with_spec_extractors example_flatten_base (\<lambda>_ _. []) example_attempts"

definition initial_state :: worker_state where
  "initial_state = \<lparr>log = [], uuid_draws = 0\<rparr>"

definition example_file :: string where
  "example_file = ''gs://firehook-scans/echo/CP_Quack-echo-2020-08-23-06-01-02/results.json''"

text \<open>
  Maxmind readers for the examples: one address with ASN data and no city entry, one
  address whose ASN entry carries the number 0.
\<close>

definition example_maxmind :: maxmind_ip_metadata where
  "example_maxmind =
     \<lparr>maxmind_city = (\<lambda>a. Inl (AddressNotFoundError ''The address is not in the database.'')),
      maxmind_asn = (\<lambda>a.
        if a = ''1.1.1.1''
        then Inr \<lparr>autonomous_system_number = Some 13335,
                  autonomous_system_organization = Some ''CLOUDFLARENET'',
                  network = Some ''1.1.1.0/24''\<rparr>
        else if a = ''192.0.2.1''
        then Inr \<lparr>autonomous_system_number = Some 0,
                  autonomous_system_organization = None, network = Some ''192.0.2.0/24''\<rparr>
        else Inl (AddressNotFoundError ''The address is not in the database.''))\<rparr>"

text \<open>
  A run whose one selected file holds a single line that does not parse.
\<close>

definition example_pipeline_runner :: "(string, bigquery_row, metadata_record) pipeline_runner" where
  "example_pipeline_runner =
     \<lparr>project = ''firehook-censoredplanet'', bucket = ''gs://firehook-scans/'',
      gcs_match = (\<lambda>_. [(example_file, 1000)]), get_existing_datasources = (\<lambda>_ _. []),
      unicode_decimal = is_digit, SCAN_TYPE_SATELLITE = ''satellite'', SATELLITE_FILES = [''resolvers.json''],
      source_from_filename = example_source,
      metadata_chooser_factory = example_factory,
      read_scan_text = map (\<lambda>f. (f, ''not json'')),
      flatten = example_flatten,
      process_satellite_lines = (\<lambda>_. Inr []),
      date_ip_key_of = make_date_ip_key,
      merge_with_rows = merge_metadata_with_rows\<rparr>"

section \<open>Facts about strings\<close>

lemma contains_here: "contains pat (pat @ rest)"
proof (cases "pat @ rest")
  case Nil
  then show ?thesis by simp
next
  case (Cons c cs)
  have "startswith (pat @ rest) pat" by (simp add: startswith_def)
  then show ?thesis unfolding Cons by simp
qed

lemma contains_later: "contains pat s \<Longrightarrow> contains pat (a @ s)"
proof (induction a)
  case Nil
  then show ?case by simp
next
  case (Cons c a)
  then show ?case by simp
qed

lemma contains_mid: "contains pat (a @ pat @ b)"
  by (rule contains_later) (rule contains_here)

lemma contains_iff: "contains pat s \<longleftrightarrow> (\<exists>a b. s = a @ pat @ b)"
proof
  show "contains pat s \<Longrightarrow> \<exists>a b. s = a @ pat @ b"
  proof (induction s)
    case Nil
    then show ?case by simp
  next
    case (Cons c cs)
    show ?case
    proof (cases "startswith (c # cs) pat")
      case True
      then have "c # cs = [] @ pat @ drop (length pat) (c # cs)"
        unfolding startswith_def by (metis append_Nil append_take_drop_id)
      then show ?thesis by blast
    next
      case False
      with Cons.prems have "contains pat cs" by simp
      from Cons.IH[OF this] obtain a b where "cs = a @ pat @ b" by blast
      then have "c # cs = (c # a) @ pat @ b" by simp
      then show ?thesis by blast
    qed
  qed
next
  assume "\<exists>a b. s = a @ pat @ b"
  then show "contains pat s" using contains_mid by blast
qed

lemma rfind_dot_None: "rfind_dot s = None \<longleftrightarrow> CHR ''.'' \<notin> set s"
  by (induction s) (auto split: option.splits)

lemma rfind_dot_Some:
  "rfind_dot s = Some i \<Longrightarrow> \<exists>pre t. s = pre @ CHR ''.'' # t \<and> length pre = i \<and> CHR ''.'' \<notin> set t"
proof (induction s arbitrary: i)
  case Nil
  then show ?case by simp
next
  case (Cons c cs)
  show ?case
  proof (cases "rfind_dot cs")
    case None
    with Cons.prems have "c = CHR ''.''" "i = 0" by (auto split: if_splits)
    moreover from None have "CHR ''.'' \<notin> set cs" by (simp add: rfind_dot_None)
    ultimately have "c # cs = [] @ CHR ''.'' # cs \<and> length ([]::string) = i \<and> CHR ''.'' \<notin> set cs"
      by simp
    then show ?thesis by blast
  next
    case (Some j)
    with Cons.prems have i: "i = Suc j" by simp
    from Cons.IH[OF Some] obtain pre t where "cs = pre @ CHR ''.'' # t" "length pre = j"
      "CHR ''.'' \<notin> set t" by blast
    then have "c # cs = (c # pre) @ CHR ''.'' # t \<and> length (c # pre) = i \<and> CHR ''.'' \<notin> set t"
      using i by simp
    then show ?thesis by blast
  qed
qed

lemma rfind_dot_append:
  "CHR ''.'' \<notin> set t \<Longrightarrow> rfind_dot (pre @ CHR ''.'' # t) = Some (length pre)"
proof (induction pre)
  case Nil
  then have "rfind_dot t = None" by (simp add: rfind_dot_None)
  then show ?case by simp
next
  case (Cons c pre)
  then show ?case by simp
qed

lemma split_on_nonempty: "split_on sep s \<noteq> []"
  by (induction s) (auto split: list.splits)

lemma split_on_dotless: "sep \<notin> set t \<Longrightarrow> split_on sep t = [t]"
  by (induction t) auto

lemma split_on_append: "split_on sep (q @ sep # t) = split_on sep q @ split_on sep t"
proof (induction q)
  case Nil
  then show ?case by simp
next
  case (Cons c q)
  obtain w ws where w: "split_on sep q = w # ws"
    using split_on_nonempty[of sep q] by (cases "split_on sep q") auto
  with Cons show ?case by simp
qed

lemma split_on_hd:
  "\<exists>rest. q = hd (split_on sep q) @ rest \<and> (rest = [] \<or> hd rest = sep)"
proof (induction q)
  case Nil
  then show ?case by simp
next
  case (Cons c q)
  obtain w ws where w: "split_on sep q = w # ws"
    using split_on_nonempty[of sep q] by (cases "split_on sep q") auto
  from Cons obtain rest where rest: "q = w @ rest" "rest = [] \<or> hd rest = sep"
    using w by auto
  show ?case
  proof (cases "c = sep")
    case True
    then have "c # q = hd (split_on sep (c # q)) @ (c # q) \<and> ((c # q) = [] \<or> hd (c # q) = sep)"
      by simp
    then show ?thesis by blast
  next
    case False
    then have "c # q = hd (split_on sep (c # q)) @ rest" using w rest(1) by simp
    with rest(2) show ?thesis by blast
  qed
qed

lemma split_on_tl_member:
  "x \<in> set (tl (split_on sep q)) \<Longrightarrow>
     \<exists>a b. q = a @ sep # x @ b \<and> (b = [] \<or> hd b = sep)"
proof (induction q)
  case Nil
  then show ?case by simp
next
  case (Cons c q)
  obtain w ws where w: "split_on sep q = w # ws"
    using split_on_nonempty[of sep q] by (cases "split_on sep q") auto
  show ?case
  proof (cases "c = sep")
    case True
    with Cons.prems w have "x = w \<or> x \<in> set ws" by simp
    then show ?thesis
    proof
      assume "x = w"
      with split_on_hd[of q sep] w obtain rest where "q = x @ rest" "rest = [] \<or> hd rest = sep"
        by auto
      then have "c # q = [] @ sep # x @ rest \<and> (rest = [] \<or> hd rest = sep)" using True by simp
      then show ?thesis by blast
    next
      assume "x \<in> set ws"
      then have "x \<in> set (tl (split_on sep q))" by (simp add: w)
      from Cons.IH[OF this] obtain a b where "q = a @ sep # x @ b" "b = [] \<or> hd b = sep" by blast
      then have "c # q = (c # a) @ sep # x @ b \<and> (b = [] \<or> hd b = sep)" by simp
      then show ?thesis by blast
    qed
  next
    case False
    with Cons.prems w have "x \<in> set (tl (split_on sep q))" by simp
    from Cons.IH[OF this] obtain a b where "q = a @ sep # x @ b" "b = [] \<or> hd b = sep" by blast
    then have "c # q = (c # a) @ sep # x @ b \<and> (b = [] \<or> hd b = sep)" by simp
    then show ?thesis by blast
  qed
qed

section \<open>Properties of the source selector\<close>

subsection \<open>Date stamps\<close>

lemma date_pattern_at_stamp: "date_pattern_at dec s \<longleftrightarrow> stamp_at dec s 0"
  by (induction dec s rule: date_pattern_at.induct) (auto simp: stamp_at_def)

lemma stamp_at_Cons: "stamp_at dec (c # cs) (Suc i) = stamp_at dec cs i"
  by (simp add: stamp_at_def add.commute)

lemma stamp_at_bound: "stamp_at dec p i \<Longrightarrow> i < length p"
  by (simp add: stamp_at_def)

lemma stamp_at_Nil: "\<not> stamp_at dec [] i"
  by (simp add: stamp_at_def)

lemma stamp_at_drop: "stamp_at dec (drop k p) i = stamp_at dec p (k + i)"
  by (auto simp: stamp_at_def add.assoc)

lemma findall_dates_empty: "findall_dates dec s = [] \<longleftrightarrow> \<not> has_date_stamp dec s"
  by (induction dec s rule: findall_dates.induct) auto

lemma has_date_stamp_iff: "has_date_stamp dec s \<longleftrightarrow> (\<exists>i. stamp_at dec s i)"
proof (induction s)
  case Nil
  show ?case by (simp add: stamp_at_Nil)
next
  case (Cons c cs)
  have "(\<exists>i. stamp_at dec (c # cs) i) \<longleftrightarrow> stamp_at dec (c # cs) 0 \<or> (\<exists>i. stamp_at dec (c # cs) (Suc i))"
    by (metis not0_implies_Suc)
  with Cons show ?case by (simp add: date_pattern_at_stamp stamp_at_Cons)
qed

lemma first_stamp_iff:
  "first_stamp dec p i \<longleftrightarrow> stamp_at dec p i \<and> (\<forall>j<i. \<not> stamp_at dec p j)"
  by (auto simp: first_stamp_def list_all_iff)

lemma first_stamp_unique: "first_stamp dec p i \<Longrightarrow> first_stamp dec p j \<Longrightarrow> i = j"
  unfolding first_stamp_iff by (meson linorder_neqE_nat)

lemma first_stamp_Cons:
  "first_stamp dec (c # cs) i \<longleftrightarrow>
     (if stamp_at dec (c # cs) 0 then i = 0 else \<exists>k. i = Suc k \<and> first_stamp dec cs k)"
proof (cases i)
  case 0
  then show ?thesis by (auto simp: first_stamp_iff)
next
  case (Suc k)
  have "(\<forall>j<Suc k. \<not> stamp_at dec (c # cs) j) \<longleftrightarrow>
      \<not> stamp_at dec (c # cs) 0 \<and> (\<forall>j<k. \<not> stamp_at dec (c # cs) (Suc j))"
    by (metis Suc_less_eq less_Suc_eq_0_disj)
  then show ?thesis unfolding Suc first_stamp_iff by (auto simp: stamp_at_Cons)
qed

lemma findall_dates_first:
  "findall_dates dec s = m # ms \<Longrightarrow> \<exists>i. first_stamp dec s i \<and> m = take 10 (drop i s)"
proof (induction s)
  case Nil
  then show ?case by simp
next
  case (Cons c cs)
  show ?case
  proof (cases "date_pattern_at dec (c # cs)")
    case True
    with Cons.prems have "m = take 10 (drop 0 (c # cs))" by simp
    moreover from True have "first_stamp dec (c # cs) 0"
      by (simp add: first_stamp_Cons date_pattern_at_stamp)
    ultimately show ?thesis by blast
  next
    case False
    with Cons obtain k where "first_stamp dec cs k" "m = take 10 (drop k cs)" by auto
    with False have "first_stamp dec (c # cs) (Suc k) \<and> m = take 10 (drop (Suc k) (c # cs))"
      by (simp add: first_stamp_Cons date_pattern_at_stamp)
    then show ?thesis by blast
  qed
qed

lemma no_stamp_iff: "no_stamp dec p \<longleftrightarrow> (\<forall>i. \<not> stamp_at dec p i)"
  using stamp_at_bound[of dec p] by (auto simp: no_stamp_def list_all_iff)

lemma findall_dates_no_stamp: "findall_dates dec p = [] \<longleftrightarrow> no_stamp dec p"
  by (simp add: findall_dates_empty has_date_stamp_iff no_stamp_iff)

lemma bad_stamp_iff:
  "bad_stamp dec p \<longleftrightarrow>
     (\<exists>i. first_stamp dec p i \<and> \<not> (stamp_at is_digit p i \<and> calendar_date (stamp_date p i)))"
proof -
  have "first_stamp dec p i \<Longrightarrow> i < length p" for i
    using stamp_at_bound[of dec p i] by (simp add: first_stamp_iff)
  then show ?thesis by (auto simp: bad_stamp_def list_ex_iff)
qed

lemma stamp_head:
  assumes "i + 10 \<le> length p"
  shows "stamp_at dec (take 10 (drop i p)) 0 = stamp_at dec p i"
    and "stamp_date (take 10 (drop i p)) 0 = stamp_date p i"
  using assms by (simp_all add: stamp_at_def stamp_date_def digit_at_def add.commute)

lemma length_ten:
  "length s = 10 \<Longrightarrow> \<exists>a b c d e f g h i j. s = [a, b, c, d, e, f, g, h, i, j]"
  by (auto simp: eval_nat_numeral length_Suc_conv)

lemma digit_at_bound: "is_digit (p ! i) \<Longrightarrow> digit_at p i \<le> 9"
  by (auto simp: is_digit_def digit_at_def)

lemma stamp_year_bound:
  assumes "stamp_at is_digit p i"
  shows "fst (stamp_date p i) \<le> 9999"
proof -
  from assms have "is_digit (p ! i)" "is_digit (p ! (i + 1))" "is_digit (p ! (i + 2))"
    "is_digit (p ! (i + 3))" by (simp_all add: stamp_at_def)
  from this[THEN digit_at_bound] show ?thesis by (simp add: stamp_date_def)
qed

lemma fromisoformat_stamp:
  "fromisoformat s =
     (if length s = 10 \<and> stamp_at is_digit s 0 \<and> calendar_date (stamp_date s 0)
      then Inr \<lparr>year = fst (stamp_date s 0), month = fst (snd (stamp_date s 0)),
                day = snd (snd (stamp_date s 0))\<rparr>
      else Inl ValueError)"
proof (cases "length s = 10 \<and> stamp_at is_digit s 0")
  case False
  then show ?thesis by (auto simp: fromisoformat_def date_pattern_at_stamp)
next
  case True
  then have "length s = 10" by simp
  from length_ten[OF this] obtain a b c d e f g h i j where s: "s = [a, b, c, d, e, f, g, h, i, j]"
    by blast
  have v: "digits_val 0 (take 4 s) = fst (stamp_date s 0)"
    "digits_val 0 (take 2 (drop 5 s)) = fst (snd (stamp_date s 0))"
    "digits_val 0 (take 2 (drop 8 s)) = snd (snd (stamp_date s 0))"
    unfolding s by (simp_all add: stamp_date_def digit_at_def digit_val_def)
  from True have "fst (stamp_date s 0) \<le> 9999" by (simp add: stamp_year_bound)
  then have c: "calendar_date (stamp_date s 0) \<longleftrightarrow>
      1 \<le> fst (stamp_date s 0) \<and> 1 \<le> fst (snd (stamp_date s 0)) \<and> fst (snd (stamp_date s 0)) \<le> 12 \<and>
      1 \<le> snd (snd (stamp_date s 0)) \<and>
      snd (snd (stamp_date s 0)) \<le> days_in_month (fst (stamp_date s 0)) (fst (snd (stamp_date s 0)))"
    by (auto simp: calendar_date_def days_in_month_def is_leap_def split: prod.splits)
  from True show ?thesis
    unfolding fromisoformat_def Let_def v c by (simp add: date_pattern_at_stamp)
qed

lemma filename_date_first:
  assumes "first_stamp dec p i"
  shows "filename_date dec p =
     (if stamp_at is_digit p i \<and> calendar_date (stamp_date p i)
      then Inr \<lparr>year = fst (stamp_date p i), month = fst (snd (stamp_date p i)),
                day = snd (snd (stamp_date p i))\<rparr>
      else Inl ValueError)"
proof -
  from assms have st: "stamp_at dec p i" by (simp add: first_stamp_iff)
  then have len: "i + 10 \<le> length p" by (simp add: stamp_at_def)
  from st have "\<not> no_stamp dec p" by (auto simp: no_stamp_iff)
  then obtain m ms where f: "findall_dates dec p = m # ms"
    by (cases "findall_dates dec p") (simp_all add: findall_dates_no_stamp)
  from findall_dates_first[OF f] obtain k where k: "first_stamp dec p k" "m = take 10 (drop k p)"
    by blast
  from first_stamp_unique[OF k(1) assms] k(2) have m: "m = take 10 (drop i p)" by simp
  from len have l: "length m = 10" unfolding m by simp
  show ?thesis
    unfolding filename_date_def f list.case fromisoformat_stamp[of m]
    unfolding m stamp_head[OF len] using l[unfolded m] by simp
qed

lemma filename_date_IndexError: "filename_date dec p = Inl IndexError \<longleftrightarrow> no_stamp dec p"
  by (auto simp: filename_date_def fromisoformat_def Let_def findall_dates_no_stamp[symmetric]
      split: list.splits)

lemma stamped_first: "\<not> no_stamp dec p \<Longrightarrow> \<exists>i. first_stamp dec p i"
proof -
  assume "\<not> no_stamp dec p"
  then obtain m ms where "findall_dates dec p = m # ms"
    by (cases "findall_dates dec p") (simp_all add: findall_dates_no_stamp)
  from findall_dates_first[OF this] show ?thesis by blast
qed

lemma first_stamp_stamped: "first_stamp dec p i \<Longrightarrow> \<not> no_stamp dec p"
  by (auto simp: first_stamp_iff no_stamp_iff)

lemma filename_date_ValueError: "filename_date dec p = Inl ValueError \<longleftrightarrow> bad_stamp dec p"
proof (cases "no_stamp dec p")
  case True
  then have "filename_date dec p = Inl IndexError" by (simp add: filename_date_IndexError)
  moreover from True have "\<not> bad_stamp dec p"
    unfolding bad_stamp_iff using first_stamp_stamped by blast
  ultimately show ?thesis by simp
next
  case False
  from stamped_first[OF this] obtain i where i: "first_stamp dec p i" by blast
  have "bad_stamp dec p \<longleftrightarrow> \<not> (stamp_at is_digit p i \<and> calendar_date (stamp_date p i))"
    unfolding bad_stamp_iff using i first_stamp_unique[OF i] by blast
  then show ?thesis by (simp add: filename_date_first[OF i])
qed

lemma filename_date_Inr:
  "filename_date dec p = Inr d \<longleftrightarrow>
     (\<exists>i. first_stamp dec p i \<and> stamp_at is_digit p i \<and> calendar_date (stamp_date p i) \<and>
          ymd d = stamp_date p i)"
proof (cases "no_stamp dec p")
  case True
  then have "filename_date dec p = Inl IndexError" by (simp add: filename_date_IndexError)
  moreover from True have "\<not> (\<exists>i. first_stamp dec p i)" using first_stamp_stamped by blast
  ultimately show ?thesis by auto
next
  case False
  from stamped_first[OF this] obtain i where i: "first_stamp dec p i" by blast
  have u: "(\<exists>k. first_stamp dec p k \<and> P k) \<longleftrightarrow> P i" for P
    using i first_stamp_unique[OF i] by blast
  have e: "\<lparr>year = fst t, month = fst (snd t), day = snd (snd t)\<rparr> = d \<longleftrightarrow> ymd d = t" for t
    by (cases d) (auto simp: ymd_def)
  show ?thesis unfolding u filename_date_first[OF i] by (auto simp: e)
qed

lemma filename_date_error: "filename_date dec p = Inl err \<Longrightarrow> err = IndexError \<or> err = ValueError"
  by (auto simp: filename_date_def fromisoformat_def Let_def split: list.splits if_splits)

lemma date_le_on_or_before: "date_le a b = on_or_before (ymd a) (ymd b)"
  by (simp add: date_le_def on_or_before_def ymd_def)

lemma in_window_within: "in_window s e d = within s e (ymd d)"
  by (simp add: in_window_def within_def date_le_on_or_before split: option.splits)

lemma between_dates_Inr:
  "between_dates dec p s e = Inr b \<longleftrightarrow> (\<exists>d. filename_date dec p = Inr d \<and> b = in_window s e d)"
  by (auto simp: between_dates_def in_window_def split: sum.splits option.splits)

lemma between_dates_Inl:
  "between_dates dec p s e = Inl err \<longleftrightarrow> filename_date dec p = Inl err"
  by (auto simp: between_dates_def split: sum.splits option.splits)

lemma between_dates_first:
  "between_dates dec p s e = Inr b \<longleftrightarrow>
     (\<exists>i. first_stamp dec p i \<and> stamp_at is_digit p i \<and> calendar_date (stamp_date p i) \<and>
          b = within s e (stamp_date p i))"
  unfolding between_dates_Inr filename_date_Inr in_window_within
proof
  assume "\<exists>d. (\<exists>i. first_stamp dec p i \<and> stamp_at is_digit p i \<and> calendar_date (stamp_date p i) \<and>
      ymd d = stamp_date p i) \<and> b = within s e (ymd d)"
  then show "\<exists>i. first_stamp dec p i \<and> stamp_at is_digit p i \<and> calendar_date (stamp_date p i) \<and>
          b = within s e (stamp_date p i)" by auto
next
  assume "\<exists>i. first_stamp dec p i \<and> stamp_at is_digit p i \<and> calendar_date (stamp_date p i) \<and>
          b = within s e (stamp_date p i)"
  then obtain i where i: "first_stamp dec p i" "stamp_at is_digit p i"
    "calendar_date (stamp_date p i)" "b = within s e (stamp_date p i)" by blast
  let ?d = "\<lparr>year = fst (stamp_date p i), month = fst (snd (stamp_date p i)),
      day = snd (snd (stamp_date p i))\<rparr>"
  have "ymd ?d = stamp_date p i" by (simp add: ymd_def)
  with i show "\<exists>d. (\<exists>i. first_stamp dec p i \<and> stamp_at is_digit p i \<and>
      calendar_date (stamp_date p i) \<and> ymd d = stamp_date p i) \<and> b = within s e (ymd d)"
    by metis
qed

subsection \<open>The list comprehension\<close>

lemma filter_paths_Inr:
  "filter_paths cond entries = Inr fs \<Longrightarrow>
     (\<forall>en \<in> set entries. \<exists>b. cond en = Inr b) \<and>
     fs = map fst (filter (\<lambda>en. cond en = Inr True) entries)"
  by (induction entries arbitrary: fs) (auto split: sum.splits if_splits)

lemma filter_paths_total:
  "(\<forall>en \<in> set entries. \<exists>b. cond en = Inr b) \<Longrightarrow> \<exists>fs. filter_paths cond entries = Inr fs"
  by (induction entries) (auto split: sum.splits)

lemma filter_paths_Inl:
  "filter_paths cond entries = Inl err \<Longrightarrow> \<exists>en \<in> set entries. cond en = Inl err"
  by (induction entries) (auto split: sum.splits)

lemma filter_paths_raises:
  "en \<in> set entries \<Longrightarrow> cond en = Inl err \<Longrightarrow> \<exists>err'. filter_paths cond entries = Inl err'"
  by (induction entries) (auto split: sum.splits)

lemma filter_paths_append_ok:
  "\<forall>en \<in> set b1. \<exists>b. cond en = Inr b \<Longrightarrow> cond en = Inl err \<Longrightarrow>
     filter_paths cond (b1 @ en # b2) = Inl err"
  by (induction b1) (auto split: sum.splits)

lemma filter_paths_first:
  "filter_paths cond entries = Inl err \<Longrightarrow>
     \<exists>b1 en b2. entries = b1 @ en # b2 \<and> cond en = Inl err \<and> (\<forall>x \<in> set b1. \<exists>b. cond x = Inr b)"
proof (induction entries)
  case Nil
  then show ?case by simp
next
  case (Cons a rest)
  show ?case
  proof (cases "cond a")
    case (Inl e)
    with Cons.prems have "a # rest = [] @ a # rest \<and> cond a = Inl err \<and>
        (\<forall>x \<in> set []. \<exists>b. cond x = Inr b)" by simp
    then show ?thesis by blast
  next
    case (Inr b)
    with Cons.prems have "filter_paths cond rest = Inl err" by (simp split: sum.splits)
    from Cons.IH[OF this] obtain b1 en b2 where
      r: "rest = b1 @ en # b2" "cond en = Inl err" "\<forall>x \<in> set b1. \<exists>b. cond x = Inr b" by blast
    with Inr have "a # rest = (a # b1) @ en # b2 \<and> cond en = Inl err \<and>
        (\<forall>x \<in> set (a # b1). \<exists>b. cond x = Inr b)" by simp
    then show ?thesis by blast
  qed
qed

lemma selected_Inl:
  "selected self fs ex s e (p, sz) = Inl err \<longleftrightarrow> filename_date (unicode_decimal self) p = Inl err"
proof -
  have "selected self fs ex s e (p, sz) = Inl err
      \<longleftrightarrow> between_dates (unicode_decimal self) p s e = Inl err"
    by (simp add: selected_def split: sum.splits)
  then show ?thesis by (simp add: between_dates_Inl)
qed

lemma selected_Inr:
  "(\<exists>b. selected self fs ex s e entry = Inr b)
     \<longleftrightarrow> (\<exists>d. filename_date (unicode_decimal self) (fst entry) = Inr d)"
proof -
  obtain p sz where entry: "entry = (p, sz)" by (cases entry)
  show ?thesis
  proof (cases "filename_date (unicode_decimal self) p")
    case (Inl err)
    then have "selected self fs ex s e (p, sz) = Inl err" by (simp add: selected_Inl)
    with Inl entry show ?thesis by simp
  next
    case (Inr d)
    then have "between_dates (unicode_decimal self) p s e = Inr (in_window s e d)"
      by (simp add: between_dates_Inr)
    then have "\<exists>b. selected self fs ex s e (p, sz) = Inr b" by (simp add: selected_def)
    with Inr entry show ?thesis by simp
  qed
qed

lemma selected_ok:
  "(\<exists>b. selected self fs ex s e entry = Inr b)
     \<longleftrightarrow> \<not> no_stamp (unicode_decimal self) (fst entry) \<and> \<not> bad_stamp (unicode_decimal self) (fst entry)"
proof -
  let ?f = "filename_date (unicode_decimal self) (fst entry)"
  have "(\<exists>d. ?f = Inr d) \<longleftrightarrow> ?f \<noteq> Inl IndexError \<and> ?f \<noteq> Inl ValueError"
    using filename_date_error[of "unicode_decimal self" "fst entry"] by (cases ?f) auto
  then show ?thesis
    unfolding selected_Inr by (simp add: filename_date_IndexError filename_date_ValueError)
qed

lemma data_to_load_returns_iff:
  "(\<exists>files. data_to_load self scan_type incremental_load destination start_date end_date = Inr files)
     \<longleftrightarrow> (\<forall>entry \<in> set (gcs_match self (bucket self @ scan_type @ ''/**/*'')).
            \<not> no_stamp (unicode_decimal self) (fst entry) \<and>
            \<not> bad_stamp (unicode_decimal self) (fst entry))"
proof -
  let ?cond = "selected self (files_to_load_of self scan_type)
      (existing_sources_of self incremental_load destination) start_date end_date"
  let ?md = "gcs_match self (bucket self @ scan_type @ ''/**/*'')"
  have run: "data_to_load self scan_type incremental_load destination start_date end_date
      = filter_paths ?cond ?md" by (simp add: data_to_load_def Let_def)
  have "(\<exists>files. filter_paths ?cond ?md = Inr files) \<longleftrightarrow> (\<forall>entry \<in> set ?md. \<exists>b. ?cond entry = Inr b)"
    using filter_paths_Inr[of ?cond ?md] filter_paths_total[of ?md ?cond] by blast
  then show ?thesis unfolding run selected_ok .
qed

lemma selected_True:
  "selected self fs ex s e (p, sz) = Inr True \<longleftrightarrow>
     (\<exists>i. first_stamp (unicode_decimal self) p i \<and> stamp_at is_digit p i \<and>
          calendar_date (stamp_date p i) \<and> within s e (stamp_date p i)) \<and>
     filename_matches p fs \<and> source_from_filename self p \<notin> set ex \<and> \<not> sz \<le> 33"
proof (cases "between_dates (unicode_decimal self) p s e")
  case (Inl err)
  then have "\<not> (\<exists>i. first_stamp (unicode_decimal self) p i \<and> stamp_at is_digit p i \<and>
          calendar_date (stamp_date p i) \<and> within s e (stamp_date p i))"
    using between_dates_first[of "unicode_decimal self" p s e] by (metis sum.distinct(1))
  with Inl show ?thesis by (simp add: selected_def)
next
  case (Inr b)
  then obtain i where i: "first_stamp (unicode_decimal self) p i" "stamp_at is_digit p i"
    "calendar_date (stamp_date p i)" "b = within s e (stamp_date p i)"
    unfolding between_dates_first by blast
  have "(\<exists>k. first_stamp (unicode_decimal self) p k \<and> stamp_at is_digit p k \<and>
          calendar_date (stamp_date p k) \<and> within s e (stamp_date p k)) \<longleftrightarrow> b"
    using i first_stamp_unique[OF i(1)] by blast
  with Inr show ?thesis by (auto simp: selected_def EMPTY_GZIPPED_FILE_SIZE_def)
qed

lemma data_to_load_Inr:
  assumes "data_to_load self scan_type incremental_load destination start_date end_date = Inr files"
  shows "filepath \<in> set files \<longleftrightarrow>
     (\<exists>file_size i.
        (filepath, file_size) \<in> set (gcs_match self (bucket self @ scan_type @ ''/**/*'')) \<and>
        first_stamp (unicode_decimal self) filepath i \<and>
        within start_date end_date (stamp_date filepath i) \<and>
        filename_matches filepath (files_to_load_of self scan_type) \<and>
        source_from_filename self filepath
          \<notin> set (existing_sources_of self incremental_load destination) \<and>
        \<not> file_size \<le> 33)"
proof -
  let ?dec = "unicode_decimal self"
  let ?cond = "selected self (files_to_load_of self scan_type)
      (existing_sources_of self incremental_load destination) start_date end_date"
  let ?md = "gcs_match self (bucket self @ scan_type @ ''/**/*'')"
  from assms have fp: "filter_paths ?cond ?md = Inr files"
    by (simp add: data_to_load_def Let_def)
  from filter_paths_Inr[OF fp] have files: "files = map fst (filter (\<lambda>en. ?cond en = Inr True) ?md)"
    and ok: "\<forall>en \<in> set ?md. \<exists>b. ?cond en = Inr b" by simp_all
  have valid: "stamp_at is_digit p i \<and> calendar_date (stamp_date p i)"
    if "(p, sz) \<in> set ?md" "first_stamp ?dec p i" for p sz i
  proof -
    from ok that(1) have "\<not> bad_stamp ?dec (fst (p, sz))" unfolding selected_ok by blast
    with that(2) show ?thesis unfolding bad_stamp_iff by auto
  qed
  have cond: "(p, sz) \<in> set ?md \<and> ?cond (p, sz) = Inr True \<longleftrightarrow>
      (p, sz) \<in> set ?md \<and>
      (\<exists>i. first_stamp ?dec p i \<and> within start_date end_date (stamp_date p i) \<and>
        filename_matches p (files_to_load_of self scan_type) \<and>
        source_from_filename self p \<notin> set (existing_sources_of self incremental_load destination) \<and>
        \<not> sz \<le> 33)" for p sz
    unfolding selected_True using valid[of p sz] by blast
  have "filepath \<in> set files \<longleftrightarrow> (\<exists>sz. (filepath, sz) \<in> set ?md \<and> ?cond (filepath, sz) = Inr True)"
    unfolding files by (auto simp: image_iff)
  also have "\<dots> \<longleftrightarrow> (\<exists>sz. (filepath, sz) \<in> set ?md \<and>
      (\<exists>i. first_stamp ?dec filepath i \<and> within start_date end_date (stamp_date filepath i) \<and>
        filename_matches filepath (files_to_load_of self scan_type) \<and>
        source_from_filename self filepath
          \<notin> set (existing_sources_of self incremental_load destination) \<and>
        \<not> sz \<le> 33))"
    unfolding cond ..
  finally show ?thesis by blast
qed

subsection \<open>The file-name test\<close>

lemma endswith_iff: "endswith s suf \<longleftrightarrow> (\<exists>pre. s = pre @ suf)"
proof
  assume "endswith s suf"
  then have "s = take (length s - length suf) s @ suf"
    unfolding endswith_def by (metis append_take_drop_id)
  then show "\<exists>pre. s = pre @ suf" ..
next
  assume "\<exists>pre. s = pre @ suf"
  then show "endswith s suf" by (auto simp: endswith_def)
qed

lemma strip_compression_suffix_gz [simp]: "strip_compression_suffix (pre @ ''.gz'') = pre"
  using endswith_iff[of "pre @ ''.gz''" "''.gz''"]
  by (simp add: strip_compression_suffix_def)

lemma suffixes_gz:
  "''.gz'' \<in> set (path_suffixes name) \<longleftrightarrow>
     \<not> (name \<noteq> [] \<and> last name = CHR ''.'') \<and>
     ''gz'' \<in> set (tl (split_on CHR ''.'' (dropWhile (\<lambda>c. c = CHR ''.'') name)))"
  by (auto simp: path_suffixes_def)

lemma suffixes_gz_contains:
  assumes "''.gz'' \<in> set (path_suffixes name)"
  shows "\<exists>u b. name = u @ ''.gz'' @ b \<and> (b = [] \<or> hd b = CHR ''.'')"
proof -
  let ?dots = "takeWhile (\<lambda>c. c = CHR ''.'') name"
  let ?rest = "dropWhile (\<lambda>c. c = CHR ''.'') name"
  from assms have "''gz'' \<in> set (tl (split_on CHR ''.'' ?rest))" by (simp add: suffixes_gz)
  from split_on_tl_member[OF this] obtain a b where
    ab: "?rest = a @ CHR ''.'' # ''gz'' @ b" "b = [] \<or> hd b = CHR ''.''" by blast
  have "name = ?dots @ ?rest" by simp
  with ab(1) have "name = (?dots @ a) @ ''.gz'' @ b" by simp
  with ab(2) show ?thesis by blast
qed

lemma stem_of_gz:
  assumes "''.gz'' \<in> set (path_suffixes (pre @ ''.gz''))"
  shows "path_stem (pre @ ''.gz'') = pre"
proof -
  have r: "rfind_dot (pre @ ''.gz'') = Some (length pre)"
    using rfind_dot_append[of "''gz''" pre] by simp
  have "pre \<noteq> []"
  proof
    assume "pre = []"
    with assms show False by (simp add: path_suffixes_def)
  qed
  then show ?thesis by (simp add: path_stem_def r)
qed

lemma stem_keeps_gz:
  assumes "''.gz'' \<in> set (path_suffixes name)" and "\<not> endswith name ''.gz''"
  shows "contains ''.gz'' (path_stem name)"
proof -
  from suffixes_gz_contains[OF assms(1)] obtain u b where
    name: "name = u @ ''.gz'' @ b" and b: "b = [] \<or> hd b = CHR ''.''" by blast
  have whole: "contains ''.gz'' name" unfolding contains_iff using name by blast
  have "b \<noteq> []"
  proof
    assume "b = []"
    with name have "name = u @ ''.gz''" by simp
    with assms(2) show False by (auto simp: endswith_iff)
  qed
  with b obtain b' where b': "b = CHR ''.'' # b'" by (cases b) auto
  show ?thesis
  proof (cases "rfind_dot name")
    case None
    with whole show ?thesis by (simp add: path_stem_def)
  next
    case (Some i)
    from rfind_dot_Some[OF Some] obtain pre t where
      pt: "name = pre @ CHR ''.'' # t" "length pre = i" "CHR ''.'' \<notin> set t" by blast
    show ?thesis
    proof (cases "0 < i \<and> i + 1 < length name")
      case False
      with Some have "path_stem name = name" by (auto simp: path_stem_def)
      with whole show ?thesis by simp
    next
      case True
      with Some pt(2) have stem: "path_stem name = take (length pre) name" by (simp add: path_stem_def)
      with pt(1) have stem': "path_stem name = pre" by simp
      let ?v = "u @ ''.gz''"
      from name b' pt(1) have eq: "pre @ CHR ''.'' # t = ?v @ CHR ''.'' # b'" by simp
      then obtain us where "(pre = ?v @ us \<and> us @ CHR ''.'' # t = CHR ''.'' # b') \<or>
          (pre @ us = ?v \<and> CHR ''.'' # t = us @ CHR ''.'' # b')"
        unfolding append_eq_append_conv2 by blast
      then have "\<exists>us. pre = ?v @ us"
      proof
        assume "pre = ?v @ us \<and> us @ CHR ''.'' # t = CHR ''.'' # b'"
        then show ?thesis by blast
      next
        assume a: "pre @ us = ?v \<and> CHR ''.'' # t = us @ CHR ''.'' # b'"
        have "us = []"
        proof (cases us)
          case Nil
          then show ?thesis .
        next
          case (Cons c us')
          with a have "t = us' @ CHR ''.'' # b'" by simp
          with pt(3) show ?thesis by simp
        qed
        with a have "pre = ?v @ []" by simp
        then show ?thesis by blast
      qed
      then obtain us where "pre = u @ ''.gz'' @ us" by auto
      then show ?thesis unfolding stem' contains_iff by blast
    qed
  qed
qed

lemma only_dots_before_gz:
  assumes "''.gz'' \<notin> set (path_suffixes (pre @ ''.gz''))"
  shows "pre = [] \<or> hd pre = CHR ''.''"
proof (rule ccontr)
  assume "\<not> (pre = [] \<or> hd pre = CHR ''.'')"
  then obtain c cs where pre: "pre = c # cs" "c \<noteq> CHR ''.''" by (cases pre) auto
  then have dw: "dropWhile (\<lambda>c. c = CHR ''.'') (pre @ ''.gz'') = pre @ ''.gz''" by simp
  have "split_on CHR ''.'' (pre @ CHR ''.'' # ''gz'') = split_on CHR ''.'' pre @ split_on CHR ''.'' ''gz''"
    by (rule split_on_append)
  then have sp: "split_on CHR ''.'' (pre @ ''.gz'') = split_on CHR ''.'' pre @ [''gz'']" by simp
  have "tl (split_on CHR ''.'' pre @ [''gz'']) = tl (split_on CHR ''.'' pre) @ [''gz'']"
    using split_on_nonempty[of "CHR ''.''" pre] by simp
  then have "''gz'' \<in> set (tl (split_on CHR ''.'' (pre @ ''.gz'')))" by (simp add: sp)
  then have "''.gz'' \<in> set (path_suffixes (pre @ ''.gz''))"
    unfolding suffixes_gz dw by simp
  with assms show False by simp
qed

lemma filename_matches_refines:
  assumes "\<forall>a \<in> set allowed_filenames. plain_name a"
  shows "filename_matches filepath allowed_filenames
           = filename_matches_stripped filepath allowed_filenames"
proof -
  let ?name = "path_name filepath"
  have plain: "s \<notin> set allowed_filenames" if "s = [] \<or> hd s = CHR ''.'' \<or> contains ''.gz'' s" for s
    using assms that unfolding plain_name_def by blast
  have "(if ''.gz'' \<in> set (path_suffixes ?name) then path_stem ?name else ?name) \<in> set allowed_filenames
      \<longleftrightarrow> strip_compression_suffix ?name \<in> set allowed_filenames"
  proof (cases "''.gz'' \<in> set (path_suffixes ?name)")
    case True
    show ?thesis
    proof (cases "endswith ?name ''.gz''")
      case e: True
      then obtain pre where pre: "?name = pre @ ''.gz''" unfolding endswith_iff by blast
      with True have "path_stem ?name = pre" using stem_of_gz[of pre] by simp
      with True pre show ?thesis by simp
    next
      case e: False
      from stem_keeps_gz[OF True e] have 1: "path_stem ?name \<notin> set allowed_filenames"
        using plain[of "path_stem ?name"] by blast
      from suffixes_gz_contains[OF True] have "contains ''.gz'' ?name"
        unfolding contains_iff by blast
      then have 2: "?name \<notin> set allowed_filenames" using plain[of ?name] by blast
      from True e 1 2 show ?thesis by (simp add: strip_compression_suffix_def)
    qed
  next
    case False
    show ?thesis
    proof (cases "endswith ?name ''.gz''")
      case e: True
      then obtain pre where pre: "?name = pre @ ''.gz''" unfolding endswith_iff by blast
      with False have "pre = [] \<or> hd pre = CHR ''.''" using only_dots_before_gz[of pre] by simp
      then have 1: "pre \<notin> set allowed_filenames" using plain[of pre] by blast
      have "contains ''.gz'' ?name" unfolding contains_iff pre by (metis append_Nil2)
      then have 2: "?name \<notin> set allowed_filenames" using plain[of ?name] by blast
      from False 1 2 show ?thesis unfolding pre by simp
    next
      case e: False
      with False show ?thesis by (simp add: strip_compression_suffix_def)
    qed
  qed
  then show ?thesis
    by (simp add: filename_matches_def filename_matches_stripped_def Let_def)
qed

lemma SCAN_FILES_plain: "\<forall>a \<in> set SCAN_FILES. plain_name a"
  by code_simp

lemma filename_matches_SCAN_FILES:
  "filename_matches filepath SCAN_FILES \<longleftrightarrow>
     path_name filepath = ''results.json'' \<or> path_name filepath = ''results.json.gz''"
proof -
  have "filename_matches filepath SCAN_FILES = filename_matches_stripped filepath SCAN_FILES"
    by (rule filename_matches_refines[OF SCAN_FILES_plain])
  also have "\<dots> \<longleftrightarrow> strip_compression_suffix (path_name filepath) = ''results.json''"
    by (simp add: filename_matches_stripped_def SCAN_FILES_def)
  also have "\<dots> \<longleftrightarrow> path_name filepath = ''results.json'' \<or> path_name filepath = ''results.json.gz''"
  proof (cases "endswith (path_name filepath) ''.gz''")
    case True
    then obtain pre where pre: "path_name filepath = pre @ ''.gz''" unfolding endswith_iff by blast
    show ?thesis unfolding pre by auto
  next
    case False
    then have "path_name filepath \<noteq> ''results.json.gz''"
      unfolding endswith_iff by (metis append_Cons append_Nil)
    with False show ?thesis by (simp add: strip_compression_suffix_def)
  qed
  finally show ?thesis .
qed

subsection \<open>The selection predicate\<close>

text \<open>
  C5. When \<open>_data_to_load\<close> returns a list, a path is in it if and only if the listing
  holds the path with a size such that: the first date stamp of the path, the one at the
  least position, writes a date on or after the start date and on or before the end date
  (a bound that is absent does not constrain); \<open>_filename_matches\<close> accepts the path for
  the expected file names of the scan type; the source of the path is not among the
  existing sources (which are empty when the load is not incremental); and the size is
  not at or below 33 bytes. On expected names that are plain, \<open>_filename_matches\<close> is the
  test that the terminal file name, with a final \<open>.gz\<close> stripped, is an expected name.
\<close>

theorem data_to_load_selects:
  assumes "data_to_load self scan_type incremental_load destination start_date end_date = Inr files"
  shows "(filepath \<in> set files \<longleftrightarrow>
     (\<exists>file_size i.
        (filepath, file_size) \<in> set (gcs_match self (bucket self @ scan_type @ ''/**/*'')) \<and>
        stamp_at (unicode_decimal self) filepath i \<and>
        (\<forall>j<i. \<not> stamp_at (unicode_decimal self) filepath j) \<and>
        (case start_date of None \<Rightarrow> True
         | Some s \<Rightarrow> on_or_before (year s, month s, day s) (stamp_date filepath i)) \<and>
        (case end_date of None \<Rightarrow> True
         | Some e \<Rightarrow> on_or_before (stamp_date filepath i) (year e, month e, day e)) \<and>
        filename_matches filepath
          (if scan_type = SCAN_TYPE_SATELLITE self then SATELLITE_FILES self else SCAN_FILES) \<and>
        source_from_filename self filepath \<notin>
          set (if incremental_load
               then get_existing_datasources self
                      (if startswith destination ''gs://'' then destination
                       else project self @ '':'' @ destination) (project self)
               else []) \<and>
        \<not> file_size \<le> 33)) \<and>
   ((\<forall>a \<in> set (if scan_type = SCAN_TYPE_SATELLITE self then SATELLITE_FILES self else SCAN_FILES).
        plain_name a) \<longrightarrow>
    filename_matches filepath
        (if scan_type = SCAN_TYPE_SATELLITE self then SATELLITE_FILES self else SCAN_FILES)
      = (strip_compression_suffix (path_name filepath)
          \<in> set (if scan_type = SCAN_TYPE_SATELLITE self then SATELLITE_FILES self else SCAN_FILES)))"
proof (rule conjI)
  have ex: "existing_sources_of self incremental_load destination =
      (if incremental_load
               then get_existing_datasources self
                      (if startswith destination ''gs://'' then destination
                       else project self @ '':'' @ destination) (project self)
               else [])"
    by (simp add: existing_sources_of_def get_full_table_name_def Let_def)
  show "filepath \<in> set files \<longleftrightarrow>
     (\<exists>file_size i.
        (filepath, file_size) \<in> set (gcs_match self (bucket self @ scan_type @ ''/**/*'')) \<and>
        stamp_at (unicode_decimal self) filepath i \<and>
        (\<forall>j<i. \<not> stamp_at (unicode_decimal self) filepath j) \<and>
        (case start_date of None \<Rightarrow> True
         | Some s \<Rightarrow> on_or_before (year s, month s, day s) (stamp_date filepath i)) \<and>
        (case end_date of None \<Rightarrow> True
         | Some e \<Rightarrow> on_or_before (stamp_date filepath i) (year e, month e, day e)) \<and>
        filename_matches filepath
          (if scan_type = SCAN_TYPE_SATELLITE self then SATELLITE_FILES self else SCAN_FILES) \<and>
        source_from_filename self filepath \<notin>
          set (if incremental_load
               then get_existing_datasources self
                      (if startswith destination ''gs://'' then destination
                       else project self @ '':'' @ destination) (project self)
               else []) \<and>
        \<not> file_size \<le> 33)"
    unfolding data_to_load_Inr[OF assms] ex files_to_load_of_def first_stamp_iff within_def ymd_def
    by (simp add: conj_assoc)
next
  show "(\<forall>a \<in> set (if scan_type = SCAN_TYPE_SATELLITE self then SATELLITE_FILES self else SCAN_FILES).
        plain_name a) \<longrightarrow>
    filename_matches filepath
        (if scan_type = SCAN_TYPE_SATELLITE self then SATELLITE_FILES self else SCAN_FILES)
      = (strip_compression_suffix (path_name filepath)
          \<in> set (if scan_type = SCAN_TYPE_SATELLITE self then SATELLITE_FILES self else SCAN_FILES))"
  proof
    assume "\<forall>a \<in> set (if scan_type = SCAN_TYPE_SATELLITE self then SATELLITE_FILES self else SCAN_FILES).
        plain_name a"
    from filename_matches_refines[OF this]
    show "filename_matches filepath
        (if scan_type = SCAN_TYPE_SATELLITE self then SATELLITE_FILES self else SCAN_FILES)
      = (strip_compression_suffix (path_name filepath)
          \<in> set (if scan_type = SCAN_TYPE_SATELLITE self then SATELLITE_FILES self else SCAN_FILES))"
      by (simp only: filename_matches_stripped_def)
  qed
qed

lemma all_less_list_all: "(\<forall>j<n. P j) \<longleftrightarrow> list_all P [0..<n]"
  by (auto simp: list_all_iff)

text \<open>
  In the example listing one path is selected. Two of the others have an expected name,
  a new source and a size above 33, and are left out by the window alone: one is dated
  the day before the start date, one the day after the end date.
\<close>

theorem data_to_load_selects_witness:
  "data_to_load (example_runner example_listing [''CP_Quack-echo-2020-08-22-06-08-03''])
     ''echo'' True ''base.echo_scan'' (Some example_start) (Some example_end)
   = Inr [''gs://firehook-scans/echo/CP_Quack-echo-2020-08-23-06-01-02/results.json''] \<and>
   (\<exists>file_size i.
      (''gs://firehook-scans/echo/CP_Quack-echo-2020-08-23-06-01-02/results.json'', file_size)
        \<in> set example_listing \<and>
      stamp_at is_digit
        ''gs://firehook-scans/echo/CP_Quack-echo-2020-08-23-06-01-02/results.json'' i \<and>
      (\<forall>j<i. \<not> stamp_at is_digit
        ''gs://firehook-scans/echo/CP_Quack-echo-2020-08-23-06-01-02/results.json'' j) \<and>
      on_or_before (2020, 8, 22)
        (stamp_date ''gs://firehook-scans/echo/CP_Quack-echo-2020-08-23-06-01-02/results.json'' i) \<and>
      on_or_before
        (stamp_date ''gs://firehook-scans/echo/CP_Quack-echo-2020-08-23-06-01-02/results.json'' i)
        (2020, 8, 24) \<and>
      filename_matches
        ''gs://firehook-scans/echo/CP_Quack-echo-2020-08-23-06-01-02/results.json'' SCAN_FILES \<and>
      example_source ''gs://firehook-scans/echo/CP_Quack-echo-2020-08-23-06-01-02/results.json''
        \<notin> set [''CP_Quack-echo-2020-08-22-06-08-03''] \<and>
      \<not> file_size \<le> 33) \<and>
   \<not> (\<exists>file_size i.
      (''gs://firehook-scans/echo/CP_Quack-echo-2020-08-21-06-01-02/results.json'', file_size)
        \<in> set example_listing \<and>
      stamp_at is_digit
        ''gs://firehook-scans/echo/CP_Quack-echo-2020-08-21-06-01-02/results.json'' i \<and>
      (\<forall>j<i. \<not> stamp_at is_digit
        ''gs://firehook-scans/echo/CP_Quack-echo-2020-08-21-06-01-02/results.json'' j) \<and>
      on_or_before (2020, 8, 22)
        (stamp_date ''gs://firehook-scans/echo/CP_Quack-echo-2020-08-21-06-01-02/results.json'' i) \<and>
      on_or_before
        (stamp_date ''gs://firehook-scans/echo/CP_Quack-echo-2020-08-21-06-01-02/results.json'' i)
        (2020, 8, 24) \<and>
      filename_matches
        ''gs://firehook-scans/echo/CP_Quack-echo-2020-08-21-06-01-02/results.json'' SCAN_FILES \<and>
      example_source ''gs://firehook-scans/echo/CP_Quack-echo-2020-08-21-06-01-02/results.json''
        \<notin> set [''CP_Quack-echo-2020-08-22-06-08-03''] \<and>
      \<not> file_size \<le> 33) \<and>
   ((''gs://firehook-scans/echo/CP_Quack-echo-2020-08-21-06-01-02/results.json'', 1000)
      \<in> set example_listing \<and>
    stamp_at is_digit
      ''gs://firehook-scans/echo/CP_Quack-echo-2020-08-21-06-01-02/results.json'' 39 \<and>
    stamp_date ''gs://firehook-scans/echo/CP_Quack-echo-2020-08-21-06-01-02/results.json'' 39
      = (2020, 8, 21) \<and>
    \<not> on_or_before (2020, 8, 22) (2020, 8, 21) \<and>
    filename_matches
      ''gs://firehook-scans/echo/CP_Quack-echo-2020-08-21-06-01-02/results.json'' SCAN_FILES \<and>
    example_source ''gs://firehook-scans/echo/CP_Quack-echo-2020-08-21-06-01-02/results.json''
      \<notin> set [''CP_Quack-echo-2020-08-22-06-08-03''] \<and>
    \<not> (1000::nat) \<le> 33) \<and>
   ((''gs://firehook-scans/echo/CP_Quack-echo-2020-08-25-06-01-02/results.json.gz'', 1000)
      \<in> set example_listing \<and>
    stamp_at is_digit
      ''gs://firehook-scans/echo/CP_Quack-echo-2020-08-25-06-01-02/results.json.gz'' 39 \<and>
    stamp_date ''gs://firehook-scans/echo/CP_Quack-echo-2020-08-25-06-01-02/results.json.gz'' 39
      = (2020, 8, 25) \<and>
    \<not> on_or_before (2020, 8, 25) (2020, 8, 24) \<and>
    filename_matches
      ''gs://firehook-scans/echo/CP_Quack-echo-2020-08-25-06-01-02/results.json.gz'' SCAN_FILES \<and>
    example_source ''gs://firehook-scans/echo/CP_Quack-echo-2020-08-25-06-01-02/results.json.gz''
      \<notin> set [''CP_Quack-echo-2020-08-22-06-08-03''] \<and>
    \<not> (1000::nat) \<le> 33) \<and>
   (list_all plain_name SCAN_FILES \<and>
    filename_matches
      ''gs://firehook-scans/echo/CP_Quack-echo-2020-08-25-06-01-02/results.json.gz'' SCAN_FILES
      = (strip_compression_suffix
           (path_name ''gs://firehook-scans/echo/CP_Quack-echo-2020-08-25-06-01-02/results.json.gz'')
         \<in> set SCAN_FILES) \<and>
    strip_compression_suffix
      (path_name ''gs://firehook-scans/echo/CP_Quack-echo-2020-08-25-06-01-02/results.json.gz'')
      = ''results.json'')"
proof -
  let ?r = "example_runner example_listing [''CP_Quack-echo-2020-08-22-06-08-03'']"
  let ?A = "''gs://firehook-scans/echo/CP_Quack-echo-2020-08-23-06-01-02/results.json''"
  let ?E = "''gs://firehook-scans/echo/CP_Quack-echo-2020-08-21-06-01-02/results.json''"
  have sel: "data_to_load ?r ''echo'' True ''base.echo_scan'' (Some example_start) (Some example_end)
    = Inr [?A]"
    by code_simp
  have r: "gcs_match ?r x = example_listing" "SCAN_TYPE_SATELLITE ?r = ''satellite''"
    "get_existing_datasources ?r y z = [''CP_Quack-echo-2020-08-22-06-08-03'']"
    "source_from_filename ?r = example_source" "unicode_decimal ?r = is_digit" for x y z
    by (simp_all add: example_runner_def)
  have d: "year example_start = 2020" "month example_start = 8" "day example_start = 22"
    "year example_end = 2020" "month example_end = 8" "day example_end = 24"
    by (simp_all add: example_start_def example_end_def)
  note tA = data_to_load_selects[OF sel, of ?A, THEN conjunct1, unfolded r]
  note tE = data_to_load_selects[OF sel, of ?E, THEN conjunct1, unfolded r]
  have inA: "?A \<in> set [?A]" by simp
  have outE: "?E \<notin> set [?A]" by simp
  have E: "(?E, 1000) \<in> set example_listing \<and> stamp_at is_digit ?E 39 \<and>
    stamp_date ?E 39 = (2020, 8, 21) \<and> \<not> on_or_before (2020, 8, 22) (2020, 8, 21) \<and>
    filename_matches ?E SCAN_FILES \<and>
    example_source ?E \<notin> set [''CP_Quack-echo-2020-08-22-06-08-03''] \<and> \<not> (1000::nat) \<le> 33"
    by code_simp
  have F: "(''gs://firehook-scans/echo/CP_Quack-echo-2020-08-25-06-01-02/results.json.gz'', 1000)
      \<in> set example_listing \<and>
    stamp_at is_digit
      ''gs://firehook-scans/echo/CP_Quack-echo-2020-08-25-06-01-02/results.json.gz'' 39 \<and>
    stamp_date ''gs://firehook-scans/echo/CP_Quack-echo-2020-08-25-06-01-02/results.json.gz'' 39
      = (2020, 8, 25) \<and>
    \<not> on_or_before (2020, 8, 25) (2020, 8, 24) \<and>
    filename_matches
      ''gs://firehook-scans/echo/CP_Quack-echo-2020-08-25-06-01-02/results.json.gz'' SCAN_FILES \<and>
    example_source ''gs://firehook-scans/echo/CP_Quack-echo-2020-08-25-06-01-02/results.json.gz''
      \<notin> set [''CP_Quack-echo-2020-08-22-06-08-03''] \<and>
    \<not> (1000::nat) \<le> 33"
    by code_simp
  from tA inA have a: "\<exists>file_size i.
      (?A, file_size) \<in> set example_listing \<and> stamp_at is_digit ?A i \<and>
      (\<forall>j<i. \<not> stamp_at is_digit ?A j) \<and>
      on_or_before (2020, 8, 22) (stamp_date ?A i) \<and> on_or_before (stamp_date ?A i) (2020, 8, 24) \<and>
      filename_matches ?A SCAN_FILES \<and>
      example_source ?A \<notin> set [''CP_Quack-echo-2020-08-22-06-08-03''] \<and> \<not> file_size \<le> 33"
    by (simp add: d)
  from tE outE have e: "\<not> (\<exists>file_size i.
      (?E, file_size) \<in> set example_listing \<and> stamp_at is_digit ?E i \<and>
      (\<forall>j<i. \<not> stamp_at is_digit ?E j) \<and>
      on_or_before (2020, 8, 22) (stamp_date ?E i) \<and> on_or_before (stamp_date ?E i) (2020, 8, 24) \<and>
      filename_matches ?E SCAN_FILES \<and>
      example_source ?E \<notin> set [''CP_Quack-echo-2020-08-22-06-08-03''] \<and> \<not> file_size \<le> 33)"
    by (simp add: d)
  have pl: "list_all plain_name SCAN_FILES" by code_simp
  then have plain: "\<forall>a \<in> set SCAN_FILES. plain_name a" by (simp only: list_all_iff)
  note tF = data_to_load_selects[OF sel,
      of "''gs://firehook-scans/echo/CP_Quack-echo-2020-08-25-06-01-02/results.json.gz''",
      THEN conjunct2, unfolded r]
  have ne: "''echo'' \<noteq> ''satellite''" by simp
  from tF plain have n: "filename_matches
      ''gs://firehook-scans/echo/CP_Quack-echo-2020-08-25-06-01-02/results.json.gz'' SCAN_FILES
      = (strip_compression_suffix
           (path_name ''gs://firehook-scans/echo/CP_Quack-echo-2020-08-25-06-01-02/results.json.gz'')
         \<in> set SCAN_FILES)"
    unfolding if_not_P[OF ne] by (rule mp)
  have st: "strip_compression_suffix
      (path_name ''gs://firehook-scans/echo/CP_Quack-echo-2020-08-25-06-01-02/results.json.gz'')
      = ''results.json''" by code_simp
  from conjI[OF sel conjI[OF a conjI[OF e conjI[OF E conjI[OF F conjI[OF pl conjI[OF n st]]]]]]]
  show ?thesis .
qed

subsection \<open>Paths without a date stamp\<close>

text \<open>
  C10, in the form the code satisfies. For a listed path with no date stamp,
  \<open>_between_dates\<close> raises \<open>IndexError\<close> and \<open>_data_to_load\<close> returns no list. It raises
  the exception of the first listed path without a valid date: \<open>ValueError\<close> when the
  listing has, before the path, a path with a bad stamp that only paths with a valid date
  precede, and \<open>IndexError\<close> in every other case.
\<close>

theorem data_to_load_dateless_raises:
  assumes "gcs_match self (bucket self @ scan_type @ ''/**/*'') = before @ (filepath, file_size) # after"
    and "\<forall>i. \<not> stamp_at (unicode_decimal self) filepath i"
  shows "between_dates (unicode_decimal self) filepath start_date end_date = Inl IndexError \<and>
     data_to_load self scan_type incremental_load destination start_date end_date =
       Inl (if \<exists>b1 q qs b2.
                 before = b1 @ (q, qs) # b2 \<and> bad_stamp (unicode_decimal self) q \<and>
                 (\<forall>en \<in> set b1. \<not> no_stamp (unicode_decimal self) (fst en) \<and>
                                \<not> bad_stamp (unicode_decimal self) (fst en))
            then ValueError else IndexError)"
proof -
  let ?dec = "unicode_decimal self"
  let ?cond = "selected self (files_to_load_of self scan_type)
      (existing_sources_of self incremental_load destination) start_date end_date"
  let ?md = "gcs_match self (bucket self @ scan_type @ ''/**/*'')"
  let ?run = "data_to_load self scan_type incremental_load destination start_date end_date"
  let ?early = "\<exists>b1 q qs b2. before = b1 @ (q, qs) # b2 \<and> bad_stamp ?dec q \<and>
      (\<forall>en \<in> set b1. \<not> no_stamp ?dec (fst en) \<and> \<not> bad_stamp ?dec (fst en))"
  have run: "?run = filter_paths ?cond ?md" by (simp add: data_to_load_def Let_def)
  from assms(2) have ns: "no_stamp ?dec filepath" by (simp add: no_stamp_iff)
  then have fd: "filename_date ?dec filepath = Inl IndexError"
    by (simp add: filename_date_IndexError)
  then have bd: "between_dates ?dec filepath start_date end_date = Inl IndexError"
    by (simp add: between_dates_Inl)
  from fd have cf: "?cond (filepath, file_size) = Inl IndexError" by (simp add: selected_Inl)
  have "?run = Inl (if ?early then ValueError else IndexError)"
  proof (cases ?early)
    case True
    then obtain b1 q qs b2 where b: "before = b1 @ (q, qs) # b2" and q: "bad_stamp ?dec q"
      and ok: "\<forall>en \<in> set b1. \<not> no_stamp ?dec (fst en) \<and> \<not> bad_stamp ?dec (fst en)" by blast
    from q have "?cond (q, qs) = Inl ValueError"
      by (simp add: selected_Inl filename_date_ValueError)
    moreover from ok have "\<forall>en \<in> set b1. \<exists>b. ?cond en = Inr b" unfolding selected_ok .
    ultimately have "filter_paths ?cond (b1 @ (q, qs) # (b2 @ (filepath, file_size) # after))
        = Inl ValueError"
      using filter_paths_append_ok[of b1 ?cond "(q, qs)" ValueError] by blast
    with True show ?thesis unfolding run assms(1) b by simp
  next
    case False
    have "(filepath, file_size) \<in> set ?md" unfolding assms(1) by simp
    from filter_paths_raises[of "(filepath, file_size)" ?md ?cond IndexError, OF this cf] obtain err where err: "filter_paths ?cond ?md = Inl err"
      by blast
    from filter_paths_first[OF err] obtain c1 en c2 where
      c: "?md = c1 @ en # c2" and ce: "?cond en = Inl err"
      and cok: "\<forall>x \<in> set c1. \<exists>b. ?cond x = Inr b" by blast
    obtain q qs where en: "en = (q, qs)" by (cases en)
    from ce have fq: "filename_date ?dec q = Inl err" unfolding en by (simp add: selected_Inl)
    have "err \<noteq> ValueError"
    proof
      assume v: "err = ValueError"
      with fq have bq: "bad_stamp ?dec q" by (simp add: filename_date_ValueError)
      from v ce cf have ne: "en \<noteq> (filepath, file_size)" by auto
      from cok cf have notin: "(filepath, file_size) \<notin> set c1" by force
      from c have "before @ (filepath, file_size) # after = c1 @ en # c2" unfolding assms(1) .
      then obtain us where
        "(before = c1 @ us \<and> us @ (filepath, file_size) # after = en # c2) \<or>
         (before @ us = c1 \<and> (filepath, file_size) # after = us @ en # c2)"
        unfolding append_eq_append_conv2 by blast
      then show False
      proof
        assume a: "before = c1 @ us \<and> us @ (filepath, file_size) # after = en # c2"
        show False
        proof (cases us)
          case Nil
          with a ne show False by simp
        next
          case (Cons u us')
          with a have "before = c1 @ (q, qs) # us'" unfolding en by simp
          moreover from cok have "\<forall>x \<in> set c1. \<not> no_stamp ?dec (fst x) \<and> \<not> bad_stamp ?dec (fst x)"
            unfolding selected_ok .
          ultimately have ?early using bq by blast
          with False show False ..
        qed
      next
        assume a: "before @ us = c1 \<and> (filepath, file_size) # after = us @ en # c2"
        show False
        proof (cases us)
          case Nil
          with a ne show False by simp
        next
          case (Cons u us')
          with a have "u = (filepath, file_size)" by simp
          with a Cons have "(filepath, file_size) \<in> set c1" by auto
          with notin show False ..
        qed
      qed
    qed
    with filename_date_error[OF fq] have "err = IndexError" by simp
    with err False show ?thesis unfolding run by simp
  qed
  with bd show ?thesis ..
qed

text \<open>
  A listing with a dated path, then a path with no date stamp, then a path stamped
  2020-13-01: the exception is \<open>IndexError\<close>, the path with the bad stamp is not reached.
\<close>

theorem data_to_load_dateless_raises_witness:
  "gcs_match (example_runner example_listing_no_date [])
     (bucket (example_runner example_listing_no_date []) @ ''echo'' @ ''/**/*'')
   = [(''gs://firehook-scans/echo/CP_Quack-echo-2020-08-23-06-01-02/results.json'', 1000)]
     @ (''gs://firehook-scans/echo/results.json'', 1000)
     # [(''gs://firehook-scans/echo/CP_Quack-echo-2020-13-01-06-01-02/results.json'', 1000)] \<and>
   (\<forall>i. \<not> stamp_at (unicode_decimal (example_runner example_listing_no_date []))
           ''gs://firehook-scans/echo/results.json'' i) \<and>
   between_dates (unicode_decimal (example_runner example_listing_no_date []))
     ''gs://firehook-scans/echo/results.json'' None None = Inl IndexError \<and>
   bad_stamp (unicode_decimal (example_runner example_listing_no_date []))
     ''gs://firehook-scans/echo/CP_Quack-echo-2020-13-01-06-01-02/results.json'' \<and>
   data_to_load (example_runner example_listing_no_date []) ''echo'' False ''base.echo_scan''
     None None = Inl IndexError"
proof -
  let ?r = "example_runner example_listing_no_date []"
  let ?v = "(''gs://firehook-scans/echo/CP_Quack-echo-2020-08-23-06-01-02/results.json'', 1000::nat)"
  have a: "gcs_match ?r (bucket ?r @ ''echo'' @ ''/**/*'')
     = [?v] @ (''gs://firehook-scans/echo/results.json'', 1000)
       # [(''gs://firehook-scans/echo/CP_Quack-echo-2020-13-01-06-01-02/results.json'', 1000)]"
    by (simp add: example_runner_def example_listing_no_date_def)
  have "no_stamp (unicode_decimal ?r) ''gs://firehook-scans/echo/results.json''"
    by code_simp
  then have b: "\<forall>i. \<not> stamp_at (unicode_decimal ?r) ''gs://firehook-scans/echo/results.json'' i"
    by (simp add: no_stamp_iff)
  have c: "bad_stamp (unicode_decimal ?r)
     ''gs://firehook-scans/echo/CP_Quack-echo-2020-13-01-06-01-02/results.json''"
    by code_simp
  have v: "\<not> bad_stamp (unicode_decimal ?r) (fst ?v)" by code_simp
  have early: "\<not> (\<exists>b1 q qs b2. [?v] = b1 @ (q, qs) # b2 \<and> bad_stamp (unicode_decimal ?r) q \<and>
      (\<forall>en \<in> set b1. \<not> no_stamp (unicode_decimal ?r) (fst en) \<and>
                     \<not> bad_stamp (unicode_decimal ?r) (fst en)))"
  proof
    assume "\<exists>b1 q qs b2. [?v] = b1 @ (q, qs) # b2 \<and> bad_stamp (unicode_decimal ?r) q \<and>
      (\<forall>en \<in> set b1. \<not> no_stamp (unicode_decimal ?r) (fst en) \<and>
                     \<not> bad_stamp (unicode_decimal ?r) (fst en))"
    then obtain b1 q qs b2 where s: "[?v] = b1 @ (q, qs) # b2"
      and q: "bad_stamp (unicode_decimal ?r) q" by blast
    from s have "(q, qs) = ?v" by (cases b1) simp_all
    then have "q = fst ?v" by simp
    with q v show False by simp
  qed
  from data_to_load_dateless_raises[OF a b, of None None False "''base.echo_scan''"] early
  have "between_dates (unicode_decimal ?r) ''gs://firehook-scans/echo/results.json'' None None
      = Inl IndexError \<and>
    data_to_load ?r ''echo'' False ''base.echo_scan'' None None = Inl IndexError"
    by (simp only: if_False)
  with a b c show ?thesis by blast
qed

text \<open>
  With \<open>IndexError\<close> in every case the statement fails: when an earlier path of the
  listing carries a date stamp that is no calendar date, that path raises \<open>ValueError\<close>
  first.
\<close>

theorem data_to_load_dateless_counterexample:
  "(''gs://firehook-scans/echo/results.json'', 1000)
     \<in> set (gcs_match (example_runner example_listing_bad_date [])
              (bucket (example_runner example_listing_bad_date []) @ ''echo'' @ ''/**/*'')) \<and>
   no_stamp (unicode_decimal (example_runner example_listing_bad_date []))
     ''gs://firehook-scans/echo/results.json'' \<and>
   between_dates (unicode_decimal (example_runner example_listing_bad_date []))
     ''gs://firehook-scans/echo/results.json'' None None = Inl IndexError \<and>
   data_to_load (example_runner example_listing_bad_date []) ''echo'' False ''base.echo_scan''
     None None = Inl ValueError \<and>
   data_to_load (example_runner example_listing_bad_date []) ''echo'' False ''base.echo_scan''
     None None \<noteq> Inl IndexError"
  by code_simp

text \<open>
  A stamp in digits outside ASCII: the pattern finds it and \<open>fromisoformat\<close> refuses it,
  so the path raises \<open>ValueError\<close> although a stamp in ASCII digits follows. Here the
  character \<open>0xB2\<close> stands for such a digit.
\<close>

lemma between_dates_non_ascii_digits:
  "between_dates (\<lambda>c. is_digit c \<or> c = CHR 0xB2)
     (''echo/CP_Quack-echo-'' @ [CHR 0xB2] @ ''020-08-23/2020-08-24/results.json'') None None
   = Inl ValueError \<and>
   between_dates is_digit
     (''echo/CP_Quack-echo-'' @ [CHR 0xB2] @ ''020-08-23/2020-08-24/results.json'') None None
   = Inr True"
  by code_simp

section \<open>Properties of the metadata join\<close>

subsection \<open>Date keys\<close>

lemma base10_split:
  assumes "(d::nat) < 10" "d' < 10" "10 * x + d = 10 * x' + d'"
  shows "x = x' \<and> d = d'"
proof -
  from assms(3) have "(10 * x + d) div 10 = (10 * x' + d') div 10"
    and "(10 * x + d) mod 10 = (10 * x' + d') mod 10" by simp_all
  with assms(1,2) show ?thesis by simp
qed

lemma two_digits_inj:
  "(a::nat) < 10 \<Longrightarrow> b < 10 \<Longrightarrow> a' < 10 \<Longrightarrow> b' < 10 \<Longrightarrow> 10 * a + b = 10 * a' + b' \<Longrightarrow> a = a' \<and> b = b'"
  using base10_split by blast

lemma four_digits_inj:
  assumes "(a::nat) < 10" "b < 10" "c < 10" "d < 10" "a' < 10" "b' < 10" "c' < 10" "d' < 10"
    "10 * (10 * (10 * a + b) + c) + d = 10 * (10 * (10 * a' + b') + c') + d'"
  shows "a = a' \<and> b = b' \<and> c = c' \<and> d = d'"
proof -
  have 1: "10 * (10 * a + b) + c = 10 * (10 * a' + b') + c' \<and> d = d'"
    using base10_split[OF assms(4,8,9)] .
  then have 2: "10 * a + b = 10 * a' + b' \<and> c = c'"
    using base10_split[OF assms(3,7)] by blast
  then have "a = a' \<and> b = b'"
    using base10_split[OF assms(2,6)] by blast
  with 1 2 show ?thesis by simp
qed

lemma digit_val_bound: "is_digit c \<Longrightarrow> digit_val c < 10"
  by (auto simp: is_digit_def digit_val_def)

lemma digit_val_inj: "is_digit a \<Longrightarrow> is_digit b \<Longrightarrow> digit_val a = digit_val b \<Longrightarrow> a = b"
  by (auto simp: is_digit_def digit_val_def)

lemma length_10:
  "length s = 10 \<Longrightarrow> \<exists>a b c d e f g h i j. s = [a, b, c, d, e, f, g, h, i, j]"
  by (auto simp: eval_nat_numeral length_Suc_conv)

lemma fromisoformat_Inr:
  assumes a: "fromisoformat s = Inr dt"
  shows "\<exists>y1 y2 y3 y4 m1 m2 d1 d2. s = [y1, y2, y3, y4, CHR ''-'', m1, m2, CHR ''-'', d1, d2] \<and>
       is_digit y1 \<and> is_digit y2 \<and> is_digit y3 \<and> is_digit y4 \<and> is_digit m1 \<and> is_digit m2 \<and>
       is_digit d1 \<and> is_digit d2 \<and>
       year dt = 10 * (10 * (10 * digit_val y1 + digit_val y2) + digit_val y3) + digit_val y4 \<and>
       month dt = 10 * digit_val m1 + digit_val m2 \<and>
       day dt = 10 * digit_val d1 + digit_val d2"
proof -
  from a have len: "length s = 10" and pat: "date_pattern_at is_digit s"
    by (auto simp: fromisoformat_def split: if_splits)
  from length_10[OF len] obtain a b c d e f g h i j where s: "s = [a, b, c, d, e, f, g, h, i, j]"
    by blast
  from pat have p: "is_digit a" "is_digit b" "is_digit c" "is_digit d" "e = CHR ''-''"
    "is_digit f" "is_digit g" "h = CHR ''-''" "is_digit i" "is_digit j" unfolding s by simp_all
  from a len pat have dt: "dt = \<lparr>year = digits_val 0 (take 4 s), month = digits_val 0 (take 2 (drop 5 s)),
      day = digits_val 0 (take 2 (drop 8 s))\<rparr>"
    by (simp add: fromisoformat_def Let_def split: if_splits)
  have "year dt = 10 * (10 * (10 * digit_val a + digit_val b) + digit_val c) + digit_val d"
    "month dt = 10 * digit_val f + digit_val g" "day dt = 10 * digit_val i + digit_val j"
    unfolding dt s by simp_all
  with s p show ?thesis by blast
qed

lemma fromisoformat_inj:
  assumes "fromisoformat s = Inr dt" "fromisoformat t = Inr dt"
  shows "s = t"
proof -
  from fromisoformat_Inr[OF assms(1)] obtain y1 y2 y3 y4 m1 m2 d1 d2 where
    s: "s = [y1, y2, y3, y4, CHR ''-'', m1, m2, CHR ''-'', d1, d2]" and
    sd: "is_digit y1" "is_digit y2" "is_digit y3" "is_digit y4" "is_digit m1" "is_digit m2"
       "is_digit d1" "is_digit d2" and
    sy: "year dt = 10 * (10 * (10 * digit_val y1 + digit_val y2) + digit_val y3) + digit_val y4" and
    sm: "month dt = 10 * digit_val m1 + digit_val m2" and
    sdd: "day dt = 10 * digit_val d1 + digit_val d2" by blast
  from fromisoformat_Inr[OF assms(2)] obtain z1 z2 z3 z4 n1 n2 e1 e2 where
    t: "t = [z1, z2, z3, z4, CHR ''-'', n1, n2, CHR ''-'', e1, e2]" and
    td: "is_digit z1" "is_digit z2" "is_digit z3" "is_digit z4" "is_digit n1" "is_digit n2"
       "is_digit e1" "is_digit e2" and
    ty: "year dt = 10 * (10 * (10 * digit_val z1 + digit_val z2) + digit_val z3) + digit_val z4" and
    tm: "month dt = 10 * digit_val n1 + digit_val n2" and
    tdd: "day dt = 10 * digit_val e1 + digit_val e2" by blast
  have y: "digit_val y1 = digit_val z1 \<and> digit_val y2 = digit_val z2 \<and> digit_val y3 = digit_val z3 \<and>
        digit_val y4 = digit_val z4"
    by (rule four_digits_inj[OF sd(1-4)[THEN digit_val_bound] td(1-4)[THEN digit_val_bound]])
       (simp only: sy[symmetric] ty[symmetric])
  have m: "digit_val m1 = digit_val n1 \<and> digit_val m2 = digit_val n2"
    by (rule two_digits_inj[OF sd(5,6)[THEN digit_val_bound] td(5,6)[THEN digit_val_bound]])
       (simp only: sm[symmetric] tm[symmetric])
  have d: "digit_val d1 = digit_val e1 \<and> digit_val d2 = digit_val e2"
    by (rule two_digits_inj[OF sd(7,8)[THEN digit_val_bound] td(7,8)[THEN digit_val_bound]])
       (simp only: sdd[symmetric] tdd[symmetric])
  have "y1 = z1" "y2 = z2" "y3 = z3" "y4 = z4" "m1 = n1" "m2 = n2" "d1 = e1" "d2 = e2"
    using y m d sd td by (blast intro: digit_val_inj)+
  then show ?thesis unfolding s t by simp
qed

subsection \<open>Grouping\<close>

lemma mset_concat_filter_keys:
  "distinct ks \<Longrightarrow> key ` set xs \<subseteq> set ks \<Longrightarrow>
     mset (concat (map (\<lambda>k. filter (\<lambda>x. key x = k) xs) ks)) = mset xs"
proof (induction ks arbitrary: xs)
  case Nil
  then show ?case by simp
next
  case (Cons k ks)
  let ?xs' = "filter (\<lambda>x. key x \<noteq> k) xs"
  have same: "map (\<lambda>k'. filter (\<lambda>x. key x = k') xs) ks = map (\<lambda>k'. filter (\<lambda>x. key x = k') ?xs') ks"
  proof (rule map_cong[OF refl])
    fix k' assume "k' \<in> set ks"
    with Cons.prems(1) have "k' \<noteq> k" by auto
    then show "filter (\<lambda>x. key x = k') xs = filter (\<lambda>x. key x = k') ?xs'"
      by (auto intro: filter_cong)
  qed
  have sub: "key ` set ?xs' \<subseteq> set ks" using Cons.prems(2) by auto
  have ih: "mset (concat (map (\<lambda>k'. filter (\<lambda>x. key x = k') ?xs') ks)) = mset ?xs'"
    using Cons.prems(1) by (intro Cons.IH[OF _ sub]) simp
  have "concat (map (\<lambda>k. filter (\<lambda>x. key x = k) xs) (k # ks))
      = filter (\<lambda>x. key x = k) xs @ concat (map (\<lambda>k'. filter (\<lambda>x. key x = k') ?xs') ks)"
    by (simp only: list.map concat.simps same)
  then have "mset (concat (map (\<lambda>k. filter (\<lambda>x. key x = k) xs) (k # ks)))
      = mset (filter (\<lambda>x. key x = k) xs) + mset ?xs'"
    by (simp only: mset_append ih)
  also have "\<dots> = mset xs"
    by (induction xs) auto
  finally show ?case .
qed

lemma filter_distinct_key:
  "distinct (map fst xs) \<Longrightarrow> (k, v) \<in> set xs \<Longrightarrow> filter (\<lambda>kv. fst kv = k) xs = [(k, v)]"
proof (induction xs)
  case Nil
  then show ?case by simp
next
  case (Cons x xs)
  show ?case
  proof (cases "fst x = k")
    case True
    with Cons.prems have "x = (k, v)" by (cases x) (auto simp: image_iff)
    moreover have "filter (\<lambda>kv. fst kv = k) xs = []"
      using Cons.prems(1) True by (auto simp: filter_empty_conv image_iff)
    ultimately show ?thesis by simp
  next
    case False
    with Cons show ?thesis by auto
  qed
qed


lemma add_ip_metadata_Inr:
  "snd (add_ip_metadata mk dk ips) = Inr out \<longleftrightarrow>
     (\<exists>ch. chooser_for mk dk = Inr ch \<and> out = map (\<lambda>ip. ((dk, ip), get_metadata ch ip)) ips)"
  by (auto simp: add_ip_metadata_def chooser_for_def split: sum.splits)

lemma add_ip_metadata_Inl:
  "snd (add_ip_metadata mk dk ips) = Inl e \<longleftrightarrow> chooser_for mk dk = Inl e"
  by (auto simp: add_ip_metadata_def chooser_for_def split: sum.splits)

lemma add_ip_metadata_calls_ok:
  "chooser_for mk dk = Inr ch \<Longrightarrow>
     \<exists>d. fromisoformat dk = Inr d \<and> fst (add_ip_metadata mk dk ips) = MakeChooser d # map (GetMetadata d) ips"
  by (auto simp: add_ip_metadata_def chooser_for_def split: sum.splits)

lemma FlatMapTuple_Inr:
  "snd (FlatMapTuple (add_ip_metadata mk) G) = Inr out \<Longrightarrow>
     list_all (\<lambda>g. \<not> isl (chooser_for mk (fst g))) G \<and>
     map fst out = concat (map (\<lambda>g. map (Pair (fst g)) (snd g)) G) \<and>
     (\<forall>km \<in> set out. metadata_for mk (fst km) = Inr (snd km))"
proof (induction G arbitrary: out)
  case Nil
  then show ?case by simp
next
  case (Cons g G)
  obtain dk ips where g: "g = (dk, ips)" by (cases g)
  obtain c1 r1 where a: "add_ip_metadata mk dk ips = (c1, r1)" by (cases "add_ip_metadata mk dk ips")
  obtain c2 r2 where f: "FlatMapTuple (add_ip_metadata mk) G = (c2, r2)"
    by (cases "FlatMapTuple (add_ip_metadata mk) G")
  from Cons.prems g a f obtain o1 o2 where r: "r1 = Inr o1" "r2 = Inr o2" "out = o1 @ o2"
    by (auto split: sum.splits)
  from a r have "snd (add_ip_metadata mk dk ips) = Inr o1" by simp
  then obtain ch where ch: "chooser_for mk dk = Inr ch"
    and o1: "o1 = map (\<lambda>ip. ((dk, ip), get_metadata ch ip)) ips"
    unfolding add_ip_metadata_Inr by blast
  from f r have "snd (FlatMapTuple (add_ip_metadata mk) G) = Inr o2" by simp
  from Cons.IH[OF this] have ih: "list_all (\<lambda>g. \<not> isl (chooser_for mk (fst g))) G"
    "map fst o2 = concat (map (\<lambda>g. map (Pair (fst g)) (snd g)) G)"
    "\<forall>km \<in> set o2. metadata_for mk (fst km) = Inr (snd km)" by auto
  have m1: "map fst o1 = map (Pair dk) ips" by (simp add: o1 comp_def)
  have m2: "\<forall>km \<in> set o1. metadata_for mk (fst km) = Inr (snd km)"
    by (auto simp: o1 metadata_for_def ch)
  show ?case using ih m1 m2 ch by (auto simp: r g)
qed

lemma FlatMapTuple_total:
  "list_all (\<lambda>g. \<not> isl (chooser_for mk (fst g))) G \<Longrightarrow>
     \<exists>out. snd (FlatMapTuple (add_ip_metadata mk) G) = Inr out"
proof (induction G)
  case Nil
  then show ?case by simp
next
  case (Cons g G)
  obtain dk ips where g: "g = (dk, ips)" by (cases g)
  from Cons.prems g obtain ch where ch: "chooser_for mk dk = Inr ch"
    by (cases "chooser_for mk dk") auto
  then obtain c1 o1 where a: "add_ip_metadata mk dk ips = (c1, Inr o1)"
    using add_ip_metadata_Inr[of mk dk ips] by (cases "add_ip_metadata mk dk ips") auto
  from Cons obtain c2 o2 where f: "FlatMapTuple (add_ip_metadata mk) G = (c2, Inr o2)"
    by (cases "FlatMapTuple (add_ip_metadata mk) G") auto
  show ?case by (simp add: g a f)
qed

lemma FlatMapTuple_calls_ok:
  "snd (FlatMapTuple (add_ip_metadata mk) G) = Inr out \<Longrightarrow>
     length (filter is_MakeChooser (fst (FlatMapTuple (add_ip_metadata mk) G))) = length G \<and>
     length (filter is_GetMetadata (fst (FlatMapTuple (add_ip_metadata mk) G))) = length out"
proof (induction G arbitrary: out)
  case Nil
  then show ?case by simp
next
  case (Cons g G)
  obtain dk ips where g: "g = (dk, ips)" by (cases g)
  obtain c1 r1 where a: "add_ip_metadata mk dk ips = (c1, r1)" by (cases "add_ip_metadata mk dk ips")
  obtain c2 r2 where f: "FlatMapTuple (add_ip_metadata mk) G = (c2, r2)"
    by (cases "FlatMapTuple (add_ip_metadata mk) G")
  from Cons.prems g a f obtain o1 o2 where r: "r1 = Inr o1" "r2 = Inr o2" "out = o1 @ o2"
    by (auto split: sum.splits)
  from a r have "snd (add_ip_metadata mk dk ips) = Inr o1" by simp
  then obtain ch where ch: "chooser_for mk dk = Inr ch"
    and o1: "o1 = map (\<lambda>ip. ((dk, ip), get_metadata ch ip)) ips"
    unfolding add_ip_metadata_Inr by blast
  from add_ip_metadata_calls_ok[OF ch, of ips] a obtain d where
    c1: "c1 = MakeChooser d # map (GetMetadata d) ips" by auto
  have c1m: "filter is_MakeChooser c1 = [MakeChooser d]" by (simp add: c1 filter_empty_conv)
  have c1g: "length (filter is_GetMetadata c1) = length o1" by (simp add: c1 o1)
  from f r have "snd (FlatMapTuple (add_ip_metadata mk) G) = Inr o2" by simp
  from Cons.IH[OF this] f have ih: "length (filter is_MakeChooser c2) = length G"
    "length (filter is_GetMetadata c2) = length o2" by auto
  show ?case using ih c1m c1g by (simp add: g a f r)
qed


lemma GroupByKey_flat:
  "concat (map (\<lambda>g. map (Pair (fst g)) (snd g)) (GroupByKey ps))
     = concat (map (\<lambda>k. filter (\<lambda>kv. fst kv = k) ps) (remdups (map fst ps)))"
proof -
  have "map (Pair k) (values_of k ps) = filter (\<lambda>kv. fst kv = k) ps" for k
    unfolding values_of_def by (induction ps) auto
  then show ?thesis by (simp add: GroupByKey_def comp_def)
qed

lemma GroupByKey_mset:
  "mset (concat (map (\<lambda>g. map (Pair (fst g)) (snd g)) (GroupByKey ps))) = mset ps"
  unfolding GroupByKey_flat by (rule mset_concat_filter_keys) auto

lemma GroupByKey_keys: "map fst (GroupByKey ps) = remdups (map fst ps)"
  by (simp add: GroupByKey_def comp_def)

lemma providers_open_groups:
  "list_all (\<lambda>g. \<not> isl (chooser_for mk (fst g))) (GroupByKey (Distinct ks))
     \<longleftrightarrow> providers_open mk ks"
proof -
  have "fst ` set (GroupByKey (Distinct ks)) = fst ` set ks"
    using GroupByKey_keys[of "Distinct ks"]
    by (metis Distinct_def list.set_map set_remdups)
  then show ?thesis
    unfolding providers_open_def list_all_iff by (metis (no_types, lifting) image_iff)
qed

lemma values_of_rows_keyed:
  "values_of k (map (\<lambda>row. (key row, row)) rows) = filter (\<lambda>row. key row = k) rows"
  unfolding values_of_def by (induction rows) auto

lemma add_metadata_unfold:
  "add_metadata key mk merge rows =
     (case FlatMapTuple (add_ip_metadata mk) (GroupByKey (Distinct (map key rows))) of
        (calls, Inl e) \<Rightarrow> (calls, Inl e)
      | (calls, Inr iwm) \<Rightarrow>
          (calls, Inr (concat (map (\<lambda>k. merge k (values_of k iwm, filter (\<lambda>row. key row = k) rows))
             (remdups (map fst iwm @ map key rows))))))"
  unfolding add_metadata_def Let_def Keys_def CoGroupByKey_def
  by (simp add: comp_def values_of_rows_keyed split: prod.splits sum.splits)

lemma add_metadata_calls:
  "fst (add_metadata key mk merge rows)
     = fst (FlatMapTuple (add_ip_metadata mk) (GroupByKey (Distinct (map key rows))))"
  unfolding add_metadata_unfold by (simp split: prod.splits sum.splits)

lemma add_metadata_ok_iff:
  "(\<exists>out. snd (add_metadata key mk merge rows) = Inr out) \<longleftrightarrow> providers_open mk (map key rows)"
proof
  assume "\<exists>out. snd (add_metadata key mk merge rows) = Inr out"
  then obtain iwm where "snd (FlatMapTuple (add_ip_metadata mk) (GroupByKey (Distinct (map key rows)))) = Inr iwm"
    unfolding add_metadata_unfold by (auto split: prod.splits sum.splits)
  from FlatMapTuple_Inr[OF this] show "providers_open mk (map key rows)"
    by (simp add: providers_open_groups)
next
  assume "providers_open mk (map key rows)"
  then have "list_all (\<lambda>g. \<not> isl (chooser_for mk (fst g))) (GroupByKey (Distinct (map key rows)))"
    by (simp add: providers_open_groups)
  from FlatMapTuple_total[OF this] show "\<exists>out. snd (add_metadata key mk merge rows) = Inr out"
    unfolding add_metadata_unfold by (auto split: prod.splits sum.splits)
qed

lemma add_metadata_Inr:
  assumes "snd (add_metadata key mk merge rows) = Inr out"
  shows "\<exists>ks. distinct ks \<and> set ks = key ` set rows \<and>
           (\<forall>k \<in> set ks. \<not> isl (metadata_for mk k)) \<and>
           out = concat (map (\<lambda>k. merge k ([projr (metadata_for mk k)], filter (\<lambda>row. key row = k) rows)) ks)"
proof -
  let ?D = "Distinct (map key rows)"
  from assms obtain iwm where
    fm: "snd (FlatMapTuple (add_ip_metadata mk) (GroupByKey ?D)) = Inr iwm" and
    out: "out = concat (map (\<lambda>k. merge k (values_of k iwm, filter (\<lambda>row. key row = k) rows))
             (remdups (map fst iwm @ map key rows)))"
    unfolding add_metadata_unfold by (auto split: prod.splits sum.splits)
  from FlatMapTuple_Inr[OF fm] have
    keys: "map fst iwm = concat (map (\<lambda>g. map (Pair (fst g)) (snd g)) (GroupByKey ?D))" and
    mds: "\<forall>km \<in> set iwm. metadata_for mk (fst km) = Inr (snd km)" by auto
  have ms: "mset (map fst iwm) = mset ?D" unfolding keys by (rule GroupByKey_mset)
  have dist: "distinct (map fst iwm)"
    using ms by (metis Distinct_def distinct_remdups mset_eq_imp_distinct_iff)
  have sets: "set (map fst iwm) = key ` set rows"
    using mset_eq_setD[OF ms] by (simp add: Distinct_def)
  let ?ks = "remdups (map fst iwm @ map key rows)"
  have ks_set: "set ?ks = key ` set rows" using sets by auto
  have each: "values_of k iwm = [projr (metadata_for mk k)] \<and> \<not> isl (metadata_for mk k)"
    if "k \<in> set ?ks" for k
  proof -
    from that ks_set sets have "k \<in> set (map fst iwm)" by simp
    then obtain m where km: "(k, m) \<in> set iwm" by auto
    with mds have m: "metadata_for mk k = Inr m" by auto
    from filter_distinct_key[OF dist km] have "values_of k iwm = [m]"
      by (simp add: values_of_def)
    with m show ?thesis by simp
  qed
  have "map (\<lambda>k. merge k (values_of k iwm, filter (\<lambda>row. key row = k) rows)) ?ks
      = map (\<lambda>k. merge k ([projr (metadata_for mk k)], filter (\<lambda>row. key row = k) rows)) ?ks"
    by (rule map_cong[OF refl]) (simp add: each)
  with out have "out = concat (map (\<lambda>k. merge k ([projr (metadata_for mk k)], filter (\<lambda>row. key row = k) rows)) ?ks)"
    by simp
  moreover have "distinct ?ks" by simp
  ultimately show ?thesis using ks_set each by blast
qed

subsection \<open>Rows and metadata after the join\<close>

lemma make_date_ip_key_merge [simp]:
  "make_date_ip_key (merge_ip_metadata m row) = make_date_ip_key row"
  by (simp add: make_date_ip_key_def merge_ip_metadata_def)

lemma row_metadata_merge [simp]: "row_metadata (merge_ip_metadata m row) = m"
  by (simp add: row_metadata_def merge_ip_metadata_def)

lemma without_metadata_merge [simp]:
  "without_metadata (merge_ip_metadata m row) = without_metadata row"
  by (simp add: without_metadata_def merge_ip_metadata_def)

lemma merge_metadata_with_rows_one:
  "merge_metadata_with_rows k ([m], rows) = map (merge_ip_metadata m) rows"
  by (simp add: merge_metadata_with_rows_def)

lemma add_metadata_spec_Inr:
  assumes "snd (add_metadata make_date_ip_key mk merge_metadata_with_rows rows) = Inr out"
  shows "\<exists>ks. distinct ks \<and> set ks = make_date_ip_key ` set rows \<and>
           (\<forall>k \<in> set ks. \<not> isl (metadata_for mk k)) \<and>
           out = concat (map (\<lambda>k. map (merge_ip_metadata (projr (metadata_for mk k)))
                    (filter (\<lambda>row. make_date_ip_key row = k) rows)) ks)"
  using add_metadata_Inr[OF assms] by (simp add: merge_metadata_with_rows_one)

lemma add_metadata_spec_rows:
  assumes "snd (add_metadata make_date_ip_key mk merge_metadata_with_rows rows) = Inr out"
  shows "mset out = mset (map (\<lambda>row. merge_ip_metadata (projr (metadata_for mk (make_date_ip_key row))) row) rows)"
    and "\<forall>row \<in> set rows. \<not> isl (metadata_for mk (make_date_ip_key row))"
proof -
  from add_metadata_spec_Inr[OF assms] obtain ks where
    ks: "distinct ks" "set ks = make_date_ip_key ` set rows"
      "\<forall>k \<in> set ks. \<not> isl (metadata_for mk k)" and
    out: "out = concat (map (\<lambda>k. map (merge_ip_metadata (projr (metadata_for mk k)))
                    (filter (\<lambda>row. make_date_ip_key row = k) rows)) ks)" by blast
  let ?g = "\<lambda>row. merge_ip_metadata (projr (metadata_for mk (make_date_ip_key row))) row"
  have eq: "map (merge_ip_metadata (projr (metadata_for mk k))) (filter (\<lambda>row. make_date_ip_key row = k) rows)
      = map ?g (filter (\<lambda>row. make_date_ip_key row = k) rows)" for k
    by (rule map_cong) auto
  have "out = concat (map (\<lambda>k. map ?g (filter (\<lambda>row. make_date_ip_key row = k) rows)) ks)"
    unfolding out by (simp only: eq)
  also have "\<dots> = map ?g (concat (map (\<lambda>k. filter (\<lambda>row. make_date_ip_key row = k) rows) ks))"
    by (simp add: map_concat comp_def)
  finally have "mset out = image_mset ?g (mset (concat (map (\<lambda>k. filter (\<lambda>row. make_date_ip_key row = k) rows) ks)))"
    by simp
  also have "mset (concat (map (\<lambda>k. filter (\<lambda>row. make_date_ip_key row = k) rows) ks)) = mset rows"
    by (rule mset_concat_filter_keys) (simp_all add: ks)
  finally show "mset out = mset (map ?g rows)" by simp
  show "\<forall>row \<in> set rows. \<not> isl (metadata_for mk (make_date_ip_key row))"
    using ks(2,3) by auto
qed

text \<open>
  C1. Row preservation. When a chooser is available for the date of every row, the join
  returns a collection, it has as many rows as the input, and apart from the metadata
  fields its rows are the input rows, each as often as in the input. This holds for
  every provider, also one whose lookups all miss.
\<close>

theorem add_metadata_preserves_rows:
  assumes "providers_open make_chooser (map make_date_ip_key rows)"
  shows "\<exists>out. snd (add_metadata make_date_ip_key make_chooser merge_metadata_with_rows rows) = Inr out \<and>
           length out = length rows \<and>
           mset (map without_metadata out) = mset (map without_metadata rows)"
proof -
  from assms obtain out where
    out: "snd (add_metadata make_date_ip_key make_chooser merge_metadata_with_rows rows) = Inr out"
    using add_metadata_ok_iff[of make_date_ip_key make_chooser merge_metadata_with_rows rows] by blast
  from add_metadata_spec_rows(1)[OF out] have
    m: "mset out = mset (map (\<lambda>row. merge_ip_metadata
          (projr (metadata_for make_chooser (make_date_ip_key row))) row) rows)" .
  from m have "size (mset out) = size (mset rows)" by simp
  then have len: "length out = length rows" by simp
  from m have "image_mset without_metadata (mset out) = image_mset without_metadata (mset rows)"
    by (simp add: image_mset.compositionality comp_def)
  then have "mset (map without_metadata out) = mset (map without_metadata rows)" by simp
  with out len show ?thesis by blast
qed

text \<open>
  C3. Merge consistency. Two rows of the join's output with the same (date, ip) key carry
  the same six metadata fields, and these are the one record that the chooser of the
  key's date returns for the key's ip.
\<close>

theorem add_metadata_merge_consistent:
  assumes "snd (add_metadata make_date_ip_key make_chooser merge_metadata_with_rows rows) = Inr out"
    and "r1 \<in> set out" and "r2 \<in> set out"
    and "make_date_ip_key r1 = make_date_ip_key r2"
  shows "row_metadata r1 = row_metadata r2 \<and>
         metadata_for make_chooser (make_date_ip_key r1) = Inr (row_metadata r1)"
proof -
  let ?g = "\<lambda>row. merge_ip_metadata (projr (metadata_for make_chooser (make_date_ip_key row))) row"
  have md: "metadata_for make_chooser (make_date_ip_key r) = Inr (row_metadata r)" if "r \<in> set out" for r
  proof -
    from add_metadata_spec_rows[OF assms(1)] have
      m: "mset out = mset (map ?g rows)" and
      ok: "\<forall>row \<in> set rows. \<not> isl (metadata_for make_chooser (make_date_ip_key row))" by auto
    from m have "set out = set (map ?g rows)" by (rule mset_eq_setD)
    with that obtain row where row: "row \<in> set rows" "r = ?g row" by auto
    from ok row(1) obtain x where "metadata_for make_chooser (make_date_ip_key row) = Inr x"
      by (cases "metadata_for make_chooser (make_date_ip_key row)") auto
    then show ?thesis by (simp add: row(2))
  qed
  from md[OF assms(2)] md[OF assms(3)] assms(4) show ?thesis by simp
qed

subsection \<open>Calls on the provider\<close>

lemma FlatMapTuple_calls_Cons:
  "fst (FlatMapTuple f ((k, v) # rest)) =
     fst (f k v) @ (if isl (snd (f k v)) then [] else fst (FlatMapTuple f rest))"
  by (cases "f k v"; cases "snd (f k v)"; cases "FlatMapTuple f rest"; cases "snd (FlatMapTuple f rest)")
     auto

lemma add_ip_metadata_calls:
  "fst (add_ip_metadata mk dk ips) =
     (case fromisoformat dk of
        Inl e \<Rightarrow> []
      | Inr d \<Rightarrow> MakeChooser d # (if isl (mk d) then [] else map (GetMetadata d) ips))"
  by (simp add: add_ip_metadata_def split: sum.splits)

lemma filter_MakeChooser_lookups [simp]: "filter is_MakeChooser (map (GetMetadata d) ips) = []"
  by (induction ips) auto

lemma filter_GetMetadata_lookups [simp]:
  "filter is_GetMetadata (map (GetMetadata d) ips) = map (GetMetadata d) ips"
  by (induction ips) auto

lemma FlatMapTuple_makes:
  "\<exists>n. filter is_MakeChooser (fst (FlatMapTuple (add_ip_metadata mk) G))
          = map (\<lambda>dk. MakeChooser (projr (fromisoformat dk))) (take n (map fst G)) \<and>
        (\<forall>dk \<in> set (take n (map fst G)). \<not> isl (fromisoformat dk))"
proof (induction G)
  case Nil
  then show ?case by simp
next
  case (Cons g G)
  obtain dk ips where g: "g = (dk, ips)" by (cases g)
  from Cons obtain n where n:
    "filter is_MakeChooser (fst (FlatMapTuple (add_ip_metadata mk) G))
          = map (\<lambda>dk. MakeChooser (projr (fromisoformat dk))) (take n (map fst G))"
    "\<forall>dk \<in> set (take n (map fst G)). \<not> isl (fromisoformat dk)" by blast
  show ?case
  proof (cases "fromisoformat dk")
    case (Inl e)
    then have "fst (FlatMapTuple (add_ip_metadata mk) (g # G)) = []"
      unfolding g FlatMapTuple_calls_Cons by (simp add: add_ip_metadata_def)
    then show ?thesis by (intro exI[of _ 0]) simp
  next
    case (Inr d)
    show ?thesis
    proof (cases "mk d")
      case (Inl e)
      with Inr have "fst (FlatMapTuple (add_ip_metadata mk) (g # G)) = [MakeChooser d]"
        unfolding g FlatMapTuple_calls_Cons by (simp add: add_ip_metadata_def)
      with Inr show ?thesis by (intro exI[of _ 1]) (simp add: g)
    next
      case (Inr ch)
      with \<open>fromisoformat dk = Inr d\<close> have
        "fst (FlatMapTuple (add_ip_metadata mk) (g # G))
           = MakeChooser d # map (GetMetadata d) ips @ fst (FlatMapTuple (add_ip_metadata mk) G)"
        unfolding g FlatMapTuple_calls_Cons by (simp add: add_ip_metadata_def)
      with n \<open>fromisoformat dk = Inr d\<close> show ?thesis
        by (intro exI[of _ "Suc n"]) (simp add: g)
    qed
  qed
qed

lemma FlatMapTuple_makes_distinct:
  assumes "distinct (map fst G)"
  shows "distinct (filter is_MakeChooser (fst (FlatMapTuple (add_ip_metadata mk) G)))"
    and "length (filter is_MakeChooser (fst (FlatMapTuple (add_ip_metadata mk) G))) \<le> length G"
proof -
  from FlatMapTuple_makes[of mk G] obtain n where n:
    "filter is_MakeChooser (fst (FlatMapTuple (add_ip_metadata mk) G))
          = map (\<lambda>dk. MakeChooser (projr (fromisoformat dk))) (take n (map fst G))"
    "\<forall>dk \<in> set (take n (map fst G)). \<not> isl (fromisoformat dk)" by blast
  have "inj_on (\<lambda>dk. MakeChooser (projr (fromisoformat dk))) (set (take n (map fst G)))"
  proof (rule inj_onI)
    fix a b assume a: "a \<in> set (take n (map fst G))" and b: "b \<in> set (take n (map fst G))"
      and eq: "MakeChooser (projr (fromisoformat a)) = MakeChooser (projr (fromisoformat b))"
    from a b n(2) obtain da db where "fromisoformat a = Inr da" "fromisoformat b = Inr db"
      by (metis sum.collapse(2))
    with eq show "a = b" using fromisoformat_inj by auto
  qed
  moreover have "distinct (take n (map fst G))" using assms by (rule distinct_take)
  ultimately show "distinct (filter is_MakeChooser (fst (FlatMapTuple (add_ip_metadata mk) G)))"
    unfolding n(1) by (simp add: distinct_map)
  show "length (filter is_MakeChooser (fst (FlatMapTuple (add_ip_metadata mk) G))) \<le> length G"
    unfolding n(1) by simp
qed

lemma scoped_mono: "scoped seen calls \<Longrightarrow> set seen \<subseteq> set seen' \<Longrightarrow> scoped seen' calls"
proof (induction seen calls arbitrary: seen' rule: scoped.induct)
  case (1 seen)
  then show ?case by simp
next
  case (2 seen d calls)
  from 2(3) have "set (d # seen) \<subseteq> set (d # seen')" by auto
  from 2(1)[OF _ this] 2(2) show ?case by simp
next
  case (3 seen d ip calls)
  then show ?case by auto
qed

lemma scoped_append: "scoped seen a \<Longrightarrow> scoped seen b \<Longrightarrow> scoped seen (a @ b)"
proof (induction seen a rule: scoped.induct)
  case (1 seen)
  then show ?case by simp
next
  case (2 seen d calls)
  from 2(3) have "scoped (d # seen) b" by (rule scoped_mono) auto
  with 2 show ?case by simp
next
  case (3 seen d ip calls)
  then show ?case by simp
qed

lemma scoped_lookups: "d \<in> set seen \<Longrightarrow> scoped seen (map (GetMetadata d) ips)"
  by (induction ips) auto

lemma FlatMapTuple_scoped: "scoped [] (fst (FlatMapTuple (add_ip_metadata mk) G))"
proof (induction G)
  case Nil
  then show ?case by simp
next
  case (Cons g G)
  obtain dk ips where g: "g = (dk, ips)" by (cases g)
  have one: "scoped [] (fst (add_ip_metadata mk dk ips))"
    by (simp add: add_ip_metadata_calls scoped_lookups split: sum.splits)
  show ?case unfolding g FlatMapTuple_calls_Cons
    using one Cons by (auto intro: scoped_append)
qed

lemma scoped_preceded:
  "scoped seen calls \<Longrightarrow> calls = pre @ GetMetadata d addr # post \<Longrightarrow>
     d \<in> set seen \<or> MakeChooser d \<in> set pre"
proof (induction seen calls arbitrary: pre rule: scoped.induct)
  case (1 seen)
  then show ?case by simp
next
  case (2 seen d' calls)
  from 2(3) obtain pre' where pre: "pre = MakeChooser d' # pre'" "calls = pre' @ GetMetadata d addr # post"
    by (cases pre) auto
  from 2(1)[OF _ pre(2)] 2(2) have "d \<in> set (d' # seen) \<or> MakeChooser d \<in> set pre'" by simp
  with pre(1) show ?case by auto
next
  case (3 seen d' addr' calls)
  show ?case
  proof (cases pre)
    case Nil
    with 3 show ?thesis by simp
  next
    case (Cons c pre')
    with 3(3) have "calls = pre' @ GetMetadata d addr # post" by simp
    from 3(1)[OF _ this] 3(2) Cons show ?thesis by auto
  qed
qed

lemma FlatMapTuple_lookups:
  "snd (FlatMapTuple (add_ip_metadata mk) G) = Inr out \<Longrightarrow>
     filter is_GetMetadata (fst (FlatMapTuple (add_ip_metadata mk) G))
       = map (\<lambda>k. GetMetadata (projr (fromisoformat (fst k))) (snd k)) (map fst out)"
proof (induction G arbitrary: out)
  case Nil
  then show ?case by simp
next
  case (Cons g G)
  obtain dk ips where g: "g = (dk, ips)" by (cases g)
  obtain c1 r1 where a: "add_ip_metadata mk dk ips = (c1, r1)" by (cases "add_ip_metadata mk dk ips")
  obtain c2 r2 where f: "FlatMapTuple (add_ip_metadata mk) G = (c2, r2)"
    by (cases "FlatMapTuple (add_ip_metadata mk) G")
  from Cons.prems g a f obtain o1 o2 where r: "r1 = Inr o1" "r2 = Inr o2" "out = o1 @ o2"
    by (auto split: sum.splits)
  from a r have "snd (add_ip_metadata mk dk ips) = Inr o1" by simp
  then obtain ch where ch: "chooser_for mk dk = Inr ch"
    and o1: "o1 = map (\<lambda>ip. ((dk, ip), get_metadata ch ip)) ips"
    unfolding add_ip_metadata_Inr by blast
  from add_ip_metadata_calls_ok[OF ch, of ips] a obtain d where
    d: "fromisoformat dk = Inr d" and c1: "c1 = MakeChooser d # map (GetMetadata d) ips" by auto
  from f r have "snd (FlatMapTuple (add_ip_metadata mk) G) = Inr o2" by simp
  from Cons.IH[OF this] f have ih: "filter is_GetMetadata c2
      = map (\<lambda>k. GetMetadata (projr (fromisoformat (fst k))) (snd k)) (map fst o2)" by simp
  have "filter is_GetMetadata c1 = map (\<lambda>k. GetMetadata (projr (fromisoformat (fst k))) (snd k)) (map fst o1)"
    by (simp add: c1 o1 d comp_def)
  with ih show ?case by (simp add: g a f r)
qed

lemma groups_distinct: "distinct (map fst (GroupByKey ps))"
  by (simp add: GroupByKey_keys)

lemma groups_length:
  "length (GroupByKey (Distinct (map key rows))) = card (fst ` key ` set rows)"
proof -
  have "length (GroupByKey (Distinct (map key rows))) = length (remdups (map fst (remdups (map key rows))))"
    by (simp add: GroupByKey_def Distinct_def)
  also have "\<dots> = card (set (map fst (remdups (map key rows))))"
    by (simp add: length_remdups_card_conv)
  also have "\<dots> = card (fst ` key ` set rows)" by simp
  finally show ?thesis .
qed

text \<open>
  C2. Key dedup. When the join returns, the number of \<open>get_metadata\<close> calls it made equals
  the number of distinct keys among the rows, whatever the number of rows: the calls are
  one per key of a duplicate-free list of exactly the rows' keys.
\<close>

theorem add_metadata_lookups_once_per_key:
  assumes "snd (add_metadata make_key make_chooser merge rows) = Inr out"
  shows "length (filter is_GetMetadata (fst (add_metadata make_key make_chooser merge rows)))
           = card (make_key ` set rows) \<and>
         (\<exists>ks. distinct ks \<and> set ks = make_key ` set rows \<and>
            filter is_GetMetadata (fst (add_metadata make_key make_chooser merge rows))
              = map (\<lambda>k. GetMetadata (projr (fromisoformat (fst k))) (snd k)) ks)"
proof -
  let ?D = "Distinct (map make_key rows)"
  let ?F = "FlatMapTuple (add_ip_metadata make_chooser) (GroupByKey ?D)"
  from assms obtain iwm where fm: "snd ?F = Inr iwm"
    unfolding add_metadata_unfold by (auto split: prod.splits sum.splits)
  from FlatMapTuple_Inr[OF fm] have
    keys: "map fst iwm = concat (map (\<lambda>g. map (Pair (fst g)) (snd g)) (GroupByKey ?D))" by auto
  have ms: "mset (map fst iwm) = mset ?D" unfolding keys by (rule GroupByKey_mset)
  have dist: "distinct (map fst iwm)"
    using ms by (metis Distinct_def distinct_remdups mset_eq_imp_distinct_iff)
  have sets: "set (map fst iwm) = make_key ` set rows"
    using mset_eq_setD[OF ms] by (simp add: Distinct_def)
  have calls: "filter is_GetMetadata (fst (add_metadata make_key make_chooser merge rows))
      = map (\<lambda>k. GetMetadata (projr (fromisoformat (fst k))) (snd k)) (map fst iwm)"
    unfolding add_metadata_calls by (rule FlatMapTuple_lookups[OF fm])
  have "length (map fst iwm) = card (make_key ` set rows)"
    using dist sets by (metis distinct_card)
  with calls have "length (filter is_GetMetadata (fst (add_metadata make_key make_chooser merge rows)))
           = card (make_key ` set rows)" by simp
  with dist sets calls show ?thesis by blast
qed

text \<open>
  C4. Per-date provider acquisition. In the calls of one join no \<open>make_chooser\<close> call
  is made twice for a date, there are at most as many as distinct dates among the rows
  (exactly as many when the join returns), and every \<open>get_metadata\<close> call is made on
  the chooser that an earlier \<open>make_chooser\<close> call opened for its date.
\<close>

theorem add_metadata_chooser_once_per_date:
  "distinct (filter is_MakeChooser (fst (add_metadata make_key make_chooser merge rows))) \<and>
   length (filter is_MakeChooser (fst (add_metadata make_key make_chooser merge rows)))
     \<le> card (fst ` make_key ` set rows) \<and>
   (\<forall>pre d addr post.
      fst (add_metadata make_key make_chooser merge rows) = pre @ GetMetadata d addr # post
        \<longrightarrow> MakeChooser d \<in> set pre) \<and>
   ((\<exists>out. snd (add_metadata make_key make_chooser merge rows) = Inr out) \<longrightarrow>
      length (filter is_MakeChooser (fst (add_metadata make_key make_chooser merge rows)))
        = card (fst ` make_key ` set rows))"
proof -
  let ?G = "GroupByKey (Distinct (map make_key rows))"
  let ?F = "FlatMapTuple (add_ip_metadata make_chooser) ?G"
  have calls: "fst (add_metadata make_key make_chooser merge rows) = fst ?F"
    by (rule add_metadata_calls)
  have d: "distinct (filter is_MakeChooser (fst ?F))"
    by (rule FlatMapTuple_makes_distinct(1)[OF groups_distinct])
  have l: "length (filter is_MakeChooser (fst ?F)) \<le> card (fst ` make_key ` set rows)"
    using FlatMapTuple_makes_distinct(2)[OF groups_distinct, of make_chooser "Distinct (map make_key rows)"]
    by (simp add: groups_length)
  have p: "MakeChooser d \<in> set pre" if "fst ?F = pre @ GetMetadata d addr # post" for pre d addr post
    using scoped_preceded[OF FlatMapTuple_scoped that] by simp
  have e: "length (filter is_MakeChooser (fst ?F)) = card (fst ` make_key ` set rows)"
    if "snd (add_metadata make_key make_chooser merge rows) = Inr out" for out
  proof -
    from that obtain iwm where fm: "snd ?F = Inr iwm"
      unfolding add_metadata_unfold by (auto split: prod.splits sum.splits)
    from FlatMapTuple_calls_ok[OF fm] show ?thesis by (simp add: groups_length)
  qed
  show ?thesis unfolding calls using d l p e by blast
qed

subsection \<open>The join on the example rows\<close>

lemma example_keys_card: "card (make_date_ip_key ` set example_rows) = 2"
  by code_simp

lemma example_rows_length: "length example_rows = 3"
  by code_simp

lemma example_same_key:
  "make_date_ip_key (merge_ip_metadata cloudflare_metadata (example_row ''2020-08-23'' ''1.1.1.1'' ''a.com''))
     = make_date_ip_key (merge_ip_metadata cloudflare_metadata (example_row ''2020-08-23'' ''1.1.1.1'' ''b.com''))"
  by code_simp

lemma example_join:
  "snd (add_metadata make_date_ip_key example_factory merge_metadata_with_rows example_rows)
   = Inr [merge_ip_metadata cloudflare_metadata (example_row ''2020-08-23'' ''1.1.1.1'' ''a.com''),
      merge_ip_metadata cloudflare_metadata (example_row ''2020-08-23'' ''1.1.1.1'' ''b.com''),
      merge_ip_metadata no_metadata (example_row ''2020-08-24'' ''9.9.9.9'' ''a.com'')]"
  by code_simp

lemma example_join_calls:
  "fst (add_metadata make_date_ip_key example_factory merge_metadata_with_rows example_rows)
   = [MakeChooser \<lparr>year = 2020, month = 8, day = 23\<rparr>] @
     GetMetadata \<lparr>year = 2020, month = 8, day = 23\<rparr> ''1.1.1.1'' #
     [MakeChooser \<lparr>year = 2020, month = 8, day = 24\<rparr>,
      GetMetadata \<lparr>year = 2020, month = 8, day = 24\<rparr> ''9.9.9.9'']"
  by code_simp

theorem add_metadata_preserves_rows_witness:
  "providers_open missing_factory (map make_date_ip_key example_rows) \<and>
   (\<exists>out. snd (add_metadata make_date_ip_key missing_factory merge_metadata_with_rows example_rows)
            = Inr out \<and>
          length out = length example_rows \<and>
          mset (map without_metadata out) = mset (map without_metadata example_rows))"
proof -
  have h: "providers_open missing_factory (map make_date_ip_key example_rows)"
    by code_simp
  from h add_metadata_preserves_rows[OF h] show ?thesis by (rule conjI)
qed

theorem add_metadata_merge_consistent_witness:
  "snd (add_metadata make_date_ip_key example_factory merge_metadata_with_rows example_rows)
   = Inr [merge_ip_metadata cloudflare_metadata (example_row ''2020-08-23'' ''1.1.1.1'' ''a.com''),
      merge_ip_metadata cloudflare_metadata (example_row ''2020-08-23'' ''1.1.1.1'' ''b.com''),
      merge_ip_metadata no_metadata (example_row ''2020-08-24'' ''9.9.9.9'' ''a.com'')] \<and>
   make_date_ip_key (merge_ip_metadata cloudflare_metadata (example_row ''2020-08-23'' ''1.1.1.1'' ''a.com''))
     = make_date_ip_key (merge_ip_metadata cloudflare_metadata (example_row ''2020-08-23'' ''1.1.1.1'' ''b.com'')) \<and>
   row_metadata (merge_ip_metadata cloudflare_metadata (example_row ''2020-08-23'' ''1.1.1.1'' ''a.com''))
     = row_metadata (merge_ip_metadata cloudflare_metadata (example_row ''2020-08-23'' ''1.1.1.1'' ''b.com'')) \<and>
   metadata_for example_factory
       (make_date_ip_key (merge_ip_metadata cloudflare_metadata (example_row ''2020-08-23'' ''1.1.1.1'' ''a.com'')))
     = Inr (row_metadata (merge_ip_metadata cloudflare_metadata (example_row ''2020-08-23'' ''1.1.1.1'' ''a.com'')))"
proof -
  let ?a = "merge_ip_metadata cloudflare_metadata (example_row ''2020-08-23'' ''1.1.1.1'' ''a.com'')"
  let ?b = "merge_ip_metadata cloudflare_metadata (example_row ''2020-08-23'' ''1.1.1.1'' ''b.com'')"
  let ?c = "merge_ip_metadata no_metadata (example_row ''2020-08-24'' ''9.9.9.9'' ''a.com'')"
  have a: "?a \<in> set [?a, ?b, ?c]" and b: "?b \<in> set [?a, ?b, ?c]" by simp_all
  note k = example_same_key
  note t = add_metadata_merge_consistent[OF example_join a b k]
  from t have 1: "row_metadata ?a = row_metadata ?b" by (rule conjunct1)
  from t have 2: "metadata_for example_factory (make_date_ip_key ?a) = Inr (row_metadata ?a)"
    by (rule conjunct2)
  show ?thesis by (intro conjI example_join k 1 2)
qed

theorem add_metadata_lookups_once_per_key_witness:
  "snd (add_metadata make_date_ip_key example_factory merge_metadata_with_rows example_rows)
   = Inr [merge_ip_metadata cloudflare_metadata (example_row ''2020-08-23'' ''1.1.1.1'' ''a.com''),
      merge_ip_metadata cloudflare_metadata (example_row ''2020-08-23'' ''1.1.1.1'' ''b.com''),
      merge_ip_metadata no_metadata (example_row ''2020-08-24'' ''9.9.9.9'' ''a.com'')] \<and>
   length example_rows = 3 \<and>
   card (make_date_ip_key ` set example_rows) = 2 \<and>
   length (filter is_GetMetadata
      (fst (add_metadata make_date_ip_key example_factory merge_metadata_with_rows example_rows)))
     = card (make_date_ip_key ` set example_rows)"
proof -
  note c = example_keys_card
  note l = example_rows_length
  from add_metadata_lookups_once_per_key[OF example_join]
  have "length (filter is_GetMetadata
      (fst (add_metadata make_date_ip_key example_factory merge_metadata_with_rows example_rows)))
     = card (make_date_ip_key ` set example_rows)" by (rule conjunct1)
  then show ?thesis by (intro conjI example_join l c)
qed

text \<open>
  Rows with two addresses under one date and a third address under another date: one
  chooser is opened per date, and both lookups of the first date are made on its one
  chooser.
\<close>

lemma example_two_ips_join_calls:
  "fst (add_metadata make_date_ip_key example_factory merge_metadata_with_rows example_rows_two_ips)
   = [MakeChooser \<lparr>year = 2020, month = 8, day = 23\<rparr>,
      GetMetadata \<lparr>year = 2020, month = 8, day = 23\<rparr> ''8.8.8.8''] @
     GetMetadata \<lparr>year = 2020, month = 8, day = 23\<rparr> ''1.1.1.1'' #
     [MakeChooser \<lparr>year = 2020, month = 8, day = 24\<rparr>,
      GetMetadata \<lparr>year = 2020, month = 8, day = 24\<rparr> ''9.9.9.9'']"
  by code_simp

lemma example_two_ips_join_returns:
  "\<not> isl (snd (add_metadata make_date_ip_key example_factory merge_metadata_with_rows
      example_rows_two_ips))"
  by code_simp

lemma example_two_ips_card:
  "length example_rows_two_ips = 4"
  "card (make_date_ip_key ` set example_rows_two_ips) = 3"
  "card (fst ` make_date_ip_key ` set example_rows_two_ips) = 2"
  by code_simp+

theorem add_metadata_chooser_once_per_date_witness:
  "(\<exists>out. snd (add_metadata make_date_ip_key example_factory merge_metadata_with_rows
      example_rows_two_ips) = Inr out) \<and>
   length example_rows_two_ips = 4 \<and>
   card (make_date_ip_key ` set example_rows_two_ips) = 3 \<and>
   card (fst ` make_date_ip_key ` set example_rows_two_ips) = 2 \<and>
   distinct (filter is_MakeChooser
      (fst (add_metadata make_date_ip_key example_factory merge_metadata_with_rows
         example_rows_two_ips))) \<and>
   length (filter is_MakeChooser
      (fst (add_metadata make_date_ip_key example_factory merge_metadata_with_rows
         example_rows_two_ips)))
     = card (fst ` make_date_ip_key ` set example_rows_two_ips) \<and>
   fst (add_metadata make_date_ip_key example_factory merge_metadata_with_rows example_rows_two_ips)
     = [MakeChooser \<lparr>year = 2020, month = 8, day = 23\<rparr>,
        GetMetadata \<lparr>year = 2020, month = 8, day = 23\<rparr> ''8.8.8.8''] @
       GetMetadata \<lparr>year = 2020, month = 8, day = 23\<rparr> ''1.1.1.1'' #
       [MakeChooser \<lparr>year = 2020, month = 8, day = 24\<rparr>,
        GetMetadata \<lparr>year = 2020, month = 8, day = 24\<rparr> ''9.9.9.9''] \<and>
   MakeChooser \<lparr>year = 2020, month = 8, day = 23\<rparr>
     \<in> set [MakeChooser \<lparr>year = 2020, month = 8, day = 23\<rparr>,
            GetMetadata \<lparr>year = 2020, month = 8, day = 23\<rparr> ''8.8.8.8'']"
proof -
  let ?run = "add_metadata make_date_ip_key example_factory merge_metadata_with_rows
      example_rows_two_ips"
  let ?calls = "fst ?run"
  note t = add_metadata_chooser_once_per_date[of make_date_ip_key example_factory
      merge_metadata_with_rows example_rows_two_ips]
  have ok: "\<exists>out. snd ?run = Inr out"
    using example_two_ips_join_returns by (cases "snd ?run") simp_all
  from t have d: "distinct (filter is_MakeChooser ?calls)" by (rule conjunct1)
  from t have "(\<exists>out. snd ?run = Inr out) \<longrightarrow>
      length (filter is_MakeChooser ?calls) = card (fst ` make_date_ip_key ` set example_rows_two_ips)"
    by (rule conjunct2[OF conjunct2[OF conjunct2]])
  with ok have n: "length (filter is_MakeChooser ?calls)
      = card (fst ` make_date_ip_key ` set example_rows_two_ips)"
    by (rule rev_mp)
  from t have "\<forall>pre d addr post. ?calls = pre @ GetMetadata d addr # post \<longrightarrow> MakeChooser d \<in> set pre"
    by (rule conjunct1[OF conjunct2[OF conjunct2]])
  then have "?calls = [MakeChooser \<lparr>year = 2020, month = 8, day = 23\<rparr>,
        GetMetadata \<lparr>year = 2020, month = 8, day = 23\<rparr> ''8.8.8.8''] @
       GetMetadata \<lparr>year = 2020, month = 8, day = 23\<rparr> ''1.1.1.1'' #
       [MakeChooser \<lparr>year = 2020, month = 8, day = 24\<rparr>,
        GetMetadata \<lparr>year = 2020, month = 8, day = 24\<rparr> ''9.9.9.9'']
     \<longrightarrow> MakeChooser \<lparr>year = 2020, month = 8, day = 23\<rparr>
       \<in> set [MakeChooser \<lparr>year = 2020, month = 8, day = 23\<rparr>,
              GetMetadata \<lparr>year = 2020, month = 8, day = 23\<rparr> ''8.8.8.8'']"
    by (elim allE)
  then have m: "MakeChooser \<lparr>year = 2020, month = 8, day = 23\<rparr>
     \<in> set [MakeChooser \<lparr>year = 2020, month = 8, day = 23\<rparr>,
            GetMetadata \<lparr>year = 2020, month = 8, day = 23\<rparr> ''8.8.8.8'']"
    using example_two_ips_join_calls by (rule mp)
  show ?thesis by (intro conjI ok example_two_ips_card d n example_two_ips_join_calls m)
qed

section \<open>Properties of the flattener\<close>

lemma json_decode_warning_names:
  "contains filename (json_decode_warning e filename line) \<and>
   contains line (json_decode_warning e filename line)"
proof -
  have "json_decode_warning e filename line
      = (''JSONDecodeError: '' @ e @ [newline] @ ''Filename: '') @ filename @ ([newline] @ line @ [newline])"
    by (simp add: json_decode_warning_def)
  then have 1: "contains filename (json_decode_warning e filename line)"
    by (simp only: contains_mid)
  have "json_decode_warning e filename line
      = (''JSONDecodeError: '' @ e @ [newline] @ ''Filename: '' @ filename @ [newline]) @ line @ [newline]"
    by (simp add: json_decode_warning_def)
  then have 2: "contains line (json_decode_warning e filename line)"
    by (simp only: contains_mid)
  from 1 2 show ?thesis ..
qed

lemma process_draws_only:
  assumes "uuid_draws st1 = uuid_draws st2"
  shows "fst (process self st1 x) = fst (process self st2 x) \<and>
         uuid_draws (snd (process self st1 x)) = uuid_draws (snd (process self st2 x))"
  using assms
  by (cases x) (simp add: process_def logging_warning_def Let_def split: loaded.splits)

lemma ParDo_draws_only:
  "uuid_draws st1 = uuid_draws st2 \<Longrightarrow>
     fst (ParDo (process self) st1 xs) = fst (ParDo (process self) st2 xs)"
proof (induction xs arbitrary: st1 st2)
  case Nil
  then show ?case by simp
next
  case (Cons x xs)
  obtain r1 s1 where p1: "process self st1 x = (r1, s1)" by (cases "process self st1 x")
  obtain r2 s2 where p2: "process self st2 x = (r2, s2)" by (cases "process self st2 x")
  from process_draws_only[OF Cons.prems, of self x] p1 p2 have r: "r1 = r2" and s: "uuid_draws s1 = uuid_draws s2"
    by simp_all
  from Cons.IH[OF s] have "fst (ParDo (process self) s1 xs) = fst (ParDo (process self) s2 xs)" .
  then show ?case
    by (cases r2; cases "ParDo (process self) s1 xs"; cases "ParDo (process self) s2 xs")
       (auto simp: p1 p2 r split: sum.splits)
qed

lemma ParDo_skip:
  assumes "f st x = (Inr [], st')"
  shows "ParDo f st (x # xs) = ParDo f st' xs"
  using assms by (cases "ParDo f st' xs"; cases "fst (ParDo f st' xs)") auto

lemma ParDo_cong_tail:
  assumes "\<And>st'. fst (ParDo f st' ys) = fst (ParDo f st' zs)"
  shows "fst (ParDo f st (xs @ ys)) = fst (ParDo f st (xs @ zs))"
proof (induction xs arbitrary: st)
  case Nil
  then show ?case using assms by simp
next
  case (Cons x xs)
  obtain r s where p: "f st x = (r, s)" by (cases "f st x")
  from Cons[of s] show ?case
    by (cases r; cases "ParDo f s (xs @ ys)"; cases "ParDo f s (xs @ zs)")
       (auto simp: p split: sum.splits)
qed

text \<open>
  C6, in the form the code satisfies. Malformed-line tolerance. For a line on which
  \<open>json.loads\<close> raises \<open>JSONDecodeError\<close>, \<open>process\<close> returns no rows and no exception and
  appends one warning whose message contains the file name and the line; a \<open>ParDo\<close> goes
  on with the next line from the state that has this warning, and its rows are those of
  the other lines, as if the malformed line were not there.
\<close>

theorem process_malformed_line:
  assumes "json_loads self line = JSONDecodeError e"
  shows "process self st (filepath, line)
           = (Inr [], st\<lparr>log := log st @ [Warning (json_decode_warning e filepath line)]\<rparr>) \<and>
         contains filepath (json_decode_warning e filepath line) \<and>
         contains line (json_decode_warning e filepath line) \<and>
         ParDo (process self) st ((filepath, line) # after)
           = ParDo (process self)
               (st\<lparr>log := log st @ [Warning (json_decode_warning e filepath line)]\<rparr>) after \<and>
         fst (ParDo (process self) st (before @ (filepath, line) # after))
           = fst (ParDo (process self) st (before @ after))"
proof -
  have p: "process self st' (filepath, line)
      = (Inr [], st'\<lparr>log := log st' @ [Warning (json_decode_warning e filepath line)]\<rparr>)" for st'
    using assms by (simp add: process_def logging_warning_def)
  have step: "ParDo (process self) st' ((filepath, line) # after)
      = ParDo (process self)
          (st'\<lparr>log := log st' @ [Warning (json_decode_warning e filepath line)]\<rparr>) after" for st'
    by (rule ParDo_skip) (rule p)
  have skip: "fst (ParDo (process self) st' ((filepath, line) # after))
      = fst (ParDo (process self) st' after)" for st'
    unfolding step by (rule ParDo_draws_only) simp
  have "fst (ParDo (process self) st (before @ (filepath, line) # after))
           = fst (ParDo (process self) st (before @ after))"
    by (rule ParDo_cong_tail) (rule skip)
  with p[of st] step[of st] json_decode_warning_names[of filepath e line] show ?thesis by blast
qed

lemma example_malformed:
  "json_loads example_flatten ''not json''
     = JSONDecodeError ''Expecting value: line 1 column 1 (char 0)''"
  by code_simp

text \<open>
  Three lines of one file, the second malformed: the stage yields the two rows of the
  first line and the two rows of the third, and its log has the one warning.
\<close>

theorem process_malformed_line_witness:
  "json_loads example_flatten ''not json''
     = JSONDecodeError ''Expecting value: line 1 column 1 (char 0)'' \<and>
   process example_flatten initial_state (example_file, ''not json'')
     = (Inr [], initial_state\<lparr>log := log initial_state @
          [Warning (json_decode_warning ''Expecting value: line 1 column 1 (char 0)''
             example_file ''not json'')]\<rparr>) \<and>
   contains example_file
     (json_decode_warning ''Expecting value: line 1 column 1 (char 0)'' example_file ''not json'') \<and>
   contains ''not json''
     (json_decode_warning ''Expecting value: line 1 column 1 (char 0)'' example_file ''not json'') \<and>
   ParDo (process example_flatten) initial_state
       ((example_file, ''not json'') # [(example_file, ''{}'')])
     = ParDo (process example_flatten)
         (initial_state\<lparr>log := log initial_state @
            [Warning (json_decode_warning ''Expecting value: line 1 column 1 (char 0)''
               example_file ''not json'')]\<rparr>)
         [(example_file, ''{}'')] \<and>
   fst (ParDo (process example_flatten) initial_state
          ([(example_file, ''{}'')] @ (example_file, ''not json'') # [(example_file, ''{}'')]))
     = fst (ParDo (process example_flatten) initial_state
          ([(example_file, ''{}'')] @ [(example_file, ''{}'')])) \<and>
   ParDo (process example_flatten) initial_state
       [(example_file, ''{}''), (example_file, ''not json''), (example_file, ''{}'')]
     = (Inr [(example_row ''2020-08-23'' ''1.1.1.1'' ''a.com'')\<lparr>measurement_id := ''a''\<rparr>,
             (example_row ''2020-08-23'' ''1.1.1.1'' ''a.com'')\<lparr>measurement_id := ''a''\<rparr>,
             (example_row ''2020-08-23'' ''1.1.1.1'' ''a.com'')\<lparr>measurement_id := ''aa''\<rparr>,
             (example_row ''2020-08-23'' ''1.1.1.1'' ''a.com'')\<lparr>measurement_id := ''aa''\<rparr>],
        \<lparr>log = [Warning (json_decode_warning ''Expecting value: line 1 column 1 (char 0)''
                   example_file ''not json'')],
         uuid_draws = 2\<rparr>)"
proof -
  have run: "ParDo (process example_flatten) initial_state
       [(example_file, ''{}''), (example_file, ''not json''), (example_file, ''{}'')]
     = (Inr [(example_row ''2020-08-23'' ''1.1.1.1'' ''a.com'')\<lparr>measurement_id := ''a''\<rparr>,
             (example_row ''2020-08-23'' ''1.1.1.1'' ''a.com'')\<lparr>measurement_id := ''a''\<rparr>,
             (example_row ''2020-08-23'' ''1.1.1.1'' ''a.com'')\<lparr>measurement_id := ''aa''\<rparr>,
             (example_row ''2020-08-23'' ''1.1.1.1'' ''a.com'')\<lparr>measurement_id := ''aa''\<rparr>],
        \<lparr>log = [Warning (json_decode_warning ''Expecting value: line 1 column 1 (char 0)''
                   example_file ''not json'')],
         uuid_draws = 2\<rparr>)"
    by code_simp
  note t = process_malformed_line[OF example_malformed, of initial_state example_file
      "[(example_file, ''{}'')]" "[(example_file, ''{}'')]"]
  from t have a: "process example_flatten initial_state (example_file, ''not json'')
     = (Inr [], initial_state\<lparr>log := log initial_state @
          [Warning (json_decode_warning ''Expecting value: line 1 column 1 (char 0)''
             example_file ''not json'')]\<rparr>)" by (rule conjunct1)
  note t2 = t[THEN conjunct2]
  note t3 = t2[THEN conjunct2]
  note t4 = t3[THEN conjunct2]
  from conjI[OF example_malformed conjI[OF a conjI[OF t2[THEN conjunct1] conjI[OF t3[THEN conjunct1]
    conjI[OF t4[THEN conjunct1] conjI[OF t4[THEN conjunct2] run]]]]]]
  show ?thesis .
qed

text \<open>
  For every line that is not parseable the statement fails. On a line of 1100 opening
  brackets \<open>json.loads\<close> raises \<open>RecursionError\<close>, which the \<open>except\<close> clause does not
  catch: \<open>process\<close> raises, logs nothing, and the stage fails before the next line.
\<close>

theorem process_malformed_line_counterexample:
  "json_loads example_flatten deeply_nested = Raised RecursionError \<and>
   process example_flatten initial_state (example_file, deeply_nested)
     = (Inl RecursionError, initial_state) \<and>
   log (snd (process example_flatten initial_state (example_file, deeply_nested))) = [] \<and>
   fst (ParDo (process example_flatten) initial_state
          [(example_file, deeply_nested), (example_file, ''{}'')]) = Inl RecursionError"
  by (simp add: process_def example_flatten_def example_flatten_base_def
      with_spec_extractors_def example_json_loads_def initial_state_def)

lemma with_spec_extractors_fields [simp]:
  "json_loads (with_spec_extractors self sat hyp) = json_loads self"
  "uuid4_hex (with_spec_extractors self sat hyp) = uuid4_hex self"
  "SATELLITE_PATH_COMPONENT (with_spec_extractors self sat hyp) = SATELLITE_PATH_COMPONENT self"
  "process_satellite (with_spec_extractors self sat hyp) = extractor_of sat"
  "process_hyperquack (with_spec_extractors self sat hyp) = extractor_of hyp"
  by (simp_all add: with_spec_extractors_def)

lemma extractor_of_ids:
  "extractor_of variant_rows filepath scan mid = Inr rows \<Longrightarrow>
     \<forall>row \<in> set rows. measurement_id row = mid"
  by (auto simp: extractor_of_def)

lemma process_parsed:
  assumes "json_loads self line = Parsed scan"
  shows "\<exists>rows. process (with_spec_extractors self sat hyp) st (filepath, line)
             = (Inr rows, st\<lparr>uuid_draws := Suc (uuid_draws st)\<rparr>) \<and>
           (\<forall>row \<in> set rows. measurement_id row = uuid4_hex self (uuid_draws st)) \<and>
           (rows = [] \<longleftrightarrow>
              (if contains (SATELLITE_PATH_COMPONENT self) filepath then sat filepath scan
               else hyp filepath scan) = [])"
proof (cases "contains (SATELLITE_PATH_COMPONENT self) filepath")
  case True
  with assms have "process (with_spec_extractors self sat hyp) st (filepath, line)
      = (extractor_of sat filepath scan (uuid4_hex self (uuid_draws st)),
         st\<lparr>uuid_draws := Suc (uuid_draws st)\<rparr>)"
    by (simp add: process_def Let_def)
  with True show ?thesis by (simp add: extractor_of_def)
next
  case False
  with assms have "process (with_spec_extractors self sat hyp) st (filepath, line)
      = (extractor_of hyp filepath scan (uuid4_hex self (uuid_draws st)),
         st\<lparr>uuid_draws := Suc (uuid_draws st)\<rparr>)"
    by (simp add: process_def Let_def)
  with False show ?thesis by (simp add: extractor_of_def)
qed

lemma process_draws_mono: "uuid_draws st \<le> uuid_draws (snd (process self st x))"
  by (cases x) (simp add: process_def logging_warning_def Let_def split: loaded.splits)

lemma ParDo_draws_mono: "uuid_draws st \<le> uuid_draws (snd (ParDo (process self) st xs))"
proof (induction xs arbitrary: st)
  case Nil
  then show ?case by simp
next
  case (Cons x xs)
  obtain r s where p: "process self st x = (r, s)" by (cases "process self st x")
  from process_draws_mono[of st self x] p have 1: "uuid_draws st \<le> uuid_draws s" by simp
  from Cons[of s] have 2: "uuid_draws s \<le> uuid_draws (snd (ParDo (process self) s xs))" .
  show ?case
  proof (cases r)
    case (Inl e)
    with p 1 show ?thesis by simp
  next
    case (Inr out)
    with p 1 2 show ?thesis
      by (cases "ParDo (process self) s xs"; cases "fst (ParDo (process self) s xs)") auto
  qed
qed

text \<open>With extractors of the modelled form, the generator has no part in what a stage
  leaves in the state.\<close>

lemma redraw_fields [simp]:
  "json_loads (redraw fl i a j b) = json_loads fl"
  "uuid4_hex (redraw fl i a j b) = (uuid4_hex fl)(i := a, j := b)"
  "SATELLITE_PATH_COMPONENT (redraw fl i a j b) = SATELLITE_PATH_COMPONENT fl"
  "process_satellite (redraw fl i a j b) = process_satellite fl"
  "process_hyperquack (redraw fl i a j b) = process_hyperquack fl"
  by (simp_all add: redraw_def)

lemma redraw_with_spec_extractors:
  "redraw (with_spec_extractors self sat hyp) i a j b
     = with_spec_extractors (redraw self i a j b) sat hyp"
  by (simp add: redraw_def with_spec_extractors_def)

lemma process_state_generator:
  assumes "json_loads self = json_loads self'"
    and "SATELLITE_PATH_COMPONENT self = SATELLITE_PATH_COMPONENT self'"
  shows "snd (process (with_spec_extractors self sat hyp) st x)
       = snd (process (with_spec_extractors self' sat hyp) st x) \<and>
     isl (fst (process (with_spec_extractors self sat hyp) st x))
       = isl (fst (process (with_spec_extractors self' sat hyp) st x))"
  using assms
  by (cases x) (simp add: process_def Let_def extractor_of_def split: loaded.splits)

lemma ParDo_state_generator:
  assumes "json_loads self = json_loads self'"
    and "SATELLITE_PATH_COMPONENT self = SATELLITE_PATH_COMPONENT self'"
  shows "snd (ParDo (process (with_spec_extractors self sat hyp)) st xs)
       = snd (ParDo (process (with_spec_extractors self' sat hyp)) st xs) \<and>
     isl (fst (ParDo (process (with_spec_extractors self sat hyp)) st xs))
       = isl (fst (ParDo (process (with_spec_extractors self' sat hyp)) st xs))"
proof (induction xs arbitrary: st)
  case Nil
  show ?case by simp
next
  case (Cons x xs)
  let ?f = "process (with_spec_extractors self sat hyp)"
  let ?g = "process (with_spec_extractors self' sat hyp)"
  obtain r s where p: "?f st x = (r, s)" by (cases "?f st x")
  obtain r' s' where q: "?g st x = (r', s')" by (cases "?g st x")
  from process_state_generator[OF assms, of sat hyp st x] p q
  have s: "s = s'" and r: "isl r = isl r'" by simp_all
  show ?case
  proof (cases r)
    case (Inl e)
    with r obtain e' where "r' = Inl e'" by (cases r') auto
    with Inl p q s show ?thesis by simp
  next
    case (Inr out)
    with r obtain out' where r': "r' = Inr out'" by (cases r') auto
    obtain u t where pu: "ParDo ?f s xs = (u, t)" by (cases "ParDo ?f s xs")
    obtain u' t' where qu: "ParDo ?g s xs = (u', t')" by (cases "ParDo ?g s xs")
    from Cons[of s] pu qu have "t = t'" "isl u = isl u'" by simp_all
    with Inr r' p q s pu qu show ?thesis by (cases u; cases u') auto
  qed
qed

lemma ids_collide_redraw:
  assumes l1: "json_loads self line1 = Parsed scan1" and l2: "json_loads self line2 = Parsed scan2"
    and p1: "process (with_spec_extractors self sat hyp) st (file1, line1) = (Inr rows1, st1)"
    and p2: "process (with_spec_extractors self sat hyp)
        (snd (ParDo (process (with_spec_extractors self sat hyp)) st1 between)) (file2, line2)
      = (Inr rows2, st3)"
  shows "ids_collide
      (redraw (with_spec_extractors self sat hyp) (uuid_draws st) a
         (uuid_draws (snd (ParDo (process (with_spec_extractors self sat hyp)) st1 between))) b)
      st (file1, line1) between (file2, line2)
    \<longleftrightarrow> rows1 \<noteq> [] \<and> rows2 \<noteq> [] \<and> a = b"
proof -
  let ?fl = "with_spec_extractors self sat hyp"
  let ?st2 = "snd (ParDo (process ?fl) st1 between)"
  let ?i = "uuid_draws st" and ?j = "uuid_draws ?st2"
  let ?self' = "redraw self ?i a ?j b"
  let ?fl' = "with_spec_extractors ?self' sat hyp"
  have fl': "redraw ?fl ?i a ?j b = ?fl'" by (rule redraw_with_spec_extractors)
  have l1': "json_loads ?self' line1 = Parsed scan1" and l2': "json_loads ?self' line2 = Parsed scan2"
    using l1 l2 by simp_all
  from process_parsed[OF l1, of sat hyp st file1] p1
  have st1: "st1 = st\<lparr>uuid_draws := Suc (uuid_draws st)\<rparr>"
    and e1: "rows1 = [] \<longleftrightarrow> (if contains (SATELLITE_PATH_COMPONENT self) file1 then sat file1 scan1
               else hyp file1 scan1) = []" by auto
  from process_parsed[OF l2, of sat hyp ?st2 file2] p2
  have e2: "rows2 = [] \<longleftrightarrow> (if contains (SATELLITE_PATH_COMPONENT self) file2 then sat file2 scan2
               else hyp file2 scan2) = []" by auto
  from ParDo_draws_mono[of st1 ?fl between] have lt: "?i < ?j" unfolding st1 by simp
  from process_parsed[OF l1', of sat hyp st file1] obtain rows1' where
    q1: "process ?fl' st (file1, line1) = (Inr rows1', st1)"
    and i1: "\<forall>row \<in> set rows1'. measurement_id row = uuid4_hex ?self' ?i"
    and f1: "rows1' = [] \<longleftrightarrow> (if contains (SATELLITE_PATH_COMPONENT ?self') file1 then sat file1 scan1
               else hyp file1 scan1) = []" unfolding st1 by blast
  have same: "snd (ParDo (process ?fl') st1 between) = ?st2"
    using ParDo_state_generator[of ?self' self sat hyp st1 between] by simp
  from process_parsed[OF l2', of sat hyp ?st2 file2] obtain rows2' st3' where
    q2: "process ?fl' ?st2 (file2, line2) = (Inr rows2', st3')"
    and i2: "\<forall>row \<in> set rows2'. measurement_id row = uuid4_hex ?self' ?j"
    and f2: "rows2' = [] \<longleftrightarrow> (if contains (SATELLITE_PATH_COMPONENT ?self') file2 then sat file2 scan2
               else hyp file2 scan2) = []" by blast
  from lt have a: "uuid4_hex ?self' ?i = a" and b: "uuid4_hex ?self' ?j = b" by simp_all
  from f1 e1 have n1: "rows1' = [] \<longleftrightarrow> rows1 = []" by simp
  from f2 e2 have n2: "rows2' = [] \<longleftrightarrow> rows2 = []" by simp
  have "ids_collide ?fl' st (file1, line1) between (file2, line2)
      \<longleftrightarrow> (\<exists>r1 \<in> set rows1'. \<exists>r2 \<in> set rows2'. measurement_id r1 = measurement_id r2)"
    unfolding ids_collide_def q1 prod.case same q2 by simp
  also have "\<dots> \<longleftrightarrow> rows1' \<noteq> [] \<and> rows2' \<noteq> [] \<and> a = b"
  proof
    assume "\<exists>r1 \<in> set rows1'. \<exists>r2 \<in> set rows2'. measurement_id r1 = measurement_id r2"
    then obtain r1 r2 where r: "r1 \<in> set rows1'" "r2 \<in> set rows2'"
      "measurement_id r1 = measurement_id r2" by blast
    with i1 i2 a b have "a = b" by auto
    with r show "rows1' \<noteq> [] \<and> rows2' \<noteq> [] \<and> a = b" by auto
  next
    assume h: "rows1' \<noteq> [] \<and> rows2' \<noteq> [] \<and> a = b"
    then obtain r1 r2 where r: "r1 \<in> set rows1'" "r2 \<in> set rows2'"
      by (meson last_in_set)
    with i1 i2 a b h have "measurement_id r1 = measurement_id r2" by auto
    with r show "\<exists>r1 \<in> set rows1'. \<exists>r2 \<in> set rows2'. measurement_id r1 = measurement_id r2"
      by blast
  qed
  finally show ?thesis unfolding fl' n1 n2 .
qed

lemma card_collisions:
  assumes "finite U" and "\<And>a b. P a b \<Longrightarrow> a = b"
  shows "card {(a, b). a \<in> U \<and> b \<in> U \<and> P a b} \<le> card U"
proof -
  have "{(a, b). a \<in> U \<and> b \<in> U \<and> P a b} \<subseteq> (\<lambda>a. (a, a)) ` U"
    using assms(2) by auto
  then have "card {(a, b). a \<in> U \<and> b \<in> U \<and> P a b} \<le> card ((\<lambda>a. (a, a)) ` U)"
    using assms(1) by (intro card_mono) auto
  also have "\<dots> \<le> card U" using assms(1) by (rule card_image_le)
  finally show ?thesis .
qed

text \<open>
  C7. Measurement grouping. For a line that parses, \<open>process\<close> draws exactly one
  identifier and every row it yields carries it. For two such lines processed one after
  the other (with any lines between them) the two identifiers come from different draws,
  and a row of the first line and a row of the second have the same identifier only if
  the two draws return the same value. Counted over the values the two draws can take:
  of the pairs of values from a finite set \<open>U\<close>, which are \<open>card U\<close> times \<open>card U\<close>, at most
  \<open>card U\<close> give the two lines a common identifier, namely pairs of equal values. With
  draws uniform and independent over the \<open>2 ^ 122\<close> values of \<open>uuid4\<close> two lines share
  an identifier with probability at most \<open>1 / 2 ^ 122\<close>.
\<close>

theorem process_measurement_id:
  assumes "json_loads self line1 = Parsed scan1" and "json_loads self line2 = Parsed scan2"
  shows "let flattener = with_spec_extractors self satellite_rows hyperquack_rows;
             (out1, st1) = process flattener st (file1, line1);
             st2 = snd (ParDo (process flattener) st1 between);
             (out2, st3) = process flattener st2 (file2, line2)
         in \<exists>rows1 rows2.
              out1 = Inr rows1 \<and> out2 = Inr rows2 \<and>
              uuid_draws st1 = Suc (uuid_draws st) \<and> uuid_draws st3 = Suc (uuid_draws st2) \<and>
              uuid_draws st < uuid_draws st2 \<and>
              (\<forall>r \<in> set rows1. measurement_id r = uuid4_hex self (uuid_draws st)) \<and>
              (\<forall>r \<in> set rows2. measurement_id r = uuid4_hex self (uuid_draws st2)) \<and>
              (\<forall>r1 \<in> set rows1. \<forall>r2 \<in> set rows2.
                 measurement_id r1 = measurement_id r2
                   \<longleftrightarrow> uuid4_hex self (uuid_draws st) = uuid4_hex self (uuid_draws st2)) \<and>
              (\<forall>a b. ids_collide (redraw flattener (uuid_draws st) a (uuid_draws st2) b)
                        st (file1, line1) between (file2, line2)
                      \<longleftrightarrow> rows1 \<noteq> [] \<and> rows2 \<noteq> [] \<and> a = b) \<and>
              (finite U \<longrightarrow>
                 card {(a, b). a \<in> U \<and> b \<in> U \<and>
                         ids_collide (redraw flattener (uuid_draws st) a (uuid_draws st2) b)
                           st (file1, line1) between (file2, line2)}
                   \<le> card U)"
proof -
  let ?fl = "with_spec_extractors self satellite_rows hyperquack_rows"
  from process_parsed[OF assms(1), of satellite_rows hyperquack_rows st file1] obtain rows1 where
    p1: "process ?fl st (file1, line1) = (Inr rows1, st\<lparr>uuid_draws := Suc (uuid_draws st)\<rparr>)" and
    i1: "\<forall>row \<in> set rows1. measurement_id row = uuid4_hex self (uuid_draws st)" by blast
  let ?st1 = "st\<lparr>uuid_draws := Suc (uuid_draws st)\<rparr>"
  let ?st2 = "snd (ParDo (process ?fl) ?st1 between)"
  from process_parsed[OF assms(2), of satellite_rows hyperquack_rows ?st2 file2] obtain rows2 where
    p2: "process ?fl ?st2 (file2, line2) = (Inr rows2, ?st2\<lparr>uuid_draws := Suc (uuid_draws ?st2)\<rparr>)" and
    i2: "\<forall>row \<in> set rows2. measurement_id row = uuid4_hex self (uuid_draws ?st2)" by blast
  from ParDo_draws_mono[of ?st1 ?fl between] have lt: "uuid_draws st < uuid_draws ?st2" by simp
  have eq: "\<forall>r1 \<in> set rows1. \<forall>r2 \<in> set rows2.
      measurement_id r1 = measurement_id r2
        \<longleftrightarrow> uuid4_hex self (uuid_draws st) = uuid4_hex self (uuid_draws ?st2)"
    using i1 i2 by simp
  note col = ids_collide_redraw[OF assms p1 p2]
  have all: "\<forall>a b. ids_collide (redraw ?fl (uuid_draws st) a (uuid_draws ?st2) b)
                        st (file1, line1) between (file2, line2)
                      \<longleftrightarrow> rows1 \<noteq> [] \<and> rows2 \<noteq> [] \<and> a = b"
    using col by blast
  have cnt: "card {(a, b). a \<in> U \<and> b \<in> U \<and>
                         ids_collide (redraw ?fl (uuid_draws st) a (uuid_draws ?st2) b)
                           st (file1, line1) between (file2, line2)}
                   \<le> card U" if "finite U"
    by (rule card_collisions[OF that]) (simp add: col)
  have d1: "uuid_draws ?st1 = Suc (uuid_draws st)" by simp
  have d3: "uuid_draws (?st2\<lparr>uuid_draws := Suc (uuid_draws ?st2)\<rparr>) = Suc (uuid_draws ?st2)" by simp
  show ?thesis
    unfolding Let_def p1 prod.case p2
    using i1 i2 lt eq all cnt d1 d3 by blast
qed

lemma example_parsed: "json_loads example_flatten_base ''{}'' = Parsed ''{}''"
  by code_simp

text \<open>
  Two lines with the same text, a malformed line between them: the rows of the first
  carry the identifier of draw 0, the rows of the second that of draw 1. With the two
  draws redrawn from two values, the lines share an identifier for equal values only.
\<close>

theorem process_measurement_id_witness:
  "json_loads example_flatten_base ''{}'' = Parsed ''{}'' \<and>
   process example_flatten initial_state (example_file, ''{}'')
     = (Inr [(example_row ''2020-08-23'' ''1.1.1.1'' ''a.com'')\<lparr>measurement_id := ''a''\<rparr>,
             (example_row ''2020-08-23'' ''1.1.1.1'' ''a.com'')\<lparr>measurement_id := ''a''\<rparr>],
        \<lparr>log = [], uuid_draws = 1\<rparr>) \<and>
   uuid_draws (snd (ParDo (process example_flatten) \<lparr>log = [], uuid_draws = 1\<rparr>
                      [(example_file, ''not json'')])) = 1 \<and>
   fst (process example_flatten
          (snd (ParDo (process example_flatten) \<lparr>log = [], uuid_draws = 1\<rparr>
                  [(example_file, ''not json'')]))
          (example_file, ''{}''))
     = Inr [(example_row ''2020-08-23'' ''1.1.1.1'' ''a.com'')\<lparr>measurement_id := ''aa''\<rparr>,
            (example_row ''2020-08-23'' ''1.1.1.1'' ''a.com'')\<lparr>measurement_id := ''aa''\<rparr>] \<and>
   finite {''x'', ''y''} \<and>
   card {(a, b). a \<in> {''x'', ''y''} \<and> b \<in> {''x'', ''y''} \<and>
           ids_collide (redraw example_flatten 0 a 1 b) initial_state
             (example_file, ''{}'') [(example_file, ''not json'')] (example_file, ''{}'')}
     \<le> card {''x'', ''y''} \<and>
   ids_collide (redraw example_flatten 0 ''x'' 1 ''x'') initial_state
     (example_file, ''{}'') [(example_file, ''not json'')] (example_file, ''{}'') \<and>
   \<not> ids_collide (redraw example_flatten 0 ''x'' 1 ''y'') initial_state
     (example_file, ''{}'') [(example_file, ''not json'')] (example_file, ''{}'')"
proof -
  let ?st1 = "\<lparr>log = [], uuid_draws = 1\<rparr>"
  let ?st2 = "snd (ParDo (process example_flatten) ?st1 [(example_file, ''not json'')])"
  have p1: "process example_flatten initial_state (example_file, ''{}'')
     = (Inr [(example_row ''2020-08-23'' ''1.1.1.1'' ''a.com'')\<lparr>measurement_id := ''a''\<rparr>,
             (example_row ''2020-08-23'' ''1.1.1.1'' ''a.com'')\<lparr>measurement_id := ''a''\<rparr>],
        ?st1)"
    by code_simp
  have d2: "uuid_draws ?st2 = 1" by code_simp
  have p2: "fst (process example_flatten ?st2 (example_file, ''{}''))
     = Inr [(example_row ''2020-08-23'' ''1.1.1.1'' ''a.com'')\<lparr>measurement_id := ''aa''\<rparr>,
            (example_row ''2020-08-23'' ''1.1.1.1'' ''a.com'')\<lparr>measurement_id := ''aa''\<rparr>]"
    by code_simp
  have d0: "uuid_draws initial_state = 0" by (simp add: initial_state_def)
  have fin: "finite {''x'', ''y''}" by simp
  note t = process_measurement_id[OF example_parsed example_parsed,
      of "\<lambda>_ _. []" example_attempts initial_state example_file "[(example_file, ''not json'')]"
         example_file "{''x'', ''y''}",
      unfolded Let_def example_flatten_def[symmetric] p1 prod.case d2 d0]
  obtain out2 st3 where q2: "process example_flatten ?st2 (example_file, ''{}'') = (out2, st3)"
    by (cases "process example_flatten ?st2 (example_file, ''{}'')")
  from t[unfolded q2 prod.case] fin
  have cnt: "card {(a, b). a \<in> {''x'', ''y''} \<and> b \<in> {''x'', ''y''} \<and>
           ids_collide (redraw example_flatten 0 a 1 b) initial_state
             (example_file, ''{}'') [(example_file, ''not json'')] (example_file, ''{}'')}
     \<le> card {''x'', ''y''}"
    by (elim exE conjE) (rule mp, assumption, assumption)
  have c1: "ids_collide (redraw example_flatten 0 ''x'' 1 ''x'') initial_state
     (example_file, ''{}'') [(example_file, ''not json'')] (example_file, ''{}'')"
    by code_simp
  have c2: "\<not> ids_collide (redraw example_flatten 0 ''x'' 1 ''y'') initial_state
     (example_file, ''{}'') [(example_file, ''not json'')] (example_file, ''{}'')"
    by code_simp
  from conjI[OF example_parsed conjI[OF p1 conjI[OF d2 conjI[OF p2 conjI[OF fin
    conjI[OF cnt conjI[OF c1 c2]]]]]]]
  show ?thesis .
qed

section \<open>Properties of the Maxmind provider\<close>

lemma lookup_result:
  "fst (lookup self addr) =
     (case maxmind_asn self addr of
        Inl e \<Rightarrow> Inl KeyError
      | Inr info \<Rightarrow>
          (case autonomous_system_number info of
             None \<Rightarrow> Inl KeyError
           | Some n \<Rightarrow>
               if n = 0 then Inl KeyError
               else Inr (network info, n, autonomous_system_organization info, None, None,
                         (case maxmind_city self addr of Inl e \<Rightarrow> None | Inr c \<Rightarrow> iso_code c))))"
  by (simp add: lookup_def get_maxmind_asn_def get_country_code_def
      split: sum.splits option.splits prod.splits)

text \<open>
  C8, in the form the code satisfies. \<open>lookup\<close> raises \<open>KeyError\<close> exactly when the ASN
  reader raises or its response carries no ASN or the ASN 0, and it raises nothing else.
  With an ASN other than 0 and no country data (the city reader raises, or its response
  has no code) it returns the record with the country unset. A failed lookup reaches the
  join as the record with no metadata.
\<close>

theorem lookup_fails_iff_asn_falsy:
  "(fst (lookup self addr) = Inl KeyError \<longleftrightarrow>
      (case maxmind_asn self addr of
         Inl e \<Rightarrow> True
       | Inr info \<Rightarrow> autonomous_system_number info = None \<or> autonomous_system_number info = Some 0)) \<and>
   (\<forall>e. fst (lookup self addr) = Inl e \<longrightarrow> e = KeyError) \<and>
   (\<forall>info n. maxmind_asn self addr = Inr info \<and> autonomous_system_number info = Some n \<and> n \<noteq> 0 \<and>
       (case maxmind_city self addr of Inl e \<Rightarrow> True | Inr c \<Rightarrow> iso_code c = None) \<longrightarrow>
       fst (lookup self addr)
         = Inr (network info, n, autonomous_system_organization info, None, None, None)) \<and>
   (fst (lookup self addr) = Inl KeyError \<longrightarrow>
      get_metadata (ip_metadata_chooser_of (\<lambda>a. fst (lookup self a))) addr = no_metadata)"
proof (intro conjI allI impI)
  show "fst (lookup self addr) = Inl KeyError \<longleftrightarrow>
      (case maxmind_asn self addr of
         Inl e \<Rightarrow> True
       | Inr info \<Rightarrow> autonomous_system_number info = None \<or> autonomous_system_number info = Some 0)"
    unfolding lookup_result by (simp split: sum.splits option.splits)
next
  fix e assume "fst (lookup self addr) = Inl e"
  then show "e = KeyError"
    unfolding lookup_result by (simp split: sum.splits option.splits if_splits)
next
  fix info n
  assume "maxmind_asn self addr = Inr info \<and> autonomous_system_number info = Some n \<and> n \<noteq> 0 \<and>
       (case maxmind_city self addr of Inl e \<Rightarrow> True | Inr c \<Rightarrow> iso_code c = None)"
  then show "fst (lookup self addr)
         = Inr (network info, n, autonomous_system_organization info, None, None, None)"
    unfolding lookup_result by (simp split: sum.splits)
next
  assume "fst (lookup self addr) = Inl KeyError"
  then show "get_metadata (ip_metadata_chooser_of (\<lambda>a. fst (lookup self a))) addr = no_metadata"
    by (simp add: ip_metadata_chooser_of_def)
qed

lemma example_maxmind_asn:
  "maxmind_asn example_maxmind ''1.1.1.1''
     = Inr \<lparr>autonomous_system_number = Some 13335,
            autonomous_system_organization = Some ''CLOUDFLARENET'',
            network = Some ''1.1.1.0/24''\<rparr>"
  by (simp add: example_maxmind_def)

lemma example_maxmind_city:
  "(case maxmind_city example_maxmind ''1.1.1.1'' of Inl e \<Rightarrow> True | Inr c \<Rightarrow> iso_code c = None)"
  by (simp add: example_maxmind_def)

theorem lookup_fails_iff_asn_falsy_witness:
  "maxmind_asn example_maxmind ''1.1.1.1''
     = Inr \<lparr>autonomous_system_number = Some 13335,
            autonomous_system_organization = Some ''CLOUDFLARENET'',
            network = Some ''1.1.1.0/24''\<rparr> \<and>
   (case maxmind_city example_maxmind ''1.1.1.1'' of Inl e \<Rightarrow> True | Inr c \<Rightarrow> iso_code c = None) \<and>
   fst (lookup example_maxmind ''1.1.1.1'')
     = Inr (Some ''1.1.1.0/24'', 13335, Some ''CLOUDFLARENET'', None, None, None)"
proof -
  let ?info = "\<lparr>autonomous_system_number = Some (13335::int),
            autonomous_system_organization = Some ''CLOUDFLARENET'',
            network = Some ''1.1.1.0/24''\<rparr>"
  note t = lookup_fails_iff_asn_falsy[of example_maxmind "''1.1.1.1''"]
  from t have "\<forall>info n. maxmind_asn example_maxmind ''1.1.1.1'' = Inr info \<and>
       autonomous_system_number info = Some n \<and> n \<noteq> 0 \<and>
       (case maxmind_city example_maxmind ''1.1.1.1'' of Inl e \<Rightarrow> True | Inr c \<Rightarrow> iso_code c = None) \<longrightarrow>
       fst (lookup example_maxmind ''1.1.1.1'')
         = Inr (network info, n, autonomous_system_organization info, None, None, None)"
    by (rule conjunct1[OF conjunct2[OF conjunct2]])
  then have "maxmind_asn example_maxmind ''1.1.1.1'' = Inr ?info \<and>
       autonomous_system_number ?info = Some 13335 \<and> (13335::int) \<noteq> 0 \<and>
       (case maxmind_city example_maxmind ''1.1.1.1'' of Inl e \<Rightarrow> True | Inr c \<Rightarrow> iso_code c = None) \<longrightarrow>
       fst (lookup example_maxmind ''1.1.1.1'')
         = Inr (network ?info, 13335, autonomous_system_organization ?info, None, None, None)"
    by (elim allE)
  with example_maxmind_asn example_maxmind_city
  have "fst (lookup example_maxmind ''1.1.1.1'')
     = Inr (Some ''1.1.1.0/24'', 13335, Some ''CLOUDFLARENET'', None, None, None)" by simp
  with example_maxmind_asn example_maxmind_city show ?thesis by (intro conjI)
qed

text \<open>
  Failure exactly when the ASN lookup yields no ASN does not hold for a response that
  carries the ASN 0: \<open>not asn\<close> holds of 0.
\<close>

theorem lookup_asn_zero_counterexample:
  "fst (fst (get_maxmind_asn example_maxmind ''192.0.2.1'')) = Some 0 \<and>
   fst (fst (get_maxmind_asn example_maxmind ''192.0.2.1'')) \<noteq> None \<and>
   fst (lookup example_maxmind ''192.0.2.1'') = Inl KeyError"
  by (simp add: lookup_def get_maxmind_asn_def get_country_code_def example_maxmind_def)

section \<open>Properties of the run\<close>

lemma raise_exception_if_zero_iff:
  "(raise_exception_if_zero num = Inl ZeroRowsException \<longleftrightarrow> num = 0) \<and>
   (raise_exception_if_zero num = Inr () \<longleftrightarrow> num \<noteq> 0)"
  by (simp add: raise_exception_if_zero_def)

lemma raise_error_if_collection_empty_iff:
  "raise_error_if_collection_empty xs = (if xs = [] then Inl ZeroRowsException else Inr [()])"
  by (simp add: raise_error_if_collection_empty_def raise_exception_if_zero_def)

lemma get_pipeline_options_known:
  "scan_type \<in> set ALL_SCAN_TYPES \<longleftrightarrow> (\<exists>opts. get_pipeline_options scan_type job_name = Inr opts)"
proof -
  have "map_of SCAN_TYPES_TO_ZONES scan_type = None \<longleftrightarrow> scan_type \<notin> fst ` set SCAN_TYPES_TO_ZONES"
    by (rule map_of_eq_None_iff)
  then show ?thesis
    unfolding ALL_SCAN_TYPES_def get_pipeline_options_def
    by (cases "map_of SCAN_TYPES_TO_ZONES scan_type") simp_all
qed

text \<open>
  C9. Empty-output abort. \<open>_raise_exception_if_zero\<close> raises if and only if the count
  is zero, so the check on a collection raises if and only if it is empty. A run with a
  known scan type whose destination fits the export mode, whose selector returns a
  non-empty file list and whose stages return, raises when the joined rows are empty and
  otherwise writes them.
\<close>

theorem run_beam_pipeline_zero_rows:
  "(raise_exception_if_zero num = Inl ZeroRowsException \<longleftrightarrow> num = 0) \<and>
   (raise_exception_if_zero num = Inr () \<longleftrightarrow> num \<noteq> 0) \<and>
   (raise_error_if_collection_empty out = Inl ZeroRowsException \<longleftrightarrow> out = []) \<and>
   (export_gcs = startswith destination ''gs://'' \<and>
    scan_type \<in> set ALL_SCAN_TYPES \<and>
    data_to_load self scan_type incremental_load destination start_date end_date = Inr new_filenames \<and>
    new_filenames \<noteq> [] \<and>
    run_rows self st scan_type new_filenames = Inr flattened \<and>
    snd (add_metadata (date_ip_key_of self) (metadata_chooser_factory self) (merge_with_rows self)
           flattened) = Inr out \<longrightarrow>
    run_beam_pipeline self st scan_type incremental_load job_name destination start_date end_date
        export_gcs
      = (if out = [] then Inl ZeroRowsException
         else Inr (if export_gcs then WriteToGcs scan_type destination out
                   else WriteToBigquery scan_type destination incremental_load out)))"
proof (intro conjI impI)
  show "raise_exception_if_zero num = Inl ZeroRowsException \<longleftrightarrow> num = 0"
    by (simp add: raise_exception_if_zero_def)
  show "raise_exception_if_zero num = Inr () \<longleftrightarrow> num \<noteq> 0"
    by (simp add: raise_exception_if_zero_def)
  show "raise_error_if_collection_empty out = Inl ZeroRowsException \<longleftrightarrow> out = []"
    by (simp add: raise_error_if_collection_empty_iff)
next
  assume a: "export_gcs = startswith destination ''gs://'' \<and>
    scan_type \<in> set ALL_SCAN_TYPES \<and>
    data_to_load self scan_type incremental_load destination start_date end_date = Inr new_filenames \<and>
    new_filenames \<noteq> [] \<and>
    run_rows self st scan_type new_filenames = Inr flattened \<and>
    snd (add_metadata (date_ip_key_of self) (metadata_chooser_factory self) (merge_with_rows self)
           flattened) = Inr out"
  then have "scan_type \<in> set ALL_SCAN_TYPES" by simp
  then obtain opts where "get_pipeline_options scan_type job_name = Inr opts"
    using get_pipeline_options_known[of scan_type job_name] by blast
  with a show "run_beam_pipeline self st scan_type incremental_load job_name destination start_date end_date
        export_gcs
      = (if out = [] then Inl ZeroRowsException
         else Inr (if export_gcs then WriteToGcs scan_type destination out
                   else WriteToBigquery scan_type destination incremental_load out))"
    by (simp add: run_beam_pipeline_def Let_def raise_error_if_collection_empty_iff)
qed

lemma example_run_selection:
  "data_to_load example_pipeline_runner ''echo'' False ''base.echo_scan'' None None = Inr [example_file]"
  by code_simp

lemma example_run_rows:
  "run_rows example_pipeline_runner initial_state ''echo'' [example_file] = Inr []"
  by code_simp

lemma example_run_join:
  "snd (add_metadata (date_ip_key_of example_pipeline_runner)
          (metadata_chooser_factory example_pipeline_runner)
          (merge_with_rows example_pipeline_runner) []) = Inr []"
  by code_simp

lemma example_run_scan_type: "''echo'' \<in> set ALL_SCAN_TYPES"
  by code_simp

lemma example_run_destination: "False = startswith ''base.echo_scan'' ''gs://''"
  by code_simp

theorem run_beam_pipeline_zero_rows_witness:
  "''echo'' \<in> set ALL_SCAN_TYPES \<and>
   data_to_load example_pipeline_runner ''echo'' False ''base.echo_scan'' None None
     = Inr [example_file] \<and>
   [example_file] \<noteq> [] \<and>
   run_rows example_pipeline_runner initial_state ''echo'' [example_file] = Inr [] \<and>
   run_beam_pipeline example_pipeline_runner initial_state ''echo'' False ''write-base-echo-scan''
     ''base.echo_scan'' None None False = Inl ZeroRowsException"
proof -
  note t = run_beam_pipeline_zero_rows[where num = 0 and out = "[]" and export_gcs = False
      and destination = "''base.echo_scan''" and self = example_pipeline_runner
      and scan_type = "''echo''" and incremental_load = False and start_date = None
      and end_date = None and new_filenames = "[example_file]" and st = initial_state
      and flattened = "[]" and job_name = "''write-base-echo-scan''"]
  have h: "False = startswith ''base.echo_scan'' ''gs://'' \<and>
    ''echo'' \<in> set ALL_SCAN_TYPES \<and>
    data_to_load example_pipeline_runner ''echo'' False ''base.echo_scan'' None None = Inr [example_file] \<and>
    [example_file] \<noteq> [] \<and>
    run_rows example_pipeline_runner initial_state ''echo'' [example_file] = Inr [] \<and>
    snd (add_metadata (date_ip_key_of example_pipeline_runner)
          (metadata_chooser_factory example_pipeline_runner)
          (merge_with_rows example_pipeline_runner) []) = Inr []"
    by (intro conjI example_run_destination example_run_scan_type example_run_selection
          example_run_rows example_run_join) simp
  from t have "False = startswith ''base.echo_scan'' ''gs://'' \<and>
    ''echo'' \<in> set ALL_SCAN_TYPES \<and>
    data_to_load example_pipeline_runner ''echo'' False ''base.echo_scan'' None None = Inr [example_file] \<and>
    [example_file] \<noteq> [] \<and>
    run_rows example_pipeline_runner initial_state ''echo'' [example_file] = Inr [] \<and>
    snd (add_metadata (date_ip_key_of example_pipeline_runner)
          (metadata_chooser_factory example_pipeline_runner)
          (merge_with_rows example_pipeline_runner) []) = Inr [] \<longrightarrow>
    run_beam_pipeline example_pipeline_runner initial_state ''echo'' False ''write-base-echo-scan''
        ''base.echo_scan'' None None False
      = (if ([]::bigquery_row list) = [] then Inl ZeroRowsException
         else Inr (if False then WriteToGcs ''echo'' ''base.echo_scan'' []
                   else WriteToBigquery ''echo'' ''base.echo_scan'' False []))"
    by (rule conjunct2[OF conjunct2[OF conjunct2]])
  from this h have "run_beam_pipeline example_pipeline_runner initial_state ''echo'' False
        ''write-base-echo-scan'' ''base.echo_scan'' None None False
      = (if ([]::bigquery_row list) = [] then Inl ZeroRowsException
         else Inr (if False then WriteToGcs ''echo'' ''base.echo_scan'' []
                   else WriteToBigquery ''echo'' ''base.echo_scan'' False []))"
    by (rule mp)
  then have r: "run_beam_pipeline example_pipeline_runner initial_state ''echo'' False
        ''write-base-echo-scan'' ''base.echo_scan'' None None False = Inl ZeroRowsException"
    by simp
  have n: "[example_file] \<noteq> []" by simp
  show ?thesis by (intro conjI example_run_scan_type example_run_selection n example_run_rows r)
qed

end
